theory Spec2Isabelle
  imports Complex_Main "HOL-Library.Multiset"
begin

section \<open>Python values\<close>

text \<open>
  FinAgent is a Python program: \<open>tool.py\<close> holds the tool functions and their pydantic
  argument schemas, \<open>chatbot.py\<close> wires them into a LangGraph state graph and streams a
  turn to the caller. The values that flow through it are modelled as follows.

  A Python \<open>float\<close> is a real number, an infinity or NaN. Rounding is not modelled (every
  float is a real; the comparisons with \<open>0\<close> that the tools make are exact), the special
  values are, since comparisons treat them differently: every comparison with NaN is
  false.
\<close>

datatype pyfloat = Finite real | PosInf | NegInf | NaN

text \<open>\<open>x <= 0\<close> and \<open>x > 0\<close> on floats.\<close>

fun le_zero :: "pyfloat \<Rightarrow> bool" where
  "le_zero (Finite r) = (r \<le> 0)"
| "le_zero PosInf = False"
| "le_zero NegInf = True"
| "le_zero NaN = False"

fun gt_zero :: "pyfloat \<Rightarrow> bool" where
  "gt_zero (Finite r) = (0 < r)"
| "gt_zero PosInf = True"
| "gt_zero NegInf = False"
| "gt_zero NaN = False"

text \<open>
  Values: \<open>None\<close>, booleans, ints, floats, strings, datetimes (a number of clock ticks),
  dicts (association lists, in insertion order) and lists. An f-string is kept as its
  pieces, literal text and formatted values (\<open>Fmt spec v\<close> for \<open>{v:spec}\<close>, the empty
  spec for \<open>{v}\<close>), so that no float has to be printed. The rupee sign and the emoji of
  the source's literals (with the blank after an emoji) are left out of the literal
  pieces: \<open>INR ()\<close> is the source's \<open>INR\<close> with the rupee sign in brackets.
\<close>

datatype pyval =
    PNone
  | PBool bool
  | PInt int
  | PFloat pyfloat
  | PStr string
  | PText "piece list"
  | PDate int
  | PDict "(string \<times> pyval) list"
  | PList "pyval list"
and piece = Lit string | Fmt string pyval

type_synonym doc = "(string \<times> pyval) list"

text \<open>An exception: its class and \<open>str(e)\<close>.\<close>

datatype exn = Exn (exn_class: string) (exn_str: string)

text \<open>\<open>str.lower()\<close> and \<open>str.strip()\<close>, on ASCII.\<close>

definition lower_char :: "char \<Rightarrow> char" where
  "lower_char c =
     (let n = (of_char c :: nat) in if 65 \<le> n \<and> n \<le> 90 then char_of (n + 32) else c)"

definition lower :: "string \<Rightarrow> string" where
  "lower s = map lower_char s"

definition is_space :: "char \<Rightarrow> bool" where
  "is_space c = (let n = (of_char c :: nat) in (9 \<le> n \<and> n \<le> 13) \<or> (28 \<le> n \<and> n \<le> 32))"

definition strip :: "string \<Rightarrow> string" where
  "strip s = rev (dropWhile is_space (rev (dropWhile is_space s)))"

section \<open>Python arithmetic\<close>

text \<open>
  Float arithmetic on the special values follows IEEE 754; on finite values it is the
  real operation, without rounding or overflow.
\<close>

fun fadd :: "pyfloat \<Rightarrow> pyfloat \<Rightarrow> pyfloat" where
  "fadd NaN y = NaN"
| "fadd x NaN = NaN"
| "fadd PosInf NegInf = NaN"
| "fadd NegInf PosInf = NaN"
| "fadd PosInf y = PosInf"
| "fadd x PosInf = PosInf"
| "fadd NegInf y = NegInf"
| "fadd x NegInf = NegInf"
| "fadd (Finite a) (Finite b) = Finite (a + b)"

fun fneg :: "pyfloat \<Rightarrow> pyfloat" where
  "fneg (Finite a) = Finite (- a)"
| "fneg PosInf = NegInf"
| "fneg NegInf = PosInf"
| "fneg NaN = NaN"

fun fmul :: "pyfloat \<Rightarrow> pyfloat \<Rightarrow> pyfloat" where
  "fmul NaN y = NaN"
| "fmul x NaN = NaN"
| "fmul (Finite a) (Finite b) = Finite (a * b)"
| "fmul (Finite a) y = (if a = 0 then NaN else if 0 < a then y else fneg y)"
| "fmul x (Finite b) = (if b = 0 then NaN else if 0 < b then x else fneg x)"
| "fmul PosInf y = y"
| "fmul NegInf y = fneg y"

text \<open>\<open>x / y\<close> for a divisor that is not zero.\<close>

fun fdiv :: "pyfloat \<Rightarrow> pyfloat \<Rightarrow> pyfloat" where
  "fdiv NaN y = NaN"
| "fdiv x NaN = NaN"
| "fdiv (Finite a) (Finite b) = Finite (a / b)"
| "fdiv (Finite a) y = Finite 0"
| "fdiv x (Finite b) = (if 0 < b then x else fneg x)"
| "fdiv x y = NaN"

fun flt :: "pyfloat \<Rightarrow> pyfloat \<Rightarrow> bool" where
  "flt NaN y = False"
| "flt x NaN = False"
| "flt (Finite a) (Finite b) = (a < b)"
| "flt NegInf NegInf = False"
| "flt NegInf y = True"
| "flt x PosInf = (x \<noteq> PosInf)"
| "flt x y = False"

text \<open>
  The numbers among the values: ints, bools (\<open>True\<close> is \<open>1\<close>) and floats. An int
  becomes the float of the same value when it meets a float.
\<close>

fun as_int :: "pyval \<Rightarrow> int option" where
  "as_int (PInt i) = Some i"
| "as_int (PBool b) = Some (if b then 1 else 0)"
| "as_int v = None"

fun as_float :: "pyval \<Rightarrow> pyfloat option" where
  "as_float (PFloat f) = Some f"
| "as_float v = map_option (\<lambda>i. Finite (real_of_int i)) (as_int v)"

definition type_error :: exn where
  "type_error = Exn ''TypeError'' ''unsupported operand type(s)''"

text \<open>\<open>a + b\<close>, \<open>a * b\<close>, \<open>a / b\<close>, \<open>a > b\<close>, \<open>a < b\<close> and \<open>a == 0\<close> on numbers.\<close>

definition py_add :: "pyval \<Rightarrow> pyval \<Rightarrow> exn + pyval" where
  "py_add a b =
     (case (as_int a, as_int b) of
        (Some i, Some j) \<Rightarrow> Inr (PInt (i + j))
      | _ \<Rightarrow> (case (as_float a, as_float b) of
                (Some x, Some y) \<Rightarrow> Inr (PFloat (fadd x y))
              | _ \<Rightarrow> Inl type_error))"

definition py_mul :: "pyval \<Rightarrow> pyval \<Rightarrow> exn + pyval" where
  "py_mul a b =
     (case (as_int a, as_int b) of
        (Some i, Some j) \<Rightarrow> Inr (PInt (i * j))
      | _ \<Rightarrow> (case (as_float a, as_float b) of
                (Some x, Some y) \<Rightarrow> Inr (PFloat (fmul x y))
              | _ \<Rightarrow> Inl type_error))"

definition py_truediv :: "pyval \<Rightarrow> pyval \<Rightarrow> exn + pyval" where
  "py_truediv a b =
     (case (as_float a, as_float b) of
        (Some x, Some y) \<Rightarrow>
          if y = Finite 0 then Inl (Exn ''ZeroDivisionError'' ''division by zero'')
          else Inr (PFloat (fdiv x y))
      | _ \<Rightarrow> Inl type_error)"

definition py_lt :: "pyval \<Rightarrow> pyval \<Rightarrow> exn + bool" where
  "py_lt a b =
     (case (as_float a, as_float b) of
        (Some x, Some y) \<Rightarrow> Inr (flt x y)
      | _ \<Rightarrow> Inl type_error)"

definition py_gt :: "pyval \<Rightarrow> pyval \<Rightarrow> exn + bool" where
  "py_gt a b = py_lt b a"

definition eq_zero :: "pyval \<Rightarrow> bool" where
  "eq_zero a = (as_float a = Some (Finite 0))"

text \<open>Sequencing of steps that may raise.\<close>

definition bind :: "exn + 'a \<Rightarrow> ('a \<Rightarrow> exn + 'b) \<Rightarrow> exn + 'b" where
  "bind m f = (case m of Inl e \<Rightarrow> Inl e | Inr v \<Rightarrow> f v)"

text \<open>\<open>d.get(k, default)\<close> and \<open>d[k] = v\<close> on a dict.\<close>

definition dict_get :: "doc \<Rightarrow> string \<Rightarrow> pyval \<Rightarrow> pyval" where
  "dict_get d k dflt = (case map_of d k of None \<Rightarrow> dflt | Some v \<Rightarrow> v)"

fun dict_set :: "doc \<Rightarrow> string \<Rightarrow> pyval \<Rightarrow> doc" where
  "dict_set [] k v = [(k, v)]"
| "dict_set ((k', v') # d) k v = (if k' = k then (k, v) # d else (k', v') # dict_set d k v)"

text \<open>\<open>sum(exp.get("amount", 0) for exp in expenses)\<close>, started at the int \<open>0\<close>.\<close>

fun sum_from :: "pyval \<Rightarrow> pyval list \<Rightarrow> exn + pyval" where
  "sum_from acc [] = Inr acc"
| "sum_from acc (v # vs) = bind (py_add acc v) (\<lambda>acc'. sum_from acc' vs)"

definition sum_amounts :: "doc list \<Rightarrow> exn + pyval" where
  "sum_amounts es = sum_from (PInt 0) (map (\<lambda>e. dict_get e ''amount'' (PInt 0)) es)"

section \<open>The database and the outside world\<close>

text \<open>
  \<open>tool.py\<close> holds two MongoDB collections at module level, \<open>expenses_collection\<close> and
  \<open>goals_collection\<close>. A collection is the list of its documents.
\<close>

record db =
  expenses :: "doc list"
  goals :: "doc list"

text \<open>
  What the program cannot decide itself is read from an environment: the clock (the
  \<open>n\<close>-th read of \<open>datetime.now()\<close> in a call), whether a database call raises, is
  acknowledged or not and which \<open>_id\<close> it assigns, what the HTTP request of
  \<open>get_stock_price\<close> returns (\<open>requests.get\<close> may raise, and so may \<open>r.json()\<close> on the
  response), what the Serper search returns, and which number pydantic reads from a
  string when it validates the arguments of a tool call.
\<close>

record insert_result =
  acknowledged :: bool
  inserted_id :: string

record env =
  now :: "nat \<Rightarrow> int"
  insert_one :: "string \<Rightarrow> doc \<Rightarrow> exn + insert_result"
  find_raises :: "string \<Rightarrow> exn option"
  requests_get :: "string \<Rightarrow> exn + (exn + pyval)"
  serper_run :: "string \<Rightarrow> exn + string"
  parse_float :: "string \<Rightarrow> pyfloat option"
  parse_int :: "string \<Rightarrow> int option"

text \<open>
  \<open>try: body except Exception as e: return handler(e)\<close>, where the body returns on
  every path that does not raise.
\<close>

definition try_except ::
  "(exn + 'a) \<times> 's \<Rightarrow> (exn \<Rightarrow> 'a) \<Rightarrow> (exn + 'a) \<times> 's" where
  "try_except body handler =
     (case body of (Inl e, s) \<Rightarrow> (Inr (handler e), s) | (Inr v, s) \<Rightarrow> (Inr v, s))"

text \<open>
  The result envelope, the dict \<open>{"status": .., "data": .., "message": ..}\<close>, and the
  one that the handlers return, \<open>{"status": "error", "data": None, "message":
  f"Failed to ...: {str(e)}"}\<close>.
\<close>

definition envelope :: "string \<Rightarrow> pyval \<Rightarrow> pyval \<Rightarrow> pyval" where
  "envelope s d m = PDict [(''status'', PStr s), (''data'', d), (''message'', m)]"

definition failure :: "string \<Rightarrow> exn \<Rightarrow> pyval" where
  "failure what e = envelope ''error'' PNone (PText [Lit what, Lit (exn_str e)])"

definition quote :: piece where
  "quote = Lit [CHR 0x27]"

definition opt_str :: "string option \<Rightarrow> pyval" where
  "opt_str d = (case d of None \<Rightarrow> PNone | Some s \<Rightarrow> PStr s)"

text \<open>
  \<open>collection.insert_one(doc)\<close>: it raises and stores nothing, or it stores the document
  under a fresh \<open>_id\<close> and returns the result, acknowledged or not.
\<close>

definition stored :: "doc \<Rightarrow> insert_result \<Rightarrow> doc" where
  "stored d r = d @ [(''_id'', PStr (inserted_id r))]"

section \<open>The tools of tool.py\<close>

subsection \<open>add_expense_tool\<close>

definition expense_document ::
  "env \<Rightarrow> string \<Rightarrow> pyfloat \<Rightarrow> string \<Rightarrow> string option \<Rightarrow> doc" where
  "expense_document E user_id amount category description =
     [(''user_id'', PStr user_id),
      (''amount'', PFloat amount),
      (''category'', PStr (strip (lower category))),
      (''description'', opt_str description),
      (''date'', PDate (now E 0)),
      (''created_at'', PDate (now E 1))]"

definition add_expense_body ::
  "env \<Rightarrow> string \<Rightarrow> pyfloat \<Rightarrow> string \<Rightarrow> string option \<Rightarrow> db \<Rightarrow> (exn + pyval) \<times> db" where
  "add_expense_body E user_id amount category description s =
     (if le_zero amount then
        (Inr (envelope ''error'' PNone
           (PText [Lit ''Failed to add expense: Amount must be positive. Received '',
                   Fmt [] (PFloat amount), Lit ''.''])), s)
      else
        let expense = expense_document E user_id amount category description
        in case insert_one E ''expenses'' expense of
             Inl e \<Rightarrow> (Inl e, s)
           | Inr result \<Rightarrow>
               let s' = s\<lparr>expenses := expenses s @ [stored expense result]\<rparr> in
               if acknowledged result then
                 (Inr (envelope ''success''
                    (PDict [(''expense_id'', PStr (inserted_id result)),
                            (''amount'', PFloat amount),
                            (''currency'', PStr ''INR ()''),
                            (''category'', PStr category),
                            (''description'', opt_str description)])
                    (PText [Lit ''Successfully added expense of '', Fmt [] (PFloat amount),
                            Lit '' for '', quote, Fmt [] (PStr category), quote,
                            Lit ''.''])), s')
               else
                 (Inr (envelope ''error'' PNone
                    (PStr ''Failed to add expense: Database write not acknowledged.'')), s'))"

definition add_expense_tool ::
  "env \<Rightarrow> string \<Rightarrow> pyfloat \<Rightarrow> string \<Rightarrow> string option \<Rightarrow> db \<Rightarrow> (exn + pyval) \<times> db" where
  "add_expense_tool E user_id amount category description s =
     try_except (add_expense_body E user_id amount category description s)
       (failure ''Failed to add expense: '')"

subsection \<open>add_goal_tool\<close>

definition goal_document :: "env \<Rightarrow> string \<Rightarrow> string \<Rightarrow> doc" where
  "goal_document E user_id goal_text =
     [(''user_id'', PStr user_id),
      (''goal_text'', PStr goal_text),
      (''advice_given'', PBool False),
      (''created_at'', PDate (now E 0))]"

definition add_goal_body :: "env \<Rightarrow> string \<Rightarrow> string \<Rightarrow> db \<Rightarrow> (exn + pyval) \<times> db" where
  "add_goal_body E user_id goal_text s =
     (let goal = goal_document E user_id goal_text
      in case insert_one E ''goals'' goal of
           Inl e \<Rightarrow> (Inl e, s)
         | Inr result \<Rightarrow>
             let s' = s\<lparr>goals := goals s @ [stored goal result]\<rparr> in
             if acknowledged result then
               (Inr (envelope ''success''
                  (PDict [(''goal_id'', PStr (inserted_id result)),
                          (''goal_text'', PStr goal_text)])
                  (PText [Lit ''Goal '', quote, Fmt [] (PStr goal_text), quote,
                          Lit '' added successfully! You can do it!''])), s')
             else
               (Inr (envelope ''error'' PNone
                  (PStr ''Failed to add goal: Database write not acknowledged.'')), s'))"

definition add_goal_tool :: "env \<Rightarrow> string \<Rightarrow> string \<Rightarrow> db \<Rightarrow> (exn + pyval) \<times> db" where
  "add_goal_tool E user_id goal_text s =
     try_except (add_goal_body E user_id goal_text s)
       (failure ''Failed to add goal: '')"

subsection \<open>query_expenses_tool\<close>

text \<open>
  A datetime is its number of microseconds since the epoch. \<open>timedelta(days=d)\<close> raises
  OverflowError beyond 999999999 days, and so does a subtraction that leaves the years 1
  to 9999.
\<close>

definition timedelta_days :: "int \<Rightarrow> exn + int" where
  "timedelta_days d =
     (if 999999999 < \<bar>d\<bar> then Inl (Exn ''OverflowError'' ''days must have magnitude <= 999999999'')
      else Inr (d * 86400000000))"

definition datetime_sub :: "int \<Rightarrow> int \<Rightarrow> exn + int" where
  "datetime_sub t delta =
     (let r = t - delta in
      if r < - 62135596800000000 \<or> 253402300799999999 < r
      then Inl (Exn ''OverflowError'' ''date value out of range'')
      else Inr r)"

text \<open>
  \<open>expenses_collection.find(query)\<close>, read to the end by \<open>list\<close>: it raises, or it
  returns the documents of the user whose \<open>date\<close> lies in the window, of the category
  when the query has one. The projection \<open>{"_id": 0}\<close> drops the \<open>_id\<close> field.
\<close>

definition in_window :: "doc \<Rightarrow> int \<Rightarrow> int \<Rightarrow> bool" where
  "in_window d lo hi =
     (case map_of d ''date'' of Some (PDate t) \<Rightarrow> lo \<le> t \<and> t \<le> hi | _ \<Rightarrow> False)"

definition find_expenses ::
  "env \<Rightarrow> db \<Rightarrow> string \<Rightarrow> string option \<Rightarrow> int \<Rightarrow> int \<Rightarrow> exn + doc list" where
  "find_expenses E s user_id cat lo hi =
     (case find_raises E ''expenses'' of
        Some e \<Rightarrow> Inl e
      | None \<Rightarrow>
          Inr (filter (\<lambda>d. map_of d ''user_id'' = Some (PStr user_id) \<and> in_window d lo hi \<and>
                            (case cat of None \<Rightarrow> True
                             | Some c \<Rightarrow> map_of d ''category'' = Some (PStr c)))
                 (expenses s)))"

definition without_id :: "doc \<Rightarrow> doc" where
  "without_id d = filter (\<lambda>kv. fst kv \<noteq> ''_id'') d"

definition isoformat :: "pyval \<Rightarrow> pyval" where
  "isoformat v = (case v of PDate t \<Rightarrow> PText [Fmt ''isoformat'' (PDate t)] | _ \<Rightarrow> v)"

definition serializable :: "doc \<Rightarrow> doc" where
  "serializable d = map (\<lambda>kv. (fst kv, isoformat (snd kv))) d"

definition query_expenses_body ::
  "env \<Rightarrow> string \<Rightarrow> string option \<Rightarrow> int \<Rightarrow> db \<Rightarrow> exn + pyval" where
  "query_expenses_body E user_id category period_days s =
     (let end_date = now E 0 in
      bind (timedelta_days period_days) (\<lambda>delta.
      bind (datetime_sub end_date delta) (\<lambda>start_date.
      bind (find_expenses E s user_id
              (case category of None \<Rightarrow> None
               | Some c \<Rightarrow> if c = [] then None else Some (strip (lower c)))
              start_date end_date) (\<lambda>found.
      let expenses = map without_id found in
      bind (sum_amounts expenses) (\<lambda>total_amount.
      Inr (envelope ''success''
             (PDict [(''expenses'', PList (map (\<lambda>d. PDict (serializable d)) expenses)),
                     (''count'', PInt (int (length expenses))),
                     (''total_amount'', total_amount),
                     (''currency'', PStr ''INR ()''),
                     (''period_days'', PInt period_days),
                     (''category_filter'', opt_str category)])
             (PText [Lit ''Found '', Fmt [] (PInt (int (length expenses))),
                     Lit '' expenses totaling '', Fmt [] total_amount,
                     Lit '' for the last '', Fmt [] (PInt period_days), Lit '' days.''])))))))"

definition query_expenses_tool ::
  "env \<Rightarrow> string \<Rightarrow> string option \<Rightarrow> int \<Rightarrow> db \<Rightarrow> (exn + pyval) \<times> db" where
  "query_expenses_tool E user_id category period_days s =
     try_except (query_expenses_body E user_id category period_days s, s)
       (failure ''Failed to query expenses: '')"

subsection \<open>generate_spending_feedback\<close>

definition BUDGET_GUIDELINES :: "(string \<times> int) list" where
  "BUDGET_GUIDELINES =
     [(''food'', 30), (''transport'', 15), (''entertainment'', 10), (''shopping'', 20)]"

text \<open>The body of the loop over \<open>category_percentages.items()\<close>: the points it appends.\<close>

definition category_feedback :: "string \<Rightarrow> pyval \<Rightarrow> exn + pyval list" where
  "category_feedback category percentage =
     (let recommended_max =
            (case map_of BUDGET_GUIDELINES category of None \<Rightarrow> 25 | Some m \<Rightarrow> m) in
      bind (py_gt percentage (PInt (recommended_max + 10))) (\<lambda>high.
      if high then
        Inr [PText [Lit ''You'', quote, Lit ''re spending '', Fmt ''.1f'' percentage,
                    Lit ''% on '', Fmt [] (PStr category), Lit '', which is quite high. '',
                    Lit ''Consider reducing '', Fmt [] (PStr category),
                    Lit '' expenses to stay within a healthy budget.'']]
      else
        bind (py_gt percentage (PInt recommended_max)) (\<lambda>over.
        if over then
          Inr [PText [Lit ''Your '', Fmt [] (PStr category), Lit '' spending is '',
                      Fmt ''.1f'' percentage, Lit ''%, slightly above the recommended '',
                      Fmt [] (PInt recommended_max), Lit ''%. '',
                      Lit ''Keep an eye on this category.'']]
        else
          bind (py_truediv (PInt recommended_max) (PInt 2)) (\<lambda>half.
          bind (py_lt percentage half) (\<lambda>low.
          if low then
            Inr [PText [Lit ''Great job keeping '', Fmt [] (PStr category),
                        Lit '' expenses low at '', Fmt ''.1f'' percentage, Lit ''%! '',
                        Lit ''You'', quote, Lit ''re well under the '',
                        Fmt [] (PInt recommended_max), Lit ''% guideline.'']]
          else Inr [])))))"

fun category_loop :: "pyval list \<Rightarrow> doc \<Rightarrow> exn + pyval list" where
  "category_loop points [] = Inr points"
| "category_loop points (kv # kvs) =
     bind (category_feedback (fst kv) (snd kv)) (\<lambda>new. category_loop (points @ new) kvs)"

text \<open>
  \<open>max(items, key=lambda x: x[1])\<close>: the first item whose value no later item exceeds.
\<close>

fun max_item :: "string \<times> pyval \<Rightarrow> doc \<Rightarrow> exn + string \<times> pyval" where
  "max_item best [] = Inr best"
| "max_item best (kv # kvs) =
     bind (py_gt (snd kv) (snd best)) (\<lambda>g. max_item (if g then kv else best) kvs)"

definition highest_feedback :: "pyval \<Rightarrow> doc \<Rightarrow> doc \<Rightarrow> exn + pyval list" where
  "highest_feedback total_spent by_category category_percentages =
     (case by_category of
        [] \<Rightarrow> Inr []
      | kv # kvs \<Rightarrow>
          bind (max_item kv kvs) (\<lambda>highest_category.
          bind (py_mul total_spent (PFloat (Finite (4 / 10)))) (\<lambda>limit.
          bind (py_gt (dict_get by_category (fst highest_category) PNone) limit) (\<lambda>g.
          if g then
            (case map_of category_percentages (fst highest_category) of
               None \<Rightarrow> Inl (Exn ''KeyError'' (fst highest_category))
             | Some p \<Rightarrow>
                 Inr [PText [Fmt ''title'' (PStr (fst highest_category)),
                             Lit '' is your largest expense category at '', Fmt ''.1f'' p,
                             Lit ''%. '',
                             Lit ''This might be worth reviewing for potential savings.'']])
          else Inr []))))"

definition general_feedback :: "pyval \<Rightarrow> exn + pyval list" where
  "general_feedback total_spent =
     bind (py_gt total_spent (PInt 50000)) (\<lambda>much.
     if much then
       Inr [PStr (''You'' @ [CHR 0x27] @ ''re spending quite significantly. '' @
                  ''Consider tracking specific budgets for each category.'')]
     else
       bind (py_lt total_spent (PInt 10000)) (\<lambda>little.
       if little then
         Inr [PStr ''Excellent budgeting! Your spending is very controlled and mindful.'']
       else Inr []))"

definition generate_spending_feedback :: "pyval \<Rightarrow> doc \<Rightarrow> doc \<Rightarrow> pyval \<Rightarrow> exn + pyval" where
  "generate_spending_feedback total_spent by_category category_percentages period_days =
     (if eq_zero total_spent then
        Inr (PStr (''Amazing! You haven'' @ [CHR 0x27] @ ''t spent anything this period. '' @
                   ''Your savings must be growing!''))
      else
        bind (category_loop [] category_percentages) (\<lambda>points1.
        bind (highest_feedback total_spent by_category category_percentages) (\<lambda>new2.
        bind (general_feedback total_spent) (\<lambda>new3.
        let points3 = points1 @ new2 @ new3;
            feedback_points =
              (if points3 = [] then
                 [PStr (''Your spending patterns look healthy and balanced across '' @
                        ''categories! Keep it up!'')]
               else points3);
            base_message =
              [Lit ''In the last '', Fmt [] period_days, Lit '' days, you spent '',
               Fmt '',.2f'' total_spent, Lit '' across '',
               Fmt [] (PInt (int (length by_category))), Lit '' categories. '']
        in if feedback_points \<noteq> [] then
             Inr (PText (base_message @ [Lit '' '', Fmt ''join'' (PList feedback_points)]))
           else
             Inr (PText (base_message @ [Lit ''Your spending patterns look balanced.'']))))))"

subsection \<open>expense_summary_tool\<close>

definition category_of :: "doc \<Rightarrow> exn + string" where
  "category_of e =
     (case dict_get e ''category'' (PStr ''Miscellaneous'') of
        PStr c \<Rightarrow> Inr (lower c)
      | _ \<Rightarrow> Inl (Exn ''AttributeError'' ''object has no attribute lower''))"

fun group_by_category :: "doc \<Rightarrow> doc list \<Rightarrow> exn + doc" where
  "group_by_category by_category [] = Inr by_category"
| "group_by_category by_category (e # es) =
     bind (category_of e) (\<lambda>cat.
     bind (py_add (dict_get by_category cat (PInt 0)) (dict_get e ''amount'' (PInt 0))) (\<lambda>v.
     group_by_category (dict_set by_category cat v) es))"

fun percentages :: "pyval \<Rightarrow> doc \<Rightarrow> doc \<Rightarrow> exn + doc" where
  "percentages total_spent acc [] = Inr acc"
| "percentages total_spent acc (kv # kvs) =
     bind (py_truediv (snd kv) total_spent) (\<lambda>q.
     bind (py_mul q (PInt 100)) (\<lambda>p.
     percentages total_spent (dict_set acc (fst kv) p) kvs))"

definition expense_summary_body :: "env \<Rightarrow> string \<Rightarrow> int \<Rightarrow> db \<Rightarrow> exn + pyval" where
  "expense_summary_body E user_id period_days s =
     (let end_date = now E 0 in
      bind (timedelta_days period_days) (\<lambda>delta.
      bind (datetime_sub end_date delta) (\<lambda>start_date.
      bind (find_expenses E s user_id None start_date end_date) (\<lambda>expenses.
      if expenses = [] then
        Inr (envelope ''success''
               (PDict [(''message'', PStr ''No expenses found for this period.'')])
               (PStr (''You haven'' @ [CHR 0x27] @ ''t recorded any expenses in the last '' @
                      ''{period_days} days. Great job saving!'')))
      else
        bind (sum_amounts expenses) (\<lambda>total_spent.
        bind (group_by_category [] expenses) (\<lambda>by_category.
        bind (if 0 < period_days then py_truediv total_spent (PInt period_days)
              else Inr (PInt 0)) (\<lambda>average_daily.
        bind (percentages total_spent [] by_category) (\<lambda>category_percentages.
        bind (generate_spending_feedback total_spent by_category category_percentages
                (PInt period_days)) (\<lambda>feedback.
        Inr (envelope ''success''
               (PDict [(''period'', PText [Lit ''last '', Fmt [] (PInt period_days),
                                           Lit '' days'']),
                       (''total_spent'', total_spent),
                       (''currency'', PStr ''INR ()''),
                       (''average_daily_spend'', average_daily),
                       (''spending_by_category'', PDict by_category),
                       (''category_percentages'', PDict category_percentages),
                       (''transaction_count'', PInt (int (length expenses))),
                       (''feedback'', feedback),
                       (''period_days'', PInt period_days)])
               feedback))))))))))"

definition expense_summary_tool :: "env \<Rightarrow> string \<Rightarrow> int \<Rightarrow> db \<Rightarrow> (exn + pyval) \<times> db" where
  "expense_summary_tool E user_id period_days s =
     try_except (expense_summary_body E user_id period_days s, s)
       (failure ''Failed to generate expense summary: '')"

subsection \<open>get_stock_price and search_with_serper\<close>

text \<open>
  Neither has a \<open>try\<close>: \<open>get_stock_price\<close> returns \<open>r.json()\<close> of the response to its
  request, \<open>search_with_serper\<close> returns \<open>serper.run(query)\<close>, and what those calls raise
  leaves the function. The key in the URL is not reproduced.
\<close>

definition stock_url :: "string \<Rightarrow> string" where
  "stock_url symbol =
     ''https://www.alphavantage.co/query?function=GLOBAL_QUOTE&symbol='' @ symbol @ ''&apikey=''"

definition get_stock_price :: "env \<Rightarrow> string \<Rightarrow> db \<Rightarrow> (exn + pyval) \<times> db" where
  "get_stock_price E symbol s =
     (case requests_get E (stock_url symbol) of
        Inl e \<Rightarrow> (Inl e, s)
      | Inr r \<Rightarrow> (case r of Inl e \<Rightarrow> (Inl e, s) | Inr j \<Rightarrow> (Inr j, s)))"

definition search_with_serper :: "env \<Rightarrow> string \<Rightarrow> db \<Rightarrow> (exn + pyval) \<times> db" where
  "search_with_serper E query s =
     (case serper_run E query of Inl e \<Rightarrow> (Inl e, s) | Inr r \<Rightarrow> (Inr (PStr r), s))"

section \<open>The tools as the graph sees them\<close>

text \<open>
  The decorator \<open>@tool(args_schema=...)\<close> turns a function into a structured tool: a
  name (the function's), an argument schema and the function. Without \<open>args_schema\<close> the
  schema is read off the function's signature; \<open>generate_spending_feedback\<close> is not
  decorated and becomes a tool of that kind when \<open>chatbot.py\<close> hands it to the tool node.
  A schema is the list of its fields: name, type and whether the field is required.
\<close>

datatype ftype = TStr | TOptStr | TInt | TFloat | TDict

datatype field = Field (fname: string) (ftype: ftype) (required: bool)

definition AddExpenseInput :: "field list" where
  "AddExpenseInput =
     [Field ''user_id'' TStr True, Field ''amount'' TFloat True,
      Field ''category'' TStr True, Field ''description'' TOptStr False]"

definition QueryExpenseInput :: "field list" where
  "QueryExpenseInput =
     [Field ''user_id'' TStr True, Field ''category'' TOptStr False,
      Field ''period_days'' TInt False]"

definition ExpenseSummaryInput :: "field list" where
  "ExpenseSummaryInput = [Field ''user_id'' TStr True, Field ''period_days'' TInt False]"

definition AddGoalInput :: "field list" where
  "AddGoalInput = [Field ''user_id'' TStr True]"

text \<open>
  Running a tool on the arguments of a tool call validates them against the schema and
  calls the function with the validated fields that the call supplied: a field of the
  schema that the call leaves out is not passed (the function's own default applies), an
  argument that is not a field of the schema is dropped. A supplied value must be of the
  field's type or convertible to it in pydantic's lax mode: a number field takes an int,
  a bool, a string that reads as a number (what it reads as is the environment's), a
  float field any float, an int field a float without fractional part; a string field
  takes strings only. A missing required field or a value that is not convertible is a
  ValidationError.
\<close>

fun coerce :: "env \<Rightarrow> ftype \<Rightarrow> pyval \<Rightarrow> pyval option" where
  "coerce E TStr (PStr x) = Some (PStr x)"
| "coerce E TOptStr (PStr x) = Some (PStr x)"
| "coerce E TOptStr PNone = Some PNone"
| "coerce E TInt (PInt i) = Some (PInt i)"
| "coerce E TInt (PBool b) = Some (PInt (if b then 1 else 0))"
| "coerce E TInt (PFloat (Finite r)) =
     (if real_of_int \<lfloor>r\<rfloor> = r then Some (PInt \<lfloor>r\<rfloor>) else None)"
| "coerce E TInt (PStr x) = map_option PInt (parse_int E x)"
| "coerce E TFloat (PFloat f) = Some (PFloat f)"
| "coerce E TFloat (PInt i) = Some (PFloat (Finite (real_of_int i)))"
| "coerce E TFloat (PBool b) = Some (PFloat (Finite (if b then 1 else 0)))"
| "coerce E TFloat (PStr x) = map_option PFloat (parse_float E x)"
| "coerce E TDict (PDict d) = Some (PDict d)"
| "coerce E t v = None"

definition validation_error :: "string \<Rightarrow> exn" where
  "validation_error f = Exn ''ValidationError'' f"

fun validate :: "env \<Rightarrow> field list \<Rightarrow> doc \<Rightarrow> exn + doc" where
  "validate E [] args = Inr []"
| "validate E (f # fs) args =
     (case map_of args (fname f) of
        None \<Rightarrow>
          if required f then Inl (validation_error (fname f)) else validate E fs args
      | Some v \<Rightarrow>
          (case coerce E (ftype f) v of
             None \<Rightarrow> Inl (validation_error (fname f))
           | Some v' \<Rightarrow> bind (validate E fs args) (\<lambda>kw. Inr ((fname f, v') # kw))))"

text \<open>
  Calling a Python function with keyword arguments: a parameter without default that is
  not among them is a TypeError. After validation a keyword that is present has the type
  of its field, so the other branch of the typed readers below is not reached from a
  tool call.
\<close>

definition missing_argument :: "string \<Rightarrow> exn" where
  "missing_argument p = Exn ''TypeError'' (''missing 1 required positional argument: '' @ p)"

definition arg_str :: "doc \<Rightarrow> string \<Rightarrow> exn + string" where
  "arg_str kw p = (case map_of kw p of Some (PStr x) \<Rightarrow> Inr x | _ \<Rightarrow> Inl (missing_argument p))"

definition arg_float :: "doc \<Rightarrow> string \<Rightarrow> exn + pyfloat" where
  "arg_float kw p =
     (case map_of kw p of Some (PFloat x) \<Rightarrow> Inr x | _ \<Rightarrow> Inl (missing_argument p))"

definition arg_any :: "doc \<Rightarrow> string \<Rightarrow> exn + pyval" where
  "arg_any kw p = (case map_of kw p of Some v \<Rightarrow> Inr v | None \<Rightarrow> Inl (missing_argument p))"

definition arg_dict :: "doc \<Rightarrow> string \<Rightarrow> exn + doc" where
  "arg_dict kw p =
     (case map_of kw p of Some (PDict d) \<Rightarrow> Inr d | _ \<Rightarrow> Inl (missing_argument p))"

definition arg_opt_str :: "doc \<Rightarrow> string \<Rightarrow> string option" where
  "arg_opt_str kw p = (case map_of kw p of Some (PStr x) \<Rightarrow> Some x | _ \<Rightarrow> None)"

definition arg_int_default :: "doc \<Rightarrow> string \<Rightarrow> int \<Rightarrow> int" where
  "arg_int_default kw p d = (case map_of kw p of Some (PInt i) \<Rightarrow> i | _ \<Rightarrow> d)"

definition raise :: "exn \<Rightarrow> db \<Rightarrow> (exn + pyval) \<times> db" where
  "raise e s = (Inl e, s)"

record tool =
  tool_name :: string
  args_schema :: "field list"
  func :: "env \<Rightarrow> doc \<Rightarrow> db \<Rightarrow> (exn + pyval) \<times> db"

definition add_expense_tool_st :: tool where
  "add_expense_tool_st =
     \<lparr>tool_name = ''add_expense_tool'', args_schema = AddExpenseInput,
      func = (\<lambda>E kw s.
        case arg_str kw ''user_id'' of Inl e \<Rightarrow> raise e s | Inr user_id \<Rightarrow>
        case arg_float kw ''amount'' of Inl e \<Rightarrow> raise e s | Inr amount \<Rightarrow>
        case arg_str kw ''category'' of Inl e \<Rightarrow> raise e s | Inr category \<Rightarrow>
        add_expense_tool E user_id amount category (arg_opt_str kw ''description'') s)\<rparr>"

definition query_expenses_tool_st :: tool where
  "query_expenses_tool_st =
     \<lparr>tool_name = ''query_expenses_tool'', args_schema = QueryExpenseInput,
      func = (\<lambda>E kw s.
        case arg_str kw ''user_id'' of Inl e \<Rightarrow> raise e s | Inr user_id \<Rightarrow>
        query_expenses_tool E user_id (arg_opt_str kw ''category'')
          (arg_int_default kw ''period_days'' 30) s)\<rparr>"

definition expense_summary_tool_st :: tool where
  "expense_summary_tool_st =
     \<lparr>tool_name = ''expense_summary_tool'', args_schema = ExpenseSummaryInput,
      func = (\<lambda>E kw s.
        case arg_str kw ''user_id'' of Inl e \<Rightarrow> raise e s | Inr user_id \<Rightarrow>
        expense_summary_tool E user_id (arg_int_default kw ''period_days'' 30) s)\<rparr>"

definition add_goal_tool_st :: tool where
  "add_goal_tool_st =
     \<lparr>tool_name = ''add_goal_tool'', args_schema = AddGoalInput,
      func = (\<lambda>E kw s.
        case arg_str kw ''user_id'' of Inl e \<Rightarrow> raise e s | Inr user_id \<Rightarrow>
        case arg_str kw ''goal_text'' of Inl e \<Rightarrow> raise e s | Inr goal_text \<Rightarrow>
        add_goal_tool E user_id goal_text s)\<rparr>"

definition generate_spending_feedback_st :: tool where
  "generate_spending_feedback_st =
     \<lparr>tool_name = ''generate_spending_feedback'',
      args_schema =
        [Field ''total_spent'' TFloat True, Field ''by_category'' TDict True,
         Field ''category_percentages'' TDict True, Field ''period_days'' TInt True],
      func = (\<lambda>E kw s.
        case arg_any kw ''total_spent'' of Inl e \<Rightarrow> raise e s | Inr total_spent \<Rightarrow>
        case arg_dict kw ''by_category'' of Inl e \<Rightarrow> raise e s | Inr by_category \<Rightarrow>
        case arg_dict kw ''category_percentages'' of Inl e \<Rightarrow> raise e s
        | Inr category_percentages \<Rightarrow>
        case arg_any kw ''period_days'' of Inl e \<Rightarrow> raise e s | Inr period_days \<Rightarrow>
        (generate_spending_feedback total_spent by_category category_percentages
           period_days, s))\<rparr>"

definition get_stock_price_st :: tool where
  "get_stock_price_st =
     \<lparr>tool_name = ''get_stock_price'', args_schema = [Field ''symbol'' TStr True],
      func = (\<lambda>E kw s.
        case arg_str kw ''symbol'' of Inl e \<Rightarrow> raise e s | Inr symbol \<Rightarrow>
        get_stock_price E symbol s)\<rparr>"

definition search_with_serper_st :: tool where
  "search_with_serper_st =
     \<lparr>tool_name = ''search_with_serper'', args_schema = [Field ''query'' TStr True],
      func = (\<lambda>E kw s.
        case arg_str kw ''query'' of Inl e \<Rightarrow> raise e s | Inr query \<Rightarrow>
        search_with_serper E query s)\<rparr>"

definition run_tool :: "env \<Rightarrow> tool \<Rightarrow> doc \<Rightarrow> db \<Rightarrow> (exn + pyval) \<times> db" where
  "run_tool E t args s =
     (case validate E (args_schema t) args of
        Inl e \<Rightarrow> (Inl e, s)
      | Inr kw \<Rightarrow> func t E kw s)"

text \<open>The list \<open>tools\<close> of \<open>chatbot.py\<close>.\<close>

definition tools :: "tool list" where
  "tools =
     [add_expense_tool_st, query_expenses_tool_st, expense_summary_tool_st,
      add_goal_tool_st, generate_spending_feedback_st, get_stock_price_st,
      search_with_serper_st]"

section \<open>Messages and the state of the graph\<close>

text \<open>
  The messages of \<open>langchain_core\<close>. The content of a message is a string; the content
  of a tool message is the tool's output if that is a string and its serialisation
  (\<open>json.dumps\<close>, or \<open>str\<close> where that fails) otherwise, which is kept as \<open>Dumps v\<close>: the
  serialisation of a value, and each f-string of the tools, is a string that is not
  empty. \<open>if content:\<close> asks for a string that is not empty.
\<close>

datatype role = SystemMessage | HumanMessage | AIMessage | ToolMessage

datatype content = Str string | Dumps pyval

fun truthy :: "content \<Rightarrow> bool" where
  "truthy (Str x) = (x \<noteq> [])"
| "truthy (Dumps v) = True"

record tool_call =
  call_name :: string
  call_args :: doc
  call_id :: string

record message =
  role :: role
  content :: content
  tool_calls :: "tool_call list"
  tool_call_id :: string
  status :: string
  msg_id :: "string option"

definition system_message :: "string \<Rightarrow> message" where
  "system_message c =
     \<lparr>role = SystemMessage, content = Str c, tool_calls = [], tool_call_id = [],
      status = [], msg_id = None\<rparr>"

definition human_message :: "string \<Rightarrow> message" where
  "human_message c =
     \<lparr>role = HumanMessage, content = Str c, tool_calls = [], tool_call_id = [],
      status = [], msg_id = None\<rparr>"

definition tool_message :: "content \<Rightarrow> tool_call \<Rightarrow> string \<Rightarrow> message" where
  "tool_message c call st =
     \<lparr>role = ToolMessage, content = c, tool_calls = [], tool_call_id = call_id call,
      status = st, msg_id = None\<rparr>"

text \<open>
  \<open>ChatState\<close> has the one key \<open>messages\<close>, with the reducer \<open>add_messages\<close>: a message
  of the update whose id is that of a message of the state replaces it (the last one of
  that id), any other message is appended. A message without id is given a fresh UUID
  first, so it is always appended; \<open>None\<close> stands for such an id here.
\<close>

fun replace_first :: "string \<Rightarrow> message \<Rightarrow> message list \<Rightarrow> message list" where
  "replace_first i m [] = []"
| "replace_first i m (x # xs) =
     (if msg_id x = Some i then m # xs else x # replace_first i m xs)"

definition merge_message :: "message list \<Rightarrow> message \<Rightarrow> message list" where
  "merge_message merged m =
     (case msg_id m of
        None \<Rightarrow> merged @ [m]
      | Some i \<Rightarrow>
          if Some i \<in> msg_id ` set merged then rev (replace_first i m (rev merged))
          else merged @ [m])"

definition add_messages :: "message list \<Rightarrow> message list \<Rightarrow> message list" where
  "add_messages left right = foldl merge_message left right"

text \<open>
  An id is new to a state when it is still to be assigned or is the id of none of its
  messages. The ids that the model's answers carry are run ids, new at every call.
\<close>

definition fresh_id :: "string option \<Rightarrow> message list \<Rightarrow> bool" where
  "fresh_id i messages = (i = None \<or> i \<notin> msg_id ` set messages)"

section \<open>The nodes of chatbot.py\<close>

text \<open>
  The model is part of the environment of a turn: called on the messages, it streams
  chunks of text and then raises or returns its answer, an AI message with its text, its
  tool calls and its id. The tool node runs the calls of one answer on a thread pool; the
  environment ranks them, and they take effect on the database in the order of their
  ranks.

  The recursion limit of a run is read from the configuration of LangGraph.
  \<open>chatbot.py\<close> puts none into its \<open>config\<close>, so the limit of a turn is the default of
  the LangGraph that runs it, which the repository does not fix: it belongs to the
  environment. LangGraph refuses a limit below 1; the environment gives the steps that
  the limit allows beyond the first.
\<close>

record ai_response =
  resp_content :: string
  resp_tool_calls :: "tool_call list"
  resp_id :: "string option"

record genv =
  tool_env :: env
  llm :: "message list \<Rightarrow> string list \<times> (exn + ai_response)"
  completion_rank :: "nat \<Rightarrow> nat"
  more_steps :: nat

definition recursion_limit :: "genv \<Rightarrow> nat" where
  "recursion_limit G = Suc (more_steps G)"

definition ai_message :: "ai_response \<Rightarrow> message" where
  "ai_message r =
     \<lparr>role = AIMessage, content = Str (resp_content r), tool_calls = resp_tool_calls r,
      tool_call_id = [], status = [], msg_id = resp_id r\<rparr>"

text \<open>\<open>chat_node\<close>: the chunks streamed by the call, and the update or the exception.\<close>

definition chat_node :: "genv \<Rightarrow> message list \<Rightarrow> string list \<times> (exn + message list)" where
  "chat_node G messages =
     (case llm G messages of
        (chunks, Inl e) \<Rightarrow> (chunks, Inl e)
      | (chunks, Inr response) \<Rightarrow> (chunks, Inr [ai_message response]))"

text \<open>\<open>tools_condition\<close> of \<open>langgraph.prebuilt\<close>: \<open>None\<close> is the end of the graph.\<close>

datatype node = ChatNode | Tools

definition tools_condition :: "message list \<Rightarrow> exn + node option" where
  "tools_condition messages =
     (if messages = [] then
        Inl (Exn ''ValueError'' ''No messages found in input state to tool_edge'')
      else if role (last messages) = AIMessage \<and> tool_calls (last messages) \<noteq> []
      then Inr (Some Tools)
      else Inr None)"

text \<open>
  \<open>ToolNode(tools)\<close> of \<open>langgraph.prebuilt\<close>, built as \<open>chatbot.py\<close> builds it, with
  no \<open>handle_tool_errors\<close>. A call of a name that is not registered is answered by an
  error message. A call of a tool is run on the arguments of the call, and the output
  becomes a tool message that carries the id of the call. Of the exceptions of a run the
  node answers one kind with an error message, the ValidationError of arguments that do
  not fit the schema (the message repeats the arguments, which is left out here); every
  other exception leaves the node.
\<close>

fun join :: "string \<Rightarrow> string list \<Rightarrow> string" where
  "join sep [] = []"
| "join sep [x] = x"
| "join sep (x # y # ys) = x @ sep @ join sep (y # ys)"

definition stringify :: "pyval \<Rightarrow> content" where
  "stringify v = (case v of PStr x \<Rightarrow> Str x | _ \<Rightarrow> Dumps v)"

definition invalid_tool_message :: "tool list \<Rightarrow> tool_call \<Rightarrow> message" where
  "invalid_tool_message ts call =
     tool_message
       (Str (''Error: '' @ call_name call @ '' is not a valid tool, try one of ['' @
             join '', '' (map tool_name ts) @ ''].'')) call ''error''"

definition invocation_error_message :: "tool_call \<Rightarrow> exn \<Rightarrow> message" where
  "invocation_error_message call e =
     tool_message
       (Str (''Error invoking tool '' @ [CHR 0x27] @ call_name call @ [CHR 0x27] @
             '' with error:'' @ [CHR 0x0A] @ '' '' @ exn_str e @ [CHR 0x0A] @
             '' Please fix the error and try again.'')) call ''error''"

text \<open>
  Beside its message or exception and the database, the run of a call returns the
  invocations it made of a tool: the name of the tool and the arguments it was invoked
  on. This record is kept through the turn, so that what the tools are invoked with can
  be stated.
\<close>

type_synonym invocation = "string \<times> doc"

definition run_one ::
  "env \<Rightarrow> tool list \<Rightarrow> tool_call \<Rightarrow> db \<Rightarrow> (exn + message) \<times> db \<times> invocation list" where
  "run_one E ts call s =
     (case find (\<lambda>t. tool_name t = call_name call) ts of
        None \<Rightarrow> (Inr (invalid_tool_message ts call), s, [])
      | Some t \<Rightarrow>
          (case run_tool E t (call_args call) s of
             (Inl e, s') \<Rightarrow>
               (if exn_class e = ''ValidationError''
                then Inr (invocation_error_message call e) else Inl e,
                s', [(tool_name t, call_args call)])
           | (Inr v, s') \<Rightarrow>
               (Inr (tool_message (stringify v) call ''success''), s',
                [(tool_name t, call_args call)])))"

fun run_calls ::
  "env \<Rightarrow> tool list \<Rightarrow> (nat \<times> tool_call) list \<Rightarrow> db \<Rightarrow>
   (nat \<times> (exn + message)) list \<times> db \<times> invocation list" where
  "run_calls E ts [] s = ([], s, [])"
| "run_calls E ts (ic # ics) s =
     (case run_one E ts (snd ic) s of
        (m, s', made) \<Rightarrow>
          (case run_calls E ts ics s' of
             (ms, s'', invs) \<Rightarrow> ((fst ic, m) # ms, s'', made @ invs)))"

text \<open>
  The calls are numbered in the order of the request, run in the order of their ranks,
  and the results are read in the order of the request (\<open>executor.map\<close>): the messages,
  or the exception of the first call that raised one. Every call has run by then.
\<close>

definition completion_order :: "genv \<Rightarrow> tool_call list \<Rightarrow> (nat \<times> tool_call) list" where
  "completion_order G calls =
     sort_key (\<lambda>ic. completion_rank G (fst ic)) (zip [0..<length calls] calls)"

fun collect :: "(exn + message) list \<Rightarrow> exn + message list" where
  "collect [] = Inr []"
| "collect (Inl e # rs) = Inl e"
| "collect (Inr m # rs) = (case collect rs of Inl e \<Rightarrow> Inl e | Inr ms \<Rightarrow> Inr (m # ms))"

definition tool_node ::
  "genv \<Rightarrow> message list \<Rightarrow> db \<Rightarrow> (exn + message list) \<times> db \<times> invocation list" where
  "tool_node G messages s =
     (if messages = [] \<or> role (last messages) \<noteq> AIMessage then
        (Inl (Exn ''ValueError'' ''Last message is not an AIMessage''), s, [])
      else
        case run_calls (tool_env G) tools
               (completion_order G (tool_calls (last messages))) s of
          (results, s', invs) \<Rightarrow> (collect (map snd (sort_key fst results)), s', invs))"

section \<open>The graph and a turn\<close>

text \<open>
  The graph of \<open>chatbot.py\<close>: from the start to \<open>chat_node\<close>, from \<open>chat_node\<close> by
  \<open>tools_condition\<close> to \<open>tools\<close> or to the end, from \<open>tools\<close> back to \<open>chat_node\<close>. One
  super-step runs one node, applies its update with the reducer and chooses the next
  node; the checkpointer then saves the state. An exception in the node or in the
  condition ends the run with the state of the last checkpoint.

  In stream mode \<open>messages\<close> the run emits, with the node as metadata, the chunks of a
  model call while it streams (the answer itself, if nothing was streamed) and, at the
  end of a node, the messages of its update that were not emitted before: the tool
  messages of \<open>tools\<close>.
\<close>

record event =
  ev_content :: content
  ev_node :: node

definition superstep ::
  "genv \<Rightarrow> node \<Rightarrow> message list \<Rightarrow> db \<Rightarrow>
   event list \<times> (exn + message list \<times> node option) \<times> db \<times> invocation list" where
  "superstep G nd messages s =
     (case nd of
        ChatNode \<Rightarrow>
          (case chat_node G messages of
             (chunks, Inl e) \<Rightarrow>
               (map (\<lambda>c. \<lparr>ev_content = Str c, ev_node = ChatNode\<rparr>) chunks, Inl e, s, [])
           | (chunks, Inr update) \<Rightarrow>
               let emitted =
                     (if chunks = [] then map content update else map Str chunks);
                   evs = map (\<lambda>c. \<lparr>ev_content = c, ev_node = ChatNode\<rparr>) emitted;
                   messages' = add_messages messages update
               in case tools_condition messages' of
                    Inl e \<Rightarrow> (evs, Inl e, s, [])
                  | Inr next \<Rightarrow> (evs, Inr (messages', next), s, []))
      | Tools \<Rightarrow>
          (case tool_node G messages s of
             (Inl e, s', invs) \<Rightarrow> ([], Inl e, s', invs)
           | (Inr update, s', invs) \<Rightarrow>
               (map (\<lambda>m. \<lparr>ev_content = content m, ev_node = Tools\<rparr>) update,
                Inr (add_messages messages update, Some ChatNode), s', invs)))"

text \<open>
  The outcome of a run: what it emitted, the exception that ended it if one did, the
  state of the last checkpoint, the database, the number of super-steps completed and
  the tool invocations made.
\<close>

record outcome =
  events :: "event list"
  raised :: "exn option"
  saved :: "message list"
  world :: db
  supersteps :: nat
  invoked :: "invocation list"

text \<open>The decimal digits of a number, and the GraphRecursionError of a run.\<close>

fun str_nat :: "nat \<Rightarrow> string" where
  "str_nat n =
     (if n < 10 then [char_of (48 + n)] else str_nat (n div 10) @ [char_of (48 + n mod 10)])"

declare str_nat.simps [simp del]

definition graph_recursion_error :: "genv \<Rightarrow> exn" where
  "graph_recursion_error G =
     Exn ''GraphRecursionError''
       (''Recursion limit of '' @ str_nat (recursion_limit G) @
        '' reached without hitting a stop condition.'')"

definition stopped :: "exn option \<Rightarrow> message list \<Rightarrow> db \<Rightarrow> outcome" where
  "stopped e messages s =
     \<lparr>events = [], raised = e, saved = messages, world = s, supersteps = 0,
      invoked = []\<rparr>"

definition after_step :: "event list \<Rightarrow> invocation list \<Rightarrow> outcome \<Rightarrow> outcome" where
  "after_step evs invs r =
     r\<lparr>events := evs @ events r, supersteps := Suc (supersteps r),
       invoked := invs @ invoked r\<rparr>"

text \<open>
  The loop of LangGraph, with the number of super-steps it may still run. After a
  super-step the loop saves the checkpoint, then gives up with GraphRecursionError (its
  message is cut after the first sentence here) if the steps are used up, then ends if
  there is no next node. A run may take as many super-steps of the nodes as its recursion
  limit says, and it ends without error if the graph has come to its end before the last
  of them.
\<close>

fun pregel_loop :: "genv \<Rightarrow> nat \<Rightarrow> node \<Rightarrow> message list \<Rightarrow> db \<Rightarrow> outcome" where
  "pregel_loop G 0 nd messages s = stopped (Some (graph_recursion_error G)) messages s"
| "pregel_loop G (Suc n) nd messages s =
     (case superstep G nd messages s of
        (evs, Inl e, s', invs) \<Rightarrow>
          (stopped (Some e) messages s')\<lparr>events := evs, invoked := invs\<rparr>
      | (evs, Inr (messages', next), s', invs) \<Rightarrow>
          after_step evs invs
            (if n = 0 then stopped (Some (graph_recursion_error G)) messages' s'
             else case next of
                    None \<Rightarrow> stopped None messages' s'
                  | Some nd' \<Rightarrow> pregel_loop G n nd' messages' s'))"

text \<open>
  The checkpointer keeps, for a thread id and a namespace, the state of the last
  checkpoint. \<open>agent.stream(input, config)\<close> loads it (empty for a new thread), applies
  the input with the reducer, saves, and runs the loop from \<open>chat_node\<close>.
\<close>

type_synonym store = "string \<times> string \<Rightarrow> message list option"

definition load :: "store \<Rightarrow> string \<times> string \<Rightarrow> message list" where
  "load cp key = (case cp key of None \<Rightarrow> [] | Some ms \<Rightarrow> ms)"

definition agent_stream ::
  "genv \<Rightarrow> message list \<Rightarrow> string \<times> string \<Rightarrow> store \<Rightarrow> db \<Rightarrow> outcome" where
  "agent_stream G input key cp s =
     pregel_loop G (recursion_limit G) ChatNode (add_messages (load cp key) input) s"

text \<open>
  \<open>process_input_stream\<close>, read to its end by the caller: the fragments it yields, the
  checkpoints and the database after the turn.
\<close>

definition system_prompt :: string where
  "system_prompt =
     ''You are FinVoice, a helpful AI assistant. The current user'' @ [CHR 0x27] @
     ''s ID is always available as thread_id in your configuration.'' @ [CHR 0x0A] @
     ''Whenever you call any tool, always set user_id = thread_id '' @
     ''(you do not need to ask the user).''"

definition input_payload :: "string \<Rightarrow> message list" where
  "input_payload user_text = [system_message system_prompt, human_message user_text]"

definition config_key :: "string \<Rightarrow> string \<times> string" where
  "config_key session_id = (session_id, ''finvoice_ai'')"

definition error_fragment :: "exn \<Rightarrow> content" where
  "error_fragment e = Str (''Error during streaming: '' @ exn_str e)"

definition yielded :: "outcome \<Rightarrow> content list" where
  "yielded r =
     filter truthy (map ev_content (events r)) @
     (case raised r of None \<Rightarrow> [] | Some e \<Rightarrow> [error_fragment e])"

record turn =
  fragments :: "content list"
  checkpoints :: store
  database :: db

definition process_input_stream :: "genv \<Rightarrow> string \<Rightarrow> string \<Rightarrow> store \<Rightarrow> db \<Rightarrow> turn" where
  "process_input_stream G user_text session_id cp s =
     (let r = agent_stream G (input_payload user_text) (config_key session_id) cp s
      in \<lparr>fragments = yielded r,
          checkpoints = cp(config_key session_id \<mapsto> saved r),
          database = world r\<rparr>)"

text \<open>What a step of \<open>chat_node\<close> emits when the model answers.\<close>

definition chat_events :: "string list \<Rightarrow> ai_response \<Rightarrow> event list" where
  "chat_events chunks resp =
     map (\<lambda>c. \<lparr>ev_content = c, ev_node = ChatNode\<rparr>)
       (if chunks = [] then [Str (resp_content resp)] else map Str chunks)"

text \<open>
  A content comes from the model when it is a chunk that some call of the model streams
  or the text of an answer that some call returns.
\<close>

definition from_model :: "genv \<Rightarrow> content \<Rightarrow> bool" where
  "from_model G c =
     (\<exists>messages. c \<in> Str ` set (fst (llm G messages)) \<or>
        (\<exists>resp. snd (llm G messages) = Inr resp \<and> c = Str (resp_content resp)))"

text \<open>
  The origin of an emitted message, relative to a state: the model, through \<open>chat_node\<close>,
  or a tool message of the state, through \<open>tools\<close>.
\<close>

definition origin_ok :: "genv \<Rightarrow> message list \<Rightarrow> event \<Rightarrow> bool" where
  "origin_ok G ms ev =
     ((ev_node ev = ChatNode \<and> from_model G (ev_content ev)) \<or>
      (ev_node ev = Tools \<and>
       (\<exists>m\<in>set ms. role m = ToolMessage \<and> msg_id m = None \<and> content m = ev_content ev)))"

text \<open>
  The first \<open>k\<close> super-steps of the graph from a node, a state and a database, when
  each of them completes and names a next node: what they emit, the invocations they
  make, and the node, the state and the database the graph has then reached. No budget
  enters here.
\<close>

fun advance ::
  "genv \<Rightarrow> nat \<Rightarrow> node \<Rightarrow> message list \<Rightarrow> db \<Rightarrow>
   (event list \<times> invocation list \<times> node \<times> message list \<times> db) option" where
  "advance G 0 nd messages s = Some ([], [], nd, messages, s)"
| "advance G (Suc k) nd messages s =
     (case superstep G nd messages s of
        (evs, Inr (messages', Some nd'), s', invs) \<Rightarrow>
          (case advance G k nd' messages' s' of
             None \<Rightarrow> None
           | Some (evs', invs', c) \<Rightarrow> Some (evs @ evs', invs @ invs', c))
      | _ \<Rightarrow> None)"

text \<open>The outcome of a run that follows \<open>k\<close> completed super-steps.\<close>

definition after_steps :: "nat \<Rightarrow> event list \<Rightarrow> invocation list \<Rightarrow> outcome \<Rightarrow> outcome" where
  "after_steps k evs invs r =
     r\<lparr>events := evs @ events r, supersteps := k + supersteps r,
       invoked := invs @ invoked r\<rparr>"


section \<open>Example environments\<close>

text \<open>
  Concrete inputs on which the definitions are evaluated: an environment in which every
  outside call succeeds, one in which every outside call raises, the empty database and
  the store without checkpoint.
\<close>

definition env_up :: env where
  "env_up =
     \<lparr>now = (\<lambda>n. 1700000000000000 + int n),
      insert_one = (\<lambda>coll d. Inr \<lparr>acknowledged = True, inserted_id = ''id1''\<rparr>),
      find_raises = (\<lambda>coll. None),
      requests_get = (\<lambda>url. Inr (Inr (PDict [(''Global Quote'', PDict [])]))),
      serper_run = (\<lambda>q. Inr ''No good search result found''),
      parse_float = (\<lambda>x. if x = ''200'' then Some (Finite 200) else None),
      parse_int = (\<lambda>x. if x = ''30'' then Some 30 else None)\<rparr>"

definition connection_error :: exn where
  "connection_error = Exn ''ConnectionError'' ''connection refused''"

definition env_down :: env where
  "env_down =
     \<lparr>now = (\<lambda>n. 1700000000000000 + int n),
      insert_one = (\<lambda>coll d. Inl connection_error),
      find_raises = (\<lambda>coll. Some connection_error),
      requests_get = (\<lambda>url. Inl connection_error),
      serper_run = (\<lambda>q. Inl connection_error),
      parse_float = (\<lambda>x. if x = ''200'' then Some (Finite 200) else None),
      parse_int = (\<lambda>x. if x = ''30'' then Some 30 else None)\<rparr>"

definition db0 :: db where
  "db0 = \<lparr>expenses = [], goals = []\<rparr>"

definition cp0 :: store where
  "cp0 = (\<lambda>key. None)"

text \<open>
  Four models, each run with the recursion limit 25. The first greets and asks for no
  tool. The second, asked in session \<open>u1\<close> to record an expense, asks for
  \<open>add_expense_tool\<close> with the user id \<open>u2\<close> and answers once the tool message is
  there. The third times out. The fourth asks for a stock price at every call.
\<close>

definition greeting :: ai_response where
  "greeting =
     \<lparr>resp_content = ''Hello! How can I help you?'', resp_tool_calls = [],
      resp_id = Some ''run-1''\<rparr>"

definition G_plain :: genv where
  "G_plain =
     \<lparr>tool_env = env_up,
      llm = (\<lambda>messages. ([''Hello!'', '' How can I help you?''], Inr greeting)),
      completion_rank = (\<lambda>i. i), more_steps = 24\<rparr>"

definition expense_call :: tool_call where
  "expense_call =
     \<lparr>call_name = ''add_expense_tool'',
      call_args = [(''user_id'', PStr ''u2''), (''amount'', PInt 200),
                   (''category'', PStr ''groceries'')],
      call_id = ''call_1''\<rparr>"

definition asks_expense :: ai_response where
  "asks_expense = \<lparr>resp_content = [], resp_tool_calls = [expense_call], resp_id = None\<rparr>"

definition confirms :: ai_response where
  "confirms =
     \<lparr>resp_content = ''I have added your expense.'', resp_tool_calls = [], resp_id = None\<rparr>"

definition G_cross :: genv where
  "G_cross =
     \<lparr>tool_env = env_up,
      llm = (\<lambda>messages.
        if messages \<noteq> [] \<and> role (last messages) = ToolMessage
        then ([''I have added your expense.''], Inr confirms)
        else ([[]], Inr asks_expense)),
      completion_rank = (\<lambda>i. i), more_steps = 24\<rparr>"

text \<open>What \<open>add_expense_tool\<close> returns to that call, and the tool message made of it.\<close>

definition expense_added :: pyval where
  "expense_added =
     envelope ''success''
       (PDict [(''expense_id'', PStr ''id1''), (''amount'', PFloat (Finite 200)),
               (''currency'', PStr ''INR ()''), (''category'', PStr ''groceries''),
               (''description'', PNone)])
       (PText [Lit ''Successfully added expense of '', Fmt [] (PFloat (Finite 200)),
               Lit '' for '', quote, Fmt [] (PStr ''groceries''), quote, Lit ''.''])"

definition expense_added_message :: message where
  "expense_added_message = tool_message (Dumps expense_added) expense_call ''success''"

definition timeout_error :: exn where
  "timeout_error = Exn ''APITimeoutError'' ''Request timed out.''"

definition G_fail :: genv where
  "G_fail =
     \<lparr>tool_env = env_up,
      llm = (\<lambda>messages. ([], Inl timeout_error)),
      completion_rank = (\<lambda>i. i), more_steps = 24\<rparr>"

definition stock_call :: tool_call where
  "stock_call =
     \<lparr>call_name = ''get_stock_price'', call_args = [(''symbol'', PStr ''AAPL'')],
      call_id = ''call_2''\<rparr>"

definition asks_stock :: ai_response where
  "asks_stock = \<lparr>resp_content = [], resp_tool_calls = [stock_call], resp_id = None\<rparr>"

definition G_loop :: genv where
  "G_loop =
     \<lparr>tool_env = env_up,
      llm = (\<lambda>messages. ([[]], Inr asks_stock)),
      completion_rank = (\<lambda>i. i), more_steps = 24\<rparr>"



text \<open>
  A sixth model asks for the expense to be recorded and times out, after a first chunk,
  when it is called on the result. A seventh asks for a stock price while the network is
  down.
\<close>

definition G_late :: genv where
  "G_late =
     \<lparr>tool_env = env_up,
      llm = (\<lambda>messages.
        if messages \<noteq> [] \<and> role (last messages) = ToolMessage
        then ([''I have''], Inl timeout_error)
        else ([[]], Inr asks_expense)),
      completion_rank = (\<lambda>i. i), more_steps = 24\<rparr>"


section \<open>The tools: what the handlers capture\<close>

lemma try_except_returns: "\<exists>v s'. try_except body h = (Inr v, s')"
  by (cases body) (auto simp: try_except_def split: sum.splits)

lemma try_except_captures: "try_except (Inl e, s) h = (Inr (h e), s)"
  by (simp add: try_except_def)

lemma add_expense_rejects:
  "le_zero amount \<Longrightarrow>
   add_expense_tool E u amount c d s =
     (Inr (envelope ''error'' PNone
        (PText [Lit ''Failed to add expense: Amount must be positive. Received '',
                Fmt [] (PFloat amount), Lit ''.''])), s)"
  by (simp add: add_expense_tool_def add_expense_body_def try_except_def)

lemma add_expense_changes_only_past_guard:
  "snd (add_expense_tool E u amount c d s) \<noteq> s \<Longrightarrow> \<not> le_zero amount"
  by (auto simp: add_expense_tool_def add_expense_body_def try_except_def)

text \<open>
  C9. \<open>add_expense_tool\<close> answers an amount \<open>\<le> 0\<close> with the error envelope and leaves
  the database as it is (the two lemmas above), but its guard \<open>amount <= 0\<close> is false for
  NaN: called with the float NaN in an environment whose database acknowledges the
  write, the tool stores the expense and reports success, although NaN is not \<open>> 0\<close>.
\<close>

theorem add_expense_nan_inserted:
  "\<not> gt_zero NaN \<and>
   add_expense_tool env_up ''u1'' NaN ''food'' None db0 =
     (Inr (envelope ''success''
        (PDict [(''expense_id'', PStr ''id1''), (''amount'', PFloat NaN),
                (''currency'', PStr ''INR ()''), (''category'', PStr ''food''),
                (''description'', PNone)])
        (PText [Lit ''Successfully added expense of '', Fmt [] (PFloat NaN),
                Lit '' for '', quote, Fmt [] (PStr ''food''), quote, Lit ''.''])),
      \<lparr>expenses = [stored (expense_document env_up ''u1'' NaN ''food'' None)
                     \<lparr>acknowledged = True, inserted_id = ''id1''\<rparr>],
       goals = []\<rparr>)"
  by (simp add: add_expense_tool_def add_expense_body_def try_except_def env_up_def db0_def
      opt_str_def Let_def)

lemma coerce_TStr: "coerce E TStr v = Some w \<Longrightarrow> \<exists>x. v = PStr x \<and> w = PStr x"
  by (cases v) auto

text \<open>
  C10. The schema \<open>AddGoalInput\<close> has the one field \<open>user_id\<close>, and the function needs
  \<open>goal_text\<close> too: whenever the arguments of a call pass the validation against the
  schema, the validated keywords hold no \<open>goal_text\<close>, the call of the function raises
  the TypeError of a missing argument, and the database is as before. No goal is
  inserted.
\<close>

theorem add_goal_schema_valid_cannot_bind:
  assumes "validate E AddGoalInput args = Inr kw"
  shows "map_of kw ''goal_text'' = None \<and>
         run_tool E add_goal_tool_st args s = (Inl (missing_argument ''goal_text''), s)"
  using assms
  by (auto simp: AddGoalInput_def run_tool_def add_goal_tool_st_def arg_str_def raise_def
      bind_def split: option.splits if_splits sum.splits dest!: coerce_TStr)

theorem add_goal_schema_valid_cannot_bind_witness:
  "validate env_up AddGoalInput [(''user_id'', PStr ''u1'')] = Inr [(''user_id'', PStr ''u1'')] \<and>
   run_tool env_up add_goal_tool_st [(''user_id'', PStr ''u1'')] db0 =
     (Inl (missing_argument ''goal_text''), db0)"
proof -
  have v: "validate env_up AddGoalInput [(''user_id'', PStr ''u1'')] =
           Inr [(''user_id'', PStr ''u1'')]"
    by (simp add: AddGoalInput_def bind_def)
  show ?thesis
    using v add_goal_schema_valid_cannot_bind [OF v, of db0] by simp
qed

lemma coerce_TFloat: "coerce E TFloat v = Some w \<Longrightarrow> \<exists>a. w = PFloat a"
  by (cases v) auto

lemma coerce_TInt: "coerce E TInt v = Some w \<Longrightarrow> \<exists>i. w = PInt i"
proof (cases v)
  case (PFloat f)
  assume "coerce E TInt v = Some w"
  with PFloat show ?thesis by (cases f) (auto split: if_splits)
qed auto

lemma coerce_TOptStr:
  "coerce E TOptStr v = Some w \<Longrightarrow> w = PNone \<or> (\<exists>x. w = PStr x)"
  by (cases v) auto

lemma add_goal_never_runs: "\<exists>e. run_tool E add_goal_tool_st args s = (Inl e, s)"
  by (auto simp: AddGoalInput_def run_tool_def add_goal_tool_st_def arg_str_def raise_def
      bind_def validation_error_def split: option.splits if_splits sum.splits
      dest!: coerce_TStr)

text \<open>What the function of a registered tool is called with.\<close>

lemma add_expense_receives:
  assumes "validate E AddExpenseInput args = Inr kw"
  shows "\<exists>u v a c. map_of args ''user_id'' = Some (PStr u) \<and>
           map_of args ''amount'' = Some v \<and> coerce E TFloat v = Some (PFloat a) \<and>
           map_of args ''category'' = Some (PStr c) \<and>
           map_of kw ''user_id'' = Some (PStr u) \<and> map_of kw ''amount'' = Some (PFloat a) \<and>
           map_of kw ''category'' = Some (PStr c) \<and>
           run_tool E add_expense_tool_st args s =
             add_expense_tool E u a c (arg_opt_str kw ''description'') s"
  using assms
  by (auto simp: AddExpenseInput_def run_tool_def add_expense_tool_st_def arg_str_def
      arg_float_def raise_def bind_def validation_error_def
      split: option.splits if_splits sum.splits
      dest!: coerce_TStr coerce_TFloat)

lemma query_expenses_receives:
  assumes "validate E QueryExpenseInput args = Inr kw"
  shows "\<exists>u. map_of args ''user_id'' = Some (PStr u) \<and> map_of kw ''user_id'' = Some (PStr u) \<and>
           run_tool E query_expenses_tool_st args s =
             query_expenses_tool E u (arg_opt_str kw ''category'')
               (arg_int_default kw ''period_days'' 30) s"
  using assms
  by (auto simp: QueryExpenseInput_def run_tool_def query_expenses_tool_st_def arg_str_def
      raise_def bind_def validation_error_def
      split: option.splits if_splits sum.splits
      dest!: coerce_TStr)

lemma expense_summary_receives:
  assumes "validate E ExpenseSummaryInput args = Inr kw"
  shows "\<exists>u. map_of args ''user_id'' = Some (PStr u) \<and> map_of kw ''user_id'' = Some (PStr u) \<and>
           run_tool E expense_summary_tool_st args s =
             expense_summary_tool E u (arg_int_default kw ''period_days'' 30) s"
  using assms
  by (auto simp: ExpenseSummaryInput_def run_tool_def expense_summary_tool_st_def arg_str_def
      raise_def bind_def validation_error_def
      split: option.splits if_splits sum.splits
      dest!: coerce_TStr)

text \<open>The database tools return an envelope, whatever happens in their body.\<close>

lemma add_expense_envelope:
  "\<exists>st d m s'. add_expense_tool E u a c dd s = (Inr (envelope st d m), s') \<and>
     (st = ''success'' \<or> st = ''error'' \<and> d = PNone)"
  by (auto simp: add_expense_tool_def add_expense_body_def try_except_def failure_def Let_def
      split: sum.splits)

lemma query_expenses_body_envelope:
  "query_expenses_body E u oc p s = Inr v \<Longrightarrow> \<exists>d m. v = envelope ''success'' d m"
  by (auto simp: query_expenses_body_def bind_def Let_def split: sum.splits)

lemma query_expenses_envelope:
  "\<exists>st d m. query_expenses_tool E u oc p s = (Inr (envelope st d m), s) \<and>
     (st = ''success'' \<or> st = ''error'' \<and> d = PNone)"
proof (cases "query_expenses_body E u oc p s")
  case (Inl e)
  then show ?thesis by (fastforce simp: query_expenses_tool_def try_except_def failure_def)
next
  case (Inr v)
  from query_expenses_body_envelope [OF Inr] obtain d m where "v = envelope ''success'' d m"
    by blast
  with Inr show ?thesis by (fastforce simp: query_expenses_tool_def try_except_def)
qed

lemma expense_summary_body_envelope:
  "expense_summary_body E u p s = Inr v \<Longrightarrow> \<exists>d m. v = envelope ''success'' d m"
  by (auto simp: expense_summary_body_def bind_def Let_def split: sum.splits if_splits)

lemma expense_summary_envelope:
  "\<exists>st d m. expense_summary_tool E u p s = (Inr (envelope st d m), s) \<and>
     (st = ''success'' \<or> st = ''error'' \<and> d = PNone)"
proof (cases "expense_summary_body E u p s")
  case (Inl e)
  then show ?thesis by (fastforce simp: expense_summary_tool_def try_except_def failure_def)
next
  case (Inr v)
  from expense_summary_body_envelope [OF Inr] obtain d m where "v = envelope ''success'' d m"
    by blast
  with Inr show ?thesis by (fastforce simp: expense_summary_tool_def try_except_def)
qed

lemma add_expense_insert_failure:
  "\<not> le_zero a \<Longrightarrow> insert_one E ''expenses'' (expense_document E u a c d) = Inl e \<Longrightarrow>
   add_expense_tool E u a c d s = (Inr (failure ''Failed to add expense: '' e), s)"
  by (simp add: add_expense_tool_def add_expense_body_def try_except_def)

lemma add_goal_insert_failure:
  "insert_one E ''goals'' (goal_document E u g) = Inl e \<Longrightarrow>
   add_goal_tool E u g s = (Inr (failure ''Failed to add goal: '' e), s)"
  by (simp add: add_goal_tool_def add_goal_body_def try_except_def)

lemma find_failure_query:
  "timedelta_days p = Inr delta \<Longrightarrow> datetime_sub (now E 0) delta = Inr start \<Longrightarrow>
   find_raises E ''expenses'' = Some e \<Longrightarrow> query_expenses_body E u oc p s = Inl e"
  by (simp add: query_expenses_body_def bind_def find_expenses_def Let_def)

lemma find_failure_summary:
  "timedelta_days p = Inr delta \<Longrightarrow> datetime_sub (now E 0) delta = Inr start \<Longrightarrow>
   find_raises E ''expenses'' = Some e \<Longrightarrow> expense_summary_body E u p s = Inl e"
  by (simp add: expense_summary_body_def bind_def find_expenses_def Let_def)

lemma stock_receives:
  assumes "validate E (args_schema get_stock_price_st) args = Inr kw"
  shows "\<exists>x. map_of args ''symbol'' = Some (PStr x) \<and> map_of kw ''symbol'' = Some (PStr x) \<and>
           run_tool E get_stock_price_st args s = get_stock_price E x s"
  using assms
  by (auto simp: run_tool_def get_stock_price_st_def arg_str_def raise_def bind_def
      validation_error_def split: option.splits if_splits sum.splits dest!: coerce_TStr)

lemma serper_receives:
  assumes "validate E (args_schema search_with_serper_st) args = Inr kw"
  shows "\<exists>x. map_of args ''query'' = Some (PStr x) \<and> map_of kw ''query'' = Some (PStr x) \<and>
           run_tool E search_with_serper_st args s = search_with_serper E x s"
  using assms
  by (auto simp: run_tool_def search_with_serper_st_def arg_str_def raise_def bind_def
      validation_error_def split: option.splits if_splits sum.splits dest!: coerce_TStr)

text \<open>
  C4. Three registered tools capture what their work raises: \<open>add_expense_tool\<close>,
  \<open>query_expenses_tool\<close> and \<open>expense_summary_tool\<close>, run on arguments that pass
  their schema, return an envelope of status \<open>success\<close> or of status \<open>error\<close> with
  data \<open>None\<close>, and an exception of their body, in particular of the database call,
  comes back as the envelope with status \<open>error\<close>, data \<open>None\<close> and a message that
  holds \<open>str(e)\<close>, with the database as it was. The other ways through a registered
  tool let an exception out: arguments that do not pass the schema raise the
  ValidationError out of any tool; the function \<open>add_goal_tool\<close> has the same handler,
  but the registered tool never reaches it and raises on every call; \<open>get_stock_price\<close>
  and \<open>search_with_serper\<close> have no handler, and what their request or search raises
  leaves the tool.
\<close>

theorem database_tools_capture_failures:
  "(validate E AddExpenseInput xa = Inr kw1 \<longrightarrow>
      (\<exists>st d m s'. run_tool E add_expense_tool_st xa s = (Inr (envelope st d m), s') \<and>
         (st = ''success'' \<or> st = ''error'' \<and> d = PNone))) \<and>
   (validate E AddExpenseInput xa = Inr kw1 \<and> map_of kw1 ''user_id'' = Some (PStr u1) \<and>
    map_of kw1 ''amount'' = Some (PFloat a) \<and> map_of kw1 ''category'' = Some (PStr c) \<and>
    \<not> le_zero a \<and>
    insert_one E ''expenses''
      (expense_document E u1 a c (arg_opt_str kw1 ''description'')) = Inl e \<longrightarrow>
      run_tool E add_expense_tool_st xa s =
        (Inr (envelope ''error'' PNone
           (PText [Lit ''Failed to add expense: '', Lit (exn_str e)])), s)) \<and>
   (validate E QueryExpenseInput qa = Inr kw2 \<longrightarrow>
      (\<exists>st d m. run_tool E query_expenses_tool_st qa s = (Inr (envelope st d m), s) \<and>
         (st = ''success'' \<or> st = ''error'' \<and> d = PNone))) \<and>
   (validate E QueryExpenseInput qa = Inr kw2 \<and> map_of kw2 ''user_id'' = Some (PStr u2) \<and>
    query_expenses_body E u2 (arg_opt_str kw2 ''category'')
      (arg_int_default kw2 ''period_days'' 30) s = Inl e \<longrightarrow>
      run_tool E query_expenses_tool_st qa s =
        (Inr (envelope ''error'' PNone
           (PText [Lit ''Failed to query expenses: '', Lit (exn_str e)])), s)) \<and>
   (validate E ExpenseSummaryInput sa = Inr kw3 \<longrightarrow>
      (\<exists>st d m. run_tool E expense_summary_tool_st sa s = (Inr (envelope st d m), s) \<and>
         (st = ''success'' \<or> st = ''error'' \<and> d = PNone))) \<and>
   (validate E ExpenseSummaryInput sa = Inr kw3 \<and> map_of kw3 ''user_id'' = Some (PStr u3) \<and>
    expense_summary_body E u3 (arg_int_default kw3 ''period_days'' 30) s = Inl e \<longrightarrow>
      run_tool E expense_summary_tool_st sa s =
        (Inr (envelope ''error'' PNone
           (PText [Lit ''Failed to generate expense summary: '', Lit (exn_str e)])), s)) \<and>
   (timedelta_days p = Inr delta \<and> datetime_sub (now E 0) delta = Inr start \<and>
    find_raises E ''expenses'' = Some e \<longrightarrow>
      query_expenses_body E u oc p s = Inl e \<and> expense_summary_body E u p s = Inl e) \<and>
   (validate E (args_schema t) args = Inl ev \<longrightarrow> run_tool E t args s = (Inl ev, s)) \<and>
   (insert_one E ''goals'' (goal_document E u g) = Inl e \<longrightarrow>
      add_goal_tool E u g s =
        (Inr (envelope ''error'' PNone
           (PText [Lit ''Failed to add goal: '', Lit (exn_str e)])), s)) \<and>
   (\<exists>eg. run_tool E add_goal_tool_st ga s = (Inl eg, s)) \<and>
   (validate E (args_schema get_stock_price_st) ka = Inr kw4 \<and>
    map_of kw4 ''symbol'' = Some (PStr symbol) \<and>
    requests_get E (stock_url symbol) = Inl e \<longrightarrow>
      run_tool E get_stock_price_st ka s = (Inl e, s)) \<and>
   (validate E (args_schema search_with_serper_st) ra = Inr kw5 \<and>
    map_of kw5 ''query'' = Some (PStr q) \<and> serper_run E q = Inl e \<longrightarrow>
      run_tool E search_with_serper_st ra s = (Inl e, s))"
proof -
  have 1: "validate E AddExpenseInput xa = Inr kw1 \<longrightarrow>
      (\<exists>st d m s'. run_tool E add_expense_tool_st xa s = (Inr (envelope st d m), s') \<and>
         (st = ''success'' \<or> st = ''error'' \<and> d = PNone))"
  proof
    assume "validate E AddExpenseInput xa = Inr kw1"
    from add_expense_receives [OF this, of s] obtain u' a' c' where
      "run_tool E add_expense_tool_st xa s =
         add_expense_tool E u' a' c' (arg_opt_str kw1 ''description'') s"
      by blast
    with add_expense_envelope [of E u' a' c' "arg_opt_str kw1 ''description''" s]
    show "\<exists>st d m s'. run_tool E add_expense_tool_st xa s = (Inr (envelope st d m), s') \<and>
         (st = ''success'' \<or> st = ''error'' \<and> d = PNone)"
      by simp
  qed
  have 2: "validate E AddExpenseInput xa = Inr kw1 \<and> map_of kw1 ''user_id'' = Some (PStr u1) \<and>
    map_of kw1 ''amount'' = Some (PFloat a) \<and> map_of kw1 ''category'' = Some (PStr c) \<and>
    \<not> le_zero a \<and>
    insert_one E ''expenses''
      (expense_document E u1 a c (arg_opt_str kw1 ''description'')) = Inl e \<longrightarrow>
      run_tool E add_expense_tool_st xa s =
        (Inr (envelope ''error'' PNone
           (PText [Lit ''Failed to add expense: '', Lit (exn_str e)])), s)"
  proof
    assume h: "validate E AddExpenseInput xa = Inr kw1 \<and>
      map_of kw1 ''user_id'' = Some (PStr u1) \<and>
      map_of kw1 ''amount'' = Some (PFloat a) \<and> map_of kw1 ''category'' = Some (PStr c) \<and>
      \<not> le_zero a \<and>
      insert_one E ''expenses''
        (expense_document E u1 a c (arg_opt_str kw1 ''description'')) = Inl e"
    then have v: "validate E AddExpenseInput xa = Inr kw1" by simp
    from add_expense_receives [OF v, of s] h have
      "run_tool E add_expense_tool_st xa s =
         add_expense_tool E u1 a c (arg_opt_str kw1 ''description'') s"
      by auto
    with h add_expense_insert_failure [of a E u1 c "arg_opt_str kw1 ''description''" e s]
    show "run_tool E add_expense_tool_st xa s =
        (Inr (envelope ''error'' PNone
           (PText [Lit ''Failed to add expense: '', Lit (exn_str e)])), s)"
      by (simp add: failure_def)
  qed
  have 3: "validate E QueryExpenseInput qa = Inr kw2 \<longrightarrow>
      (\<exists>st d m. run_tool E query_expenses_tool_st qa s = (Inr (envelope st d m), s) \<and>
         (st = ''success'' \<or> st = ''error'' \<and> d = PNone))"
  proof
    assume "validate E QueryExpenseInput qa = Inr kw2"
    from query_expenses_receives [OF this, of s] obtain u' where
      "run_tool E query_expenses_tool_st qa s =
         query_expenses_tool E u' (arg_opt_str kw2 ''category'')
           (arg_int_default kw2 ''period_days'' 30) s"
      by blast
    with query_expenses_envelope [of E u' "arg_opt_str kw2 ''category''"
        "arg_int_default kw2 ''period_days'' 30" s]
    show "\<exists>st d m. run_tool E query_expenses_tool_st qa s = (Inr (envelope st d m), s) \<and>
         (st = ''success'' \<or> st = ''error'' \<and> d = PNone)"
      by simp
  qed
  have 4: "validate E QueryExpenseInput qa = Inr kw2 \<and> map_of kw2 ''user_id'' = Some (PStr u2) \<and>
    query_expenses_body E u2 (arg_opt_str kw2 ''category'')
      (arg_int_default kw2 ''period_days'' 30) s = Inl e \<longrightarrow>
      run_tool E query_expenses_tool_st qa s =
        (Inr (envelope ''error'' PNone
           (PText [Lit ''Failed to query expenses: '', Lit (exn_str e)])), s)"
  proof
    assume h: "validate E QueryExpenseInput qa = Inr kw2 \<and>
      map_of kw2 ''user_id'' = Some (PStr u2) \<and>
      query_expenses_body E u2 (arg_opt_str kw2 ''category'')
        (arg_int_default kw2 ''period_days'' 30) s = Inl e"
    then have v: "validate E QueryExpenseInput qa = Inr kw2" by simp
    from query_expenses_receives [OF v, of s] h have
      "run_tool E query_expenses_tool_st qa s =
         query_expenses_tool E u2 (arg_opt_str kw2 ''category'')
           (arg_int_default kw2 ''period_days'' 30) s"
      by auto
    with h show "run_tool E query_expenses_tool_st qa s =
        (Inr (envelope ''error'' PNone
           (PText [Lit ''Failed to query expenses: '', Lit (exn_str e)])), s)"
      by (simp add: query_expenses_tool_def try_except_captures failure_def)
  qed
  have 5: "validate E ExpenseSummaryInput sa = Inr kw3 \<longrightarrow>
      (\<exists>st d m. run_tool E expense_summary_tool_st sa s = (Inr (envelope st d m), s) \<and>
         (st = ''success'' \<or> st = ''error'' \<and> d = PNone))"
  proof
    assume "validate E ExpenseSummaryInput sa = Inr kw3"
    from expense_summary_receives [OF this, of s] obtain u' where
      "run_tool E expense_summary_tool_st sa s =
         expense_summary_tool E u' (arg_int_default kw3 ''period_days'' 30) s"
      by blast
    with expense_summary_envelope [of E u' "arg_int_default kw3 ''period_days'' 30" s]
    show "\<exists>st d m. run_tool E expense_summary_tool_st sa s = (Inr (envelope st d m), s) \<and>
         (st = ''success'' \<or> st = ''error'' \<and> d = PNone)"
      by simp
  qed
  have 6: "validate E ExpenseSummaryInput sa = Inr kw3 \<and>
    map_of kw3 ''user_id'' = Some (PStr u3) \<and>
    expense_summary_body E u3 (arg_int_default kw3 ''period_days'' 30) s = Inl e \<longrightarrow>
      run_tool E expense_summary_tool_st sa s =
        (Inr (envelope ''error'' PNone
           (PText [Lit ''Failed to generate expense summary: '', Lit (exn_str e)])), s)"
  proof
    assume h: "validate E ExpenseSummaryInput sa = Inr kw3 \<and>
      map_of kw3 ''user_id'' = Some (PStr u3) \<and>
      expense_summary_body E u3 (arg_int_default kw3 ''period_days'' 30) s = Inl e"
    then have v: "validate E ExpenseSummaryInput sa = Inr kw3" by simp
    from expense_summary_receives [OF v, of s] h have
      "run_tool E expense_summary_tool_st sa s =
         expense_summary_tool E u3 (arg_int_default kw3 ''period_days'' 30) s"
      by auto
    with h show "run_tool E expense_summary_tool_st sa s =
        (Inr (envelope ''error'' PNone
           (PText [Lit ''Failed to generate expense summary: '', Lit (exn_str e)])), s)"
      by (simp add: expense_summary_tool_def try_except_captures failure_def)
  qed
  have 7: "timedelta_days p = Inr delta \<and> datetime_sub (now E 0) delta = Inr start \<and>
    find_raises E ''expenses'' = Some e \<longrightarrow>
      query_expenses_body E u oc p s = Inl e \<and> expense_summary_body E u p s = Inl e"
    using find_failure_query [of p delta E start e u oc s]
      find_failure_summary [of p delta E start e u s] by simp
  have 8: "validate E (args_schema t) args = Inl ev \<longrightarrow> run_tool E t args s = (Inl ev, s)"
    by (simp add: run_tool_def)
  have 9: "insert_one E ''goals'' (goal_document E u g) = Inl e \<longrightarrow>
      add_goal_tool E u g s =
        (Inr (envelope ''error'' PNone
           (PText [Lit ''Failed to add goal: '', Lit (exn_str e)])), s)"
    using add_goal_insert_failure [of E u g e s] by (simp add: failure_def)
  have 10: "\<exists>eg. run_tool E add_goal_tool_st ga s = (Inl eg, s)"
    by (rule add_goal_never_runs)
  have 11: "validate E (args_schema get_stock_price_st) ka = Inr kw4 \<and>
    map_of kw4 ''symbol'' = Some (PStr symbol) \<and>
    requests_get E (stock_url symbol) = Inl e \<longrightarrow>
      run_tool E get_stock_price_st ka s = (Inl e, s)"
  proof
    assume h: "validate E (args_schema get_stock_price_st) ka = Inr kw4 \<and>
      map_of kw4 ''symbol'' = Some (PStr symbol) \<and>
      requests_get E (stock_url symbol) = Inl e"
    then have v: "validate E (args_schema get_stock_price_st) ka = Inr kw4" by simp
    from stock_receives [OF v, of s] h have
      "run_tool E get_stock_price_st ka s = get_stock_price E symbol s" by auto
    with h show "run_tool E get_stock_price_st ka s = (Inl e, s)"
      by (simp add: get_stock_price_def)
  qed
  have 12: "validate E (args_schema search_with_serper_st) ra = Inr kw5 \<and>
    map_of kw5 ''query'' = Some (PStr q) \<and> serper_run E q = Inl e \<longrightarrow>
      run_tool E search_with_serper_st ra s = (Inl e, s)"
  proof
    assume h: "validate E (args_schema search_with_serper_st) ra = Inr kw5 \<and>
      map_of kw5 ''query'' = Some (PStr q) \<and> serper_run E q = Inl e"
    then have v: "validate E (args_schema search_with_serper_st) ra = Inr kw5" by simp
    from serper_receives [OF v, of s] h have
      "run_tool E search_with_serper_st ra s = search_with_serper E q s" by auto
    with h show "run_tool E search_with_serper_st ra s = (Inl e, s)"
      by (simp add: search_with_serper_def)
  qed
  from 1 2 3 4 5 6 7 8 9 10 11 12 show ?thesis by (intro conjI)
qed

theorem database_tools_capture_failures_witness:
  "validate env_down AddExpenseInput (call_args expense_call) =
     Inr [(''user_id'', PStr ''u2''), (''amount'', PFloat (Finite 200)),
          (''category'', PStr ''groceries'')] \<and>
   \<not> le_zero (Finite 200) \<and>
   insert_one env_down ''expenses''
     (expense_document env_down ''u2'' (Finite 200) ''groceries'' None) = Inl connection_error \<and>
   run_tool env_down add_expense_tool_st (call_args expense_call) db0 =
     (Inr (envelope ''error'' PNone
        (PText [Lit ''Failed to add expense: '', Lit ''connection refused''])), db0) \<and>
   validate env_down QueryExpenseInput [(''user_id'', PStr ''u1'')] =
     Inr [(''user_id'', PStr ''u1'')] \<and>
   query_expenses_body env_down ''u1'' None 30 db0 = Inl connection_error \<and>
   run_tool env_down query_expenses_tool_st [(''user_id'', PStr ''u1'')] db0 =
     (Inr (envelope ''error'' PNone
        (PText [Lit ''Failed to query expenses: '', Lit ''connection refused''])), db0) \<and>
   validate env_down ExpenseSummaryInput [(''user_id'', PStr ''u1'')] =
     Inr [(''user_id'', PStr ''u1'')] \<and>
   expense_summary_body env_down ''u1'' 30 db0 = Inl connection_error \<and>
   run_tool env_down expense_summary_tool_st [(''user_id'', PStr ''u1'')] db0 =
     (Inr (envelope ''error'' PNone
        (PText [Lit ''Failed to generate expense summary: '', Lit ''connection refused''])),
      db0) \<and>
   timedelta_days 30 = Inr 2592000000000 \<and>
   datetime_sub (now env_down 0) 2592000000000 = Inr 1697408000000000 \<and>
   find_raises env_down ''expenses'' = Some connection_error \<and>
   validate env_down (args_schema add_expense_tool_st) [(''user_id'', PStr ''u1'')] =
     Inl (validation_error ''amount'') \<and>
   run_tool env_down add_expense_tool_st [(''user_id'', PStr ''u1'')] db0 =
     (Inl (validation_error ''amount''), db0) \<and>
   insert_one env_down ''goals'' (goal_document env_down ''u1'' ''save 5000'') =
     Inl connection_error \<and>
   add_goal_tool env_down ''u1'' ''save 5000'' db0 =
     (Inr (envelope ''error'' PNone
        (PText [Lit ''Failed to add goal: '', Lit ''connection refused''])), db0) \<and>
   (\<exists>eg. run_tool env_down add_goal_tool_st
           [(''user_id'', PStr ''u1''), (''goal_text'', PStr ''save 5000'')] db0 =
         (Inl eg, db0)) \<and>
   validate env_down (args_schema get_stock_price_st) (call_args stock_call) =
     Inr [(''symbol'', PStr ''AAPL'')] \<and>
   requests_get env_down (stock_url ''AAPL'') = Inl connection_error \<and>
   run_tool env_down get_stock_price_st (call_args stock_call) db0 =
     (Inl connection_error, db0) \<and>
   validate env_down (args_schema search_with_serper_st) [(''query'', PStr ''gold price'')] =
     Inr [(''query'', PStr ''gold price'')] \<and>
   serper_run env_down ''gold price'' = Inl connection_error \<and>
   run_tool env_down search_with_serper_st [(''query'', PStr ''gold price'')] db0 =
     (Inl connection_error, db0)"
proof -
  let ?kw1 = "[(''user_id'', PStr ''u2''), (''amount'', PFloat (Finite 200)),
               (''category'', PStr ''groceries'')]"
  let ?kw2 = "[(''user_id'', PStr ''u1'')]"
  have v1: "validate env_down AddExpenseInput (call_args expense_call) = Inr ?kw1"
    by (simp add: AddExpenseInput_def expense_call_def bind_def)
  have k1: "map_of ?kw1 ''user_id'' = Some (PStr ''u2'')"
    "map_of ?kw1 ''amount'' = Some (PFloat (Finite 200))"
    "map_of ?kw1 ''category'' = Some (PStr ''groceries'')"
    "arg_opt_str ?kw1 ''description'' = None"
    by (simp_all add: arg_opt_str_def)
  have a: "\<not> le_zero (Finite 200)" by simp
  have b: "insert_one env_down coll dd = Inl connection_error" for coll dd
    by (simp add: env_down_def)
  have v2: "validate env_down QueryExpenseInput ?kw2 = Inr ?kw2"
    by (simp add: QueryExpenseInput_def bind_def)
  have k2: "map_of ?kw2 ''user_id'' = Some (PStr ''u1'')"
    "arg_opt_str ?kw2 ''category'' = None" "arg_int_default ?kw2 ''period_days'' 30 = 30"
    by (simp_all add: arg_opt_str_def arg_int_default_def)
  have v3: "validate env_down ExpenseSummaryInput ?kw2 = Inr ?kw2"
    by (simp add: ExpenseSummaryInput_def bind_def)
  have c: "timedelta_days 30 = Inr 2592000000000" by (simp add: timedelta_days_def)
  have d: "datetime_sub (now env_down 0) 2592000000000 = Inr 1697408000000000"
    by (simp add: datetime_sub_def env_down_def)
  have f: "find_raises env_down ''expenses'' = Some connection_error"
    by (simp add: env_down_def)
  have q: "query_expenses_body env_down ''u1'' None 30 db0 = Inl connection_error"
    by (rule find_failure_query [OF c d f])
  have r: "expense_summary_body env_down ''u1'' 30 db0 = Inl connection_error"
    by (rule find_failure_summary [OF c d f])
  have v4: "validate env_down (args_schema add_expense_tool_st) ?kw2 =
              Inl (validation_error ''amount'')"
    by (simp add: add_expense_tool_st_def AddExpenseInput_def bind_def)
  have v5: "validate env_down (args_schema get_stock_price_st) (call_args stock_call) =
              Inr [(''symbol'', PStr ''AAPL'')]"
    by (simp add: get_stock_price_st_def stock_call_def bind_def)
  have k5: "map_of [(''symbol'', PStr ''AAPL'')] ''symbol'' = Some (PStr ''AAPL'')" by simp
  have g: "requests_get env_down (stock_url ''AAPL'') = Inl connection_error"
    by (simp add: env_down_def)
  have v6: "validate env_down (args_schema search_with_serper_st)
              [(''query'', PStr ''gold price'')] = Inr [(''query'', PStr ''gold price'')]"
    by (simp add: search_with_serper_st_def bind_def)
  have k6: "map_of [(''query'', PStr ''gold price'')] ''query'' = Some (PStr ''gold price'')"
    by simp
  have h: "serper_run env_down ''gold price'' = Inl connection_error"
    by (simp add: env_down_def)
  have e: "exn_str connection_error = ''connection refused''"
    by (simp add: connection_error_def)
  show ?thesis
    using v1 k1 a b v2 k2 v3 c d f q r v4 v5 k5 g v6 k6 h
      database_tools_capture_failures [where E = env_down and s = db0
        and xa = "call_args expense_call" and ?kw1.0 = ?kw1 and ?u1.0 = "''u2''"
        and a = "Finite 200" and c = "''groceries''" and e = connection_error
        and qa = ?kw2 and ?kw2.0 = ?kw2 and ?u2.0 = "''u1''"
        and sa = ?kw2 and ?kw3.0 = ?kw2 and ?u3.0 = "''u1''"
        and p = 30 and delta = 2592000000000 and start = 1697408000000000
        and u = "''u1''" and oc = None
        and t = add_expense_tool_st and args = ?kw2 and ev = "validation_error ''amount''"
        and g = "''save 5000''"
        and ga = "[(''user_id'', PStr ''u1''), (''goal_text'', PStr ''save 5000'')]"
        and ka = "call_args stock_call" and ?kw4.0 = "[(''symbol'', PStr ''AAPL'')]"
        and symbol = "''AAPL''"
        and ra = "[(''query'', PStr ''gold price'')]"
        and ?kw5.0 = "[(''query'', PStr ''gold price'')]" and q = "''gold price''"]
    by (simp add: e)
qed

text \<open>
  C4, as stated, fails for \<open>get_stock_price\<close>: when the request raises, the run of the
  registered tool ends in that exception and returns no envelope.
\<close>

theorem get_stock_price_raises:
  "run_tool env_down get_stock_price_st [(''symbol'', PStr ''AAPL'')] db0 =
     (Inl connection_error, db0)"
  by (simp add: run_tool_def get_stock_price_st_def get_stock_price_def env_down_def
      arg_str_def bind_def)

section \<open>The reducer and the tool node\<close>

lemma merge_message_fresh:
  "fresh_id (msg_id m) messages \<Longrightarrow> merge_message messages m = messages @ [m]"
  by (auto simp: merge_message_def fresh_id_def split: option.splits)

lemma add_messages_one: "add_messages messages [m] = merge_message messages m"
  by (simp add: add_messages_def)

lemma add_messages_no_ids:
  "\<forall>m\<in>set update. msg_id m = None \<Longrightarrow> add_messages messages update = messages @ update"
proof (induction update arbitrary: messages)
  case Nil
  then show ?case by (simp add: add_messages_def)
next
  case (Cons m update)
  have "merge_message messages m = messages @ [m]"
    using Cons.prems by (simp add: merge_message_def)
  moreover have "add_messages (messages @ [m]) update = (messages @ [m]) @ update"
    using Cons by simp
  ultimately show ?case by (simp add: add_messages_def)
qed

lemma add_messages_input:
  "add_messages messages (input_payload text) = messages @ input_payload text"
  by (rule add_messages_no_ids)
    (simp add: input_payload_def system_message_def human_message_def)

text \<open>What the run of one call returns, case by case.\<close>

lemma run_one_cases:
  assumes "run_one E ts call s = (res, s', made)"
  obtains
    (unknown) "find (\<lambda>t. tool_name t = call_name call) ts = None"
      "res = Inr (invalid_tool_message ts call)" "s' = s" "made = []"
  | (invalid) t e where "find (\<lambda>t. tool_name t = call_name call) ts = Some t"
      "run_tool E t (call_args call) s = (Inl e, s')" "exn_class e = ''ValidationError''"
      "res = Inr (invocation_error_message call e)" "made = [(tool_name t, call_args call)]"
  | (raised) t e where "find (\<lambda>t. tool_name t = call_name call) ts = Some t"
      "run_tool E t (call_args call) s = (Inl e, s')" "exn_class e \<noteq> ''ValidationError''"
      "res = Inl e" "made = [(tool_name t, call_args call)]"
  | (returned) t v where "find (\<lambda>t. tool_name t = call_name call) ts = Some t"
      "run_tool E t (call_args call) s = (Inr v, s')"
      "res = Inr (tool_message (stringify v) call ''success'')"
      "made = [(tool_name t, call_args call)]"
proof (cases "find (\<lambda>t. tool_name t = call_name call) ts")
  case None
  with assms show thesis by (intro unknown) (simp_all add: run_one_def)
next
  case (Some t)
  obtain r s1 where run: "run_tool E t (call_args call) s = (r, s1)"
    by (cases "run_tool E t (call_args call) s") auto
  show thesis
  proof (cases r)
    case (Inl e)
    show thesis
    proof (cases "exn_class e = ''ValidationError''")
      case True
      with assms Some run Inl show thesis
        by (intro invalid [of t e]) (simp_all add: run_one_def)
    next
      case False
      with assms Some run Inl show thesis
        by (intro raised [of t e]) (simp_all add: run_one_def)
    qed
  next
    case (Inr v)
    with assms Some run show thesis
      by (intro returned [of t v]) (simp_all add: run_one_def)
  qed
qed

lemma run_one_message:
  assumes "run_one E ts call s = (Inr m, s', made)"
  shows "role m = ToolMessage \<and> tool_call_id m = call_id call \<and> msg_id m = None"
  using assms
  by (cases rule: run_one_cases)
    (simp_all add: invalid_tool_message_def invocation_error_message_def tool_message_def)

lemma run_one_made:
  assumes "run_one E ts call s = (res, s', made)"
  shows "made = (if call_name call \<in> tool_name ` set ts
                 then [(call_name call, call_args call)] else [])"
proof -
  have reg: "call_name call \<in> tool_name ` set ts \<and> tool_name t = call_name call"
    if "find (\<lambda>t. tool_name t = call_name call) ts = Some t" for t
  proof -
    from that have "t \<in> set ts" and name: "tool_name t = call_name call"
      by (auto simp: find_Some_iff)
    then show ?thesis by (metis imageI)
  qed
  from assms show ?thesis
  proof (cases rule: run_one_cases)
    case unknown
    then have "call_name call \<notin> tool_name ` set ts" by (auto simp: find_None_iff)
    with unknown show ?thesis by simp
  next
    case (invalid t e)
    with reg [OF invalid(1)] show ?thesis by simp
  next
    case (raised t e)
    with reg [OF raised(1)] show ?thesis by simp
  next
    case (returned t v)
    with reg [OF returned(1)] show ?thesis by simp
  qed
qed

lemma run_calls_results:
  "run_calls E ts ics s = (results, s', invs) \<Longrightarrow>
   map fst results = map fst ics \<and>
   (\<forall>ir \<in> set results. \<exists>c sk sk' made. (fst ir, c) \<in> set ics \<and>
        run_one E ts c sk = (snd ir, sk', made))"
proof (induction ics arbitrary: s results s' invs)
  case Nil
  then show ?case by simp
next
  case (Cons ic ics)
  obtain m s1 made where one: "run_one E ts (snd ic) s = (m, s1, made)"
    by (cases "run_one E ts (snd ic) s") auto
  obtain ms s2 invs2 where rest: "run_calls E ts ics s1 = (ms, s2, invs2)"
    by (cases "run_calls E ts ics s1") auto
  from Cons.prems one rest have res: "results = (fst ic, m) # ms" by simp
  have hd: "(fst ic, snd ic) \<in> set (ic # ics)" by simp
  have fsts: "map fst results = map fst (ic # ics)"
    using Cons.IH [OF rest] res by simp
  have each: "\<exists>c sk sk' made. (fst ir, c) \<in> set (ic # ics) \<and>
        run_one E ts c sk = (snd ir, sk', made)" if "ir \<in> set results" for ir
  proof (cases "ir = (fst ic, m)")
    case True
    with one hd show ?thesis by (metis fst_conv snd_conv)
  next
    case False
    with that res have "ir \<in> set ms" by simp
    with Cons.IH [OF rest] obtain c sk sk' made' where
      "(fst ir, c) \<in> set ics" "run_one E ts c sk = (snd ir, sk', made')" by blast
    then show ?thesis by (metis list.set_intros(2))
  qed
  from fsts each show ?case by blast
qed

lemma run_calls_made:
  "run_calls E ts ics s = (results, s', invs) \<Longrightarrow>
   invs = map (\<lambda>c. (call_name c, call_args c))
            (filter (\<lambda>c. call_name c \<in> tool_name ` set ts) (map snd ics))"
proof (induction ics arbitrary: s results s' invs)
  case Nil
  then show ?case by simp
next
  case (Cons ic ics)
  obtain m s1 made where one: "run_one E ts (snd ic) s = (m, s1, made)"
    by (cases "run_one E ts (snd ic) s") auto
  obtain ms s2 invs2 where rest: "run_calls E ts ics s1 = (ms, s2, invs2)"
    by (cases "run_calls E ts ics s1") auto
  from Cons.prems one rest have "invs = made @ invs2" by simp
  with Cons.IH [OF rest] run_one_made [OF one] show ?case by simp
qed

lemma sorted_indices:
  assumes "mset (map fst rs) = mset [0..<n]"
  shows "map fst (sort_key fst rs) = [0..<n]"
proof -
  have "mset (map fst (sort_key fst rs)) = mset (map fst rs)"
    by (metis mset_map mset_sort)
  with assms have m: "mset (map fst (sort_key fst rs)) = mset [0..<n]"
    by (simp only:)
  have "distinct (map fst (sort_key fst rs))"
    using mset_eq_imp_distinct_iff [OF m] by simp
  moreover have "set (map fst (sort_key fst rs)) = set [0..<n]"
    using m by (rule mset_eq_setD)
  moreover have "sorted (map fst (sort_key fst rs))" by (rule sorted_sort_key)
  ultimately show ?thesis
    by (intro sorted_distinct_set_unique) simp_all
qed

lemma completion_order_indices:
  "mset (map fst (completion_order G calls)) = mset [0..<length calls]"
proof -
  have "mset (completion_order G calls) = mset (zip [0..<length calls] calls)"
    by (simp add: completion_order_def)
  then have "mset (map fst (completion_order G calls)) =
             mset (map fst (zip [0..<length calls] calls))"
    by (metis mset_map)
  then show ?thesis by simp
qed

lemma completion_order_set:
  "(i, c) \<in> set (completion_order G calls) \<Longrightarrow> i < length calls \<and> c = calls ! i"
  by (auto simp: completion_order_def set_zip)

lemma completion_order_calls: "mset (map snd (completion_order G calls)) = mset calls"
proof -
  have "mset (completion_order G calls) = mset (zip [0..<length calls] calls)"
    by (simp add: completion_order_def)
  then have "mset (map snd (completion_order G calls)) =
             mset (map snd (zip [0..<length calls] calls))"
    by (metis mset_map)
  then show ?thesis by simp
qed

text \<open>
  The results that the tool node reads, in the order of the request: the \<open>k\<close>-th is what
  the run of the \<open>k\<close>-th call returned or raised, on the database as it was when that
  call ran.
\<close>

lemma tool_node_reads:
  assumes "messages \<noteq> []" and "role (last messages) = AIMessage"
  shows "\<exists>rs s' invs. tool_node G messages s = (collect rs, s', invs) \<and>
           length rs = length (tool_calls (last messages)) \<and>
           (\<forall>k < length rs. \<exists>sk sk' made.
              run_one (tool_env G) tools (tool_calls (last messages) ! k) sk =
                (rs ! k, sk', made)) \<and>
           mset invs =
             mset (map (\<lambda>c. (call_name c, call_args c))
                    (filter (\<lambda>c. call_name c \<in> tool_name ` set tools)
                       (tool_calls (last messages))))"
proof -
  define calls where "calls = tool_calls (last messages)"
  let ?P = "\<lambda>c. call_name c \<in> tool_name ` set tools"
  let ?f = "\<lambda>c. (call_name c, call_args c)"
  obtain results s' invs where run:
    "run_calls (tool_env G) tools (completion_order G calls) s = (results, s', invs)"
    by (cases "run_calls (tool_env G) tools (completion_order G calls) s") auto
  define rs where "rs = map snd (sort_key fst results)"
  have node: "tool_node G messages s = (collect rs, s', invs)"
    using assms run by (simp add: tool_node_def calls_def rs_def)
  from run_calls_results [OF run] have
    fsts: "map fst results = map fst (completion_order G calls)" and
    each: "\<forall>ir \<in> set results. \<exists>c sk sk' made. (fst ir, c) \<in> set (completion_order G calls) \<and>
             run_one (tool_env G) tools c sk = (snd ir, sk', made)"
    by auto
  have idx: "map fst (sort_key fst results) = [0..<length calls]"
    using sorted_indices [of results "length calls"] fsts completion_order_indices [of G calls]
    by simp
  then have len: "length (sort_key fst results) = length calls"
    by (metis length_map length_upt minus_nat.diff_0)
  have len': "length rs = length calls" using len by (simp add: rs_def)
  have at: "\<exists>sk sk' made. run_one (tool_env G) tools (calls ! k) sk = (rs ! k, sk', made)"
    if k: "k < length rs" for k
  proof -
    let ?ir = "sort_key fst results ! k"
    from k len' have k': "k < length calls" by simp
    have "?ir \<in> set (sort_key fst results)" using k' len by (intro nth_mem) simp
    then have mem: "?ir \<in> set results" by (simp only: set_sort)
    have "fst ?ir = map fst (sort_key fst results) ! k" using k' len by simp
    then have fk: "fst ?ir = k" using idx k' by simp
    from each mem obtain c sk sk' made where
      c: "(fst ?ir, c) \<in> set (completion_order G calls)"
         "run_one (tool_env G) tools c sk = (snd ?ir, sk', made)"
      by blast
    from completion_order_set [OF c(1)] fk have "c = calls ! k" by simp
    moreover have "rs ! k = snd ?ir" using k' len by (simp add: rs_def)
    ultimately show ?thesis using c(2) by auto
  qed
  from run_calls_made [OF run] have eq:
    "invs = map ?f (filter ?P (map snd (completion_order G calls)))"
    by (simp only:)
  have "mset (filter ?P (map snd (completion_order G calls))) =
        filter_mset ?P (mset (map snd (completion_order G calls)))"
    by (simp only: mset_filter)
  also have "\<dots> = filter_mset ?P (mset calls)"
    by (simp only: completion_order_calls)
  also have "\<dots> = mset (filter ?P calls)"
    by (simp only: mset_filter)
  finally have "mset (map ?f (filter ?P (map snd (completion_order G calls)))) =
                mset (map ?f (filter ?P calls))"
    by (simp only: mset_map)
  with eq have inv: "mset invs = mset (map ?f (filter ?P calls))" by (simp only:)
  from node len' at inv show ?thesis unfolding calls_def by blast
qed

lemma collect_Inr: "collect rs = Inr ms \<Longrightarrow> rs = map Inr ms"
proof (induction rs arbitrary: ms)
  case Nil
  then show ?case by simp
next
  case (Cons r rs)
  then show ?case by (cases r) (auto split: sum.splits)
qed



lemma tool_node_messages:
  assumes "tool_node G messages s = (Inr outs, s', invs)"
  shows "\<forall>m\<in>set outs. role m = ToolMessage \<and> msg_id m = None"
proof (cases "messages = [] \<or> role (last messages) \<noteq> AIMessage")
  case True
  then have "fst (tool_node G messages s) =
             Inl (Exn ''ValueError'' ''Last message is not an AIMessage'')"
    unfolding tool_node_def by (simp only: if_True fst_conv)
  with assms show ?thesis by (simp only: fst_conv sum.distinct)
next
  case False
  then have m: "messages \<noteq> []" "role (last messages) = AIMessage" by auto
  from tool_node_reads [OF m, of G s] obtain rs s1 invs1 where
    node: "tool_node G messages s = (collect rs, s1, invs1)" and
    at: "\<forall>k < length rs. \<exists>sk sk' made.
           run_one (tool_env G) tools (tool_calls (last messages) ! k) sk = (rs ! k, sk', made)"
    by blast
  from node assms have "collect rs = Inr outs" by simp
  then have rs: "rs = map Inr outs" by (rule collect_Inr)
  show ?thesis
  proof
    fix m assume "m \<in> set outs"
    then obtain k where k: "k < length outs" "m = outs ! k" by (auto simp: in_set_conv_nth)
    with at rs obtain sk sk' made where
      "run_one (tool_env G) tools (tool_calls (last messages) ! k) sk = (Inr m, sk', made)"
      by auto
    from run_one_message [OF this] show "role m = ToolMessage \<and> msg_id m = None" by simp
  qed
qed

section \<open>One super-step\<close>

lemma tools_condition_snoc:
  "tools_condition (messages @ [ai_message resp]) =
     Inr (if resp_tool_calls resp \<noteq> [] then Some Tools else None)"
  by (simp add: tools_condition_def ai_message_def)

lemma superstep_chat_answer:
  assumes "llm G messages = (chunks, Inr resp)" and "fresh_id (resp_id resp) messages"
  shows "superstep G ChatNode messages s =
           (chat_events chunks resp,
            Inr (messages @ [ai_message resp],
                 if resp_tool_calls resp \<noteq> [] then Some Tools else None), s, [])"
proof -
  have "fresh_id (msg_id (ai_message resp)) messages"
    using assms(2) by (simp add: ai_message_def)
  then have "add_messages messages [ai_message resp] = messages @ [ai_message resp]"
    by (simp add: add_messages_one merge_message_fresh)
  moreover have "content (ai_message resp) = Str (resp_content resp)"
    by (simp add: ai_message_def)
  ultimately show ?thesis
    using assms(1)
    by (simp add: superstep_def chat_node_def tools_condition_snoc chat_events_def Let_def)
qed

lemma superstep_chat_failure:
  assumes "llm G messages = (chunks, Inl e)"
  shows "superstep G ChatNode messages s =
           (map (\<lambda>c. \<lparr>ev_content = Str c, ev_node = ChatNode\<rparr>) chunks, Inl e, s, [])"
  using assms by (simp add: superstep_def chat_node_def)



text \<open>The graph alternates: after \<open>chat_node\<close> come the tools or the end, after the tools \<open>chat_node\<close>.\<close>

lemma superstep_next:
  assumes "superstep G nd messages s = (evs, Inr (messages', Some nd'), s', invs)"
  shows "nd' = (if nd = ChatNode then Tools else ChatNode)"
  using assms
  by (cases nd)
    (auto simp: superstep_def tools_condition_def Let_def split: prod.splits sum.splits if_splits)

section \<open>A turn without tool calls\<close>

lemma load_update: "load (cp(key \<mapsto> ms)) key = ms"
  by (simp add: load_def)

lemma turn_without_tools:
  assumes "llm G (load cp (config_key sid) @ input_payload text) = (chunks, Inr resp)"
    and "resp_tool_calls resp = []"
    and "fresh_id (resp_id resp) (load cp (config_key sid) @ input_payload text)"
  shows "agent_stream G (input_payload text) (config_key sid) cp s =
           \<lparr>events = chat_events chunks resp,
            raised = (if more_steps G = 0 then Some (graph_recursion_error G) else None),
            saved = load cp (config_key sid) @ input_payload text @ [ai_message resp],
            world = s, supersteps = 1, invoked = []\<rparr>"
  using superstep_chat_answer [OF assms(1) assms(3), of s] assms(2)
  by (simp add: agent_stream_def add_messages_input recursion_limit_def stopped_def
      after_step_def)

text \<open>
  C2. A turn appends three messages when the model asks for no tool, not two: the input of
  every turn is the system prompt and the user's message, both without id, and the
  model's answer follows. This holds when the answer's id is new to the state; the
  persisted state is then the state before the turn followed by these three.
\<close>

theorem turn_without_tools_persists_three:
  assumes "llm G (load cp (config_key sid) @ input_payload text) = (chunks, Inr resp)"
    and "resp_tool_calls resp = []"
    and "fresh_id (resp_id resp) (load cp (config_key sid) @ input_payload text)"
  shows "load (checkpoints (process_input_stream G text sid cp s)) (config_key sid) =
           load cp (config_key sid) @
           [system_message system_prompt, human_message text, ai_message resp] \<and>
         length (load (checkpoints (process_input_stream G text sid cp s)) (config_key sid)) =
           length (load cp (config_key sid)) + 3"
  using turn_without_tools [OF assms, of s]
  by (simp add: process_input_stream_def load_update input_payload_def Let_def)

theorem turn_without_tools_persists_three_witness:
  "llm G_plain (load cp0 (config_key ''u1'') @ input_payload ''hello'') =
     ([''Hello!'', '' How can I help you?''], Inr greeting) \<and>
   resp_tool_calls greeting = [] \<and>
   fresh_id (resp_id greeting) (load cp0 (config_key ''u1'') @ input_payload ''hello'') \<and>
   load (checkpoints (process_input_stream G_plain ''hello'' ''u1'' cp0 db0))
     (config_key ''u1'') =
     [system_message system_prompt, human_message ''hello'', ai_message greeting]"
proof -
  have a: "llm G_plain (load cp0 (config_key ''u1'') @ input_payload ''hello'') =
     ([''Hello!'', '' How can I help you?''], Inr greeting)"
    by (simp add: G_plain_def)
  have b: "resp_tool_calls greeting = []" by (simp add: greeting_def)
  have c: "fresh_id (resp_id greeting) (load cp0 (config_key ''u1'') @ input_payload ''hello'')"
    by (simp add: fresh_id_def greeting_def load_def cp0_def input_payload_def
        system_message_def human_message_def)
  have d: "load cp0 (config_key ''u1'') = []" by (simp add: load_def cp0_def)
  show ?thesis
    using a b c turn_without_tools_persists_three [OF a b c, of db0] by (simp add: d)
qed

text \<open>
  C2, as stated, fails on the first turn of a session: the model greets and asks for no
  tool, the state before the turn is empty, and three messages are persisted, not two.
\<close>

theorem greeting_turn_persists_three:
  "resp_tool_calls greeting = [] \<and>
   length (load cp0 (config_key ''u1'')) = 0 \<and>
   length (load (checkpoints (process_input_stream G_plain ''hello'' ''u1'' cp0 db0))
             (config_key ''u1'')) = 3 \<and>
   length (load (checkpoints (process_input_stream G_plain ''hello'' ''u1'' cp0 db0))
             (config_key ''u1'')) \<noteq> length (load cp0 (config_key ''u1'')) + 2"
proof -
  have a: "llm G_plain (load cp0 (config_key ''u1'') @ input_payload ''hello'') =
     ([''Hello!'', '' How can I help you?''], Inr greeting)"
    by (simp add: G_plain_def)
  have b: "resp_tool_calls greeting = []" by (simp add: greeting_def)
  have c: "fresh_id (resp_id greeting) (load cp0 (config_key ''u1'') @ input_payload ''hello'')"
    by (simp add: fresh_id_def greeting_def load_def cp0_def input_payload_def
        system_message_def human_message_def)
  have d: "load cp0 (config_key ''u1'') = []" by (simp add: load_def cp0_def)
  show ?thesis
    using b turn_without_tools [OF a b c, of db0]
    by (simp add: d process_input_stream_def load_update input_payload_def Let_def)
qed

section \<open>The loop\<close>

text \<open>The ways on from a super-step with budget left.\<close>

lemma pregel_loop_Suc_cases:
  obtains
    (fail) evs e s' invs where
      "superstep G nd messages s = (evs, Inl e, s', invs)"
      "pregel_loop G (Suc n) nd messages s =
         (stopped (Some e) messages s')\<lparr>events := evs, invoked := invs\<rparr>"
  | (stop) evs messages' nxt s' invs e where
      "superstep G nd messages s = (evs, Inr (messages', nxt), s', invs)"
      "pregel_loop G (Suc n) nd messages s = after_step evs invs (stopped e messages' s')"
  | (continue) evs messages' nd' s' invs where
      "superstep G nd messages s = (evs, Inr (messages', Some nd'), s', invs)"
      "pregel_loop G (Suc n) nd messages s =
         after_step evs invs (pregel_loop G n nd' messages' s')"
proof -
  obtain evs res s' invs where st: "superstep G nd messages s = (evs, res, s', invs)"
    by (cases "superstep G nd messages s") auto
  show thesis
  proof (cases res)
    case (Inl e)
    with st show thesis by (intro fail [of evs e s' invs]) simp_all
  next
    case (Inr mn)
    obtain messages' nxt where mn: "mn = (messages', nxt)" by (cases mn) auto
    show thesis
    proof (cases "n = 0")
      case True
      with st Inr mn show thesis
        by (intro stop [of evs messages' nxt s' invs "Some (graph_recursion_error G)"])
          simp_all
    next
      case False
      show thesis
      proof (cases nxt)
        case None
        with st Inr mn False show thesis
          by (intro stop [of evs messages' nxt s' invs None]) simp_all
      next
        case (Some nd')
        with st Inr mn False show thesis
          by (intro continue [of evs messages' nd' s' invs]) simp_all
      qed
    qed
  qed
qed

lemma superstep_cases:
  obtains
    (raises) evs e s' invs where "superstep G nd messages s = (evs, Inl e, s', invs)"
  | (ends) evs messages' s' invs where
      "superstep G nd messages s = (evs, Inr (messages', None), s', invs)"
  | (goes_on) evs messages' nd' s' invs where
      "superstep G nd messages s = (evs, Inr (messages', Some nd'), s', invs)"
proof -
  obtain evs res s' invs where st: "superstep G nd messages s = (evs, res, s', invs)"
    by (cases "superstep G nd messages s") auto
  show thesis
  proof (cases res)
    case (Inl e)
    with st show thesis by (intro raises [of evs e s' invs]) simp
  next
    case (Inr mn)
    obtain messages' nxt where mn: "mn = (messages', nxt)" by (cases mn) auto
    show thesis
    proof (cases nxt)
      case None
      with st Inr mn show thesis by (intro ends [of evs messages' s' invs]) simp
    next
      case (Some nd')
      with st Inr mn show thesis by (intro goes_on [of evs messages' nd' s' invs]) simp
    qed
  qed
qed

lemma step_goes_on:
  "superstep G nd messages s = (evs, Inr (messages', Some nd'), s', invs) \<Longrightarrow>
   pregel_loop G (Suc n) nd messages s =
     after_step evs invs (pregel_loop G n nd' messages' s')"
  by (cases n) simp_all

lemma after_steps_0: "after_steps 0 [] [] r = r"
  by (simp add: after_steps_def)

lemma after_step_after_steps:
  "after_step evs invs (after_steps k evs' invs' r) =
   after_steps (Suc k) (evs @ evs') (invs @ invs') r"
  by (simp add: after_step_def after_steps_def)

text \<open>
  The loop and the graph: a run with budget for the first \<open>k\<close> super-steps of the graph
  makes them and goes on, from where they lead, with what is left of the budget.
\<close>

lemma loop_advance:
  "advance G k nd messages s = Some (evs, invs, nd', messages', s') \<Longrightarrow>
   pregel_loop G (k + n) nd messages s =
     after_steps k evs invs (pregel_loop G n nd' messages' s')"
proof (induction k arbitrary: nd messages s evs invs)
  case 0
  then show ?case by (simp add: after_steps_0)
next
  case (Suc k)
  show ?case
  proof (cases rule: superstep_cases [of G nd messages s])
    case (raises evs1 e s1 invs1)
    with Suc.prems show ?thesis by simp
  next
    case (ends evs1 m1 s1 invs1)
    with Suc.prems show ?thesis by simp
  next
    case (goes_on evs1 m1 nd1 s1 invs1)
    from Suc.prems goes_on obtain evs2 invs2 where
      adv: "advance G k nd1 m1 s1 = Some (evs2, invs2, nd', messages', s')" and
      eq: "evs = evs1 @ evs2" "invs = invs1 @ invs2"
      by (auto split: option.splits)
    have "pregel_loop G (Suc k + n) nd messages s =
            after_step evs1 invs1 (pregel_loop G (k + n) nd1 m1 s1)"
      using step_goes_on [OF goes_on, of "k + n"] by simp
    also have "\<dots> = after_step evs1 invs1
                       (after_steps k evs2 invs2 (pregel_loop G n nd' messages' s'))"
      by (simp only: Suc.IH [OF adv])
    finally show ?thesis by (simp only: after_step_after_steps eq)
  qed
qed

text \<open>
  How far the graph gets within a budget: through some number \<open>k\<close> of super-steps, after
  which the budget is used up or the next super-step raises or ends the graph.
\<close>

lemma loop_last:
  "\<exists>k evs invs nd' messages' s'. k \<le> n \<and>
     advance G k nd messages s = Some (evs, invs, nd', messages', s') \<and>
     (k = n \<or>
      (\<exists>evs' e s'' invs'. superstep G nd' messages' s' = (evs', Inl e, s'', invs')) \<or>
      (\<exists>evs' messages'' s'' invs'.
         superstep G nd' messages' s' = (evs', Inr (messages'', None), s'', invs')))"
proof (induction n arbitrary: nd messages s)
  case 0
  show ?case by simp
next
  case (Suc n)
  show ?case
  proof (cases rule: superstep_cases [of G nd messages s])
    case (raises evs1 e s1 invs1)
    have "advance G 0 nd messages s = Some ([], [], nd, messages, s)" by simp
    with raises show ?thesis by (metis le0)
  next
    case (ends evs1 m1 s1 invs1)
    have "advance G 0 nd messages s = Some ([], [], nd, messages, s)" by simp
    with ends show ?thesis by (metis le0)
  next
    case (goes_on evs1 m1 nd1 s1 invs1)
    from Suc.IH [of nd1 m1 s1] obtain k evs invs nd' messages' s' where
      k: "k \<le> n" and
      adv: "advance G k nd1 m1 s1 = Some (evs, invs, nd', messages', s')" and
      last: "k = n \<or>
        (\<exists>evs' e s'' invs'. superstep G nd' messages' s' = (evs', Inl e, s'', invs')) \<or>
        (\<exists>evs' messages'' s'' invs'.
           superstep G nd' messages' s' = (evs', Inr (messages'', None), s'', invs'))"
      by blast
    have adv': "advance G (Suc k) nd messages s =
                  Some (evs1 @ evs, invs1 @ invs, nd', messages', s')"
      using goes_on adv by simp
    from last have last': "Suc k = Suc n \<or>
        (\<exists>evs' e s'' invs'. superstep G nd' messages' s' = (evs', Inl e, s'', invs')) \<or>
        (\<exists>evs' messages'' s'' invs'.
           superstep G nd' messages' s' = (evs', Inr (messages'', None), s'', invs'))"
      by simp
    from k have "Suc k \<le> Suc n" by simp
    with adv' last' show ?thesis by blast
  qed
qed

lemma advance_node:
  "advance G k nd messages s = Some (evs, invs, nd', messages', s') \<Longrightarrow>
   nd' = (if even k then nd else if nd = ChatNode then Tools else ChatNode)"
proof (induction k arbitrary: nd messages s evs invs)
  case 0
  then show ?case by simp
next
  case (Suc k)
  from Suc.prems obtain evs1 m1 nd1 s1 invs1 evs2 invs2 where
    st: "superstep G nd messages s = (evs1, Inr (m1, Some nd1), s1, invs1)" and
    adv: "advance G k nd1 m1 s1 = Some (evs2, invs2, nd', messages', s')"
    by (auto split: prod.splits sum.splits option.splits)
  from superstep_next [OF st] Suc.IH [OF adv] show ?case
    by (cases nd) (auto split: if_splits)
qed

lemma advance_prefix:
  "advance G k nd messages s = Some (evs, invs, nd', messages', s') \<Longrightarrow> j \<le> k \<Longrightarrow>
   \<exists>evs1 invs1 nd1 messages1 s1.
     advance G j nd messages s = Some (evs1, invs1, nd1, messages1, s1)"
proof (induction k arbitrary: j nd messages s evs invs)
  case 0
  then show ?case by simp
next
  case (Suc k)
  show ?case
  proof (cases j)
    case 0
    then show ?thesis by simp
  next
    case (Suc j')
    from Suc.prems(1) obtain evs1 m1 nd1 s1 invs1 evs2 invs2 where
      st: "superstep G nd messages s = (evs1, Inr (m1, Some nd1), s1, invs1)" and
      adv: "advance G k nd1 m1 s1 = Some (evs2, invs2, nd', messages', s')"
      by (auto split: prod.splits sum.splits option.splits)
    from Suc.prems(2) Suc have "j' \<le> k" by simp
    from Suc.IH [OF adv this] obtain evs3 invs3 nd3 m3 s3 where
      "advance G j' nd1 m1 s1 = Some (evs3, invs3, nd3, m3, s3)" by blast
    with st Suc show ?thesis by simp
  qed
qed

text \<open>
  From \<open>chat_node\<close> the super-steps of the graph are a call of the model and a tool
  step in turn: the step after \<open>j\<close> steps is a call of the model when \<open>j\<close> is even.
\<close>

lemma advance_alternates:
  assumes "advance G k ChatNode messages s = Some (evs, invs, nd', messages', s')"
    and "j \<le> k"
  shows "\<exists>evs1 invs1 messages1 s1.
           advance G j ChatNode messages s =
             Some (evs1, invs1, if even j then ChatNode else Tools, messages1, s1)"
proof -
  from advance_prefix [OF assms] obtain evs1 invs1 nd1 messages1 s1 where
    a: "advance G j ChatNode messages s = Some (evs1, invs1, nd1, messages1, s1)" by blast
  from advance_node [OF a] have "nd1 = (if even j then ChatNode else Tools)" by simp
  with a show ?thesis by blast
qed

section \<open>What a super-step emits and keeps\<close>

lemma replace_first_keeps:
  "x \<in> set xs \<Longrightarrow> msg_id x = None \<Longrightarrow> x \<in> set (replace_first i m xs)"
  by (induction xs) auto

lemma replace_first_subset: "set (replace_first i m xs) \<subseteq> insert m (set xs)"
  by (induction xs) auto

lemma merge_message_keeps:
  "x \<in> set merged \<Longrightarrow> msg_id x = None \<Longrightarrow> x \<in> set (merge_message merged m)"
  using replace_first_keeps [of x "rev merged"]
  by (auto simp: merge_message_def split: option.splits)

lemma merge_message_subset: "set (merge_message merged m) \<subseteq> insert m (set merged)"
  using replace_first_subset [of _ m "rev merged"]
  by (auto simp: merge_message_def split: option.splits)

lemma add_messages_keeps:
  "x \<in> set left \<Longrightarrow> msg_id x = None \<Longrightarrow> x \<in> set (add_messages left right)"
  unfolding add_messages_def
  by (induction right arbitrary: left) (simp_all add: merge_message_keeps)

lemma add_messages_subset: "set (add_messages left right) \<subseteq> set left \<union> set right"
  unfolding add_messages_def
proof (induction right arbitrary: left)
  case Nil
  show ?case by simp
next
  case (Cons m right)
  have "set (foldl merge_message (merge_message left m) right) \<subseteq>
        set (merge_message left m) \<union> set right"
    by (rule Cons.IH)
  with merge_message_subset [of left m] show ?case by auto
qed

lemma chat_node_from_model:
  assumes "chat_node G messages = (chunks, res)"
  shows "\<forall>c\<in>set chunks. from_model G (Str c)"
    and "res = Inr update \<Longrightarrow> \<forall>m\<in>set update. from_model G (content m) \<and> role m = AIMessage"
proof -
  obtain ch r where l: "llm G messages = (ch, r)" by (cases "llm G messages") auto
  with assms have c: "chunks = ch" by (cases r) (simp_all add: chat_node_def)
  show "\<forall>c\<in>set chunks. from_model G (Str c)"
  proof
    fix x assume "x \<in> set chunks"
    then have "Str x \<in> Str ` set (fst (llm G messages))" using l c by simp
    then show "from_model G (Str x)" unfolding from_model_def by blast
  qed
  show "\<forall>m\<in>set update. from_model G (content m) \<and> role m = AIMessage" if "res = Inr update"
  proof -
    from that assms l obtain resp where r: "r = Inr resp" and u: "update = [ai_message resp]"
      by (cases r) (auto simp: chat_node_def)
    have "from_model G (Str (resp_content resp))"
      unfolding from_model_def using l r by (metis snd_conv)
    then show ?thesis using u by (simp add: ai_message_def)
  qed
qed

lemma step_fail:
  assumes "superstep G nd messages s = (evs, Inl e, s', invs)"
  shows "\<forall>ev\<in>set evs. ev_node ev = ChatNode \<and> from_model G (ev_content ev)"
proof (cases nd)
  case ChatNode
  obtain chunks res where c: "chat_node G messages = (chunks, res)"
    by (cases "chat_node G messages") auto
  show ?thesis
  proof (cases res)
    case (Inl e')
    with assms ChatNode c have "evs = map (\<lambda>c. \<lparr>ev_content = Str c, ev_node = ChatNode\<rparr>) chunks"
      by (simp add: superstep_def)
    with chat_node_from_model(1) [OF c] show ?thesis by auto
  next
    case (Inr update)
    with assms ChatNode c have
      "evs = map (\<lambda>c. \<lparr>ev_content = c, ev_node = ChatNode\<rparr>)
               (if chunks = [] then map content update else map Str chunks)"
      by (auto simp: superstep_def Let_def split: sum.splits)
    with chat_node_from_model(1) [OF c] chat_node_from_model(2) [OF c Inr] show ?thesis
      by (auto split: if_splits)
  qed
next
  case Tools
  with assms show ?thesis
    by (auto simp: superstep_def split: prod.splits sum.splits)
qed

lemma step_ok:
  assumes "superstep G nd messages s = (evs, Inr (messages', nxt), s', invs)"
  shows "\<forall>ev\<in>set evs. origin_ok G messages' ev"
    and "\<forall>m\<in>set messages. msg_id m = None \<longrightarrow> m \<in> set messages'"
    and "\<forall>m\<in>set messages'. m \<in> set messages \<or> role m = AIMessage \<or>
           \<lparr>ev_content = content m, ev_node = Tools\<rparr> \<in> set evs"
proof -
  have "(\<forall>ev\<in>set evs. origin_ok G messages' ev) \<and>
        (\<forall>m\<in>set messages. msg_id m = None \<longrightarrow> m \<in> set messages') \<and>
        (\<forall>m\<in>set messages'. m \<in> set messages \<or> role m = AIMessage \<or>
           \<lparr>ev_content = content m, ev_node = Tools\<rparr> \<in> set evs)"
  proof (cases nd)
    case ChatNode
    obtain chunks res where c: "chat_node G messages = (chunks, res)"
      by (cases "chat_node G messages") auto
    from assms ChatNode c obtain update where res: "res = Inr update"
      by (cases res) (auto simp: superstep_def)
    from assms ChatNode c res have
      evs: "evs = map (\<lambda>c. \<lparr>ev_content = c, ev_node = ChatNode\<rparr>)
               (if chunks = [] then map content update else map Str chunks)" and
      m': "messages' = add_messages messages update"
      by (auto simp: superstep_def Let_def split: sum.splits)
    have 1: "\<forall>ev\<in>set evs. origin_ok G messages' ev"
      using evs chat_node_from_model(1) [OF c] chat_node_from_model(2) [OF c res]
      by (auto simp: origin_ok_def split: if_splits)
    have 2: "\<forall>m\<in>set messages. msg_id m = None \<longrightarrow> m \<in> set messages'"
      using m' add_messages_keeps by blast
    have 3: "\<forall>m\<in>set messages'. m \<in> set messages \<or> role m = AIMessage \<or>
           \<lparr>ev_content = content m, ev_node = Tools\<rparr> \<in> set evs"
      using m' add_messages_subset [of messages update] chat_node_from_model(2) [OF c res]
      by blast
    from 1 2 3 show ?thesis by blast
  next
    case Tools
    obtain res s1 invs1 where t: "tool_node G messages s = (res, s1, invs1)"
      by (cases "tool_node G messages s") auto
    from assms Tools t obtain outs where res: "res = Inr outs"
      by (cases res) (auto simp: superstep_def)
    from assms Tools t res have
      evs: "evs = map (\<lambda>m. \<lparr>ev_content = content m, ev_node = Tools\<rparr>) outs" and
      m': "messages' = add_messages messages outs"
      by (auto simp: superstep_def)
    from tool_node_messages [of G messages s outs s1 invs1] t res have
      outs: "\<forall>m\<in>set outs. role m = ToolMessage \<and> msg_id m = None" by simp
    then have app: "messages' = messages @ outs"
      using m' by (simp add: add_messages_no_ids)
    have 1: "\<forall>ev\<in>set evs. origin_ok G messages' ev"
      using evs outs app by (auto simp: origin_ok_def)
    have 2: "\<forall>m\<in>set messages. msg_id m = None \<longrightarrow> m \<in> set messages'"
      using app by simp
    have 3: "\<forall>m\<in>set messages'. m \<in> set messages \<or> role m = AIMessage \<or>
           \<lparr>ev_content = content m, ev_node = Tools\<rparr> \<in> set evs"
      using app evs by auto
    from 1 2 3 show ?thesis by blast
  qed
  then show "\<forall>ev\<in>set evs. origin_ok G messages' ev"
    and "\<forall>m\<in>set messages. msg_id m = None \<longrightarrow> m \<in> set messages'"
    and "\<forall>m\<in>set messages'. m \<in> set messages \<or> role m = AIMessage \<or>
           \<lparr>ev_content = content m, ev_node = Tools\<rparr> \<in> set evs"
    by blast+
qed

lemma advance_keeps:
  "advance G k nd messages s = Some (evs, invs, nd', messages', s') \<Longrightarrow>
   m \<in> set messages \<Longrightarrow> msg_id m = None \<Longrightarrow> m \<in> set messages'"
proof (induction k arbitrary: nd messages s evs invs)
  case 0
  then show ?case by simp
next
  case (Suc k)
  from Suc.prems(1) obtain evs1 m1 nd1 s1 invs1 evs2 invs2 where
    st: "superstep G nd messages s = (evs1, Inr (m1, Some nd1), s1, invs1)" and
    adv: "advance G k nd1 m1 s1 = Some (evs2, invs2, nd', messages', s')"
    by (auto split: prod.splits sum.splits option.splits)
  from step_ok(2) [OF st] Suc.prems have "m \<in> set m1" by simp
  from Suc.IH [OF adv this Suc.prems(3)] show ?case .
qed

section \<open>A turn in which the model fails\<close>

lemma model_failure_stops:
  assumes "llm G messages = (chunks, Inl e)"
  shows "pregel_loop G (Suc n) ChatNode messages s =
           \<lparr>events = map (\<lambda>c. \<lparr>ev_content = Str c, ev_node = ChatNode\<rparr>) chunks,
            raised = Some e, saved = messages, world = s, supersteps = 0, invoked = []\<rparr>"
  using superstep_chat_failure [OF assms, of s] by (simp add: stopped_def)

text \<open>
  C7. A turn in which a call of the model raises, the first or a later one: the graph
  has made \<open>k\<close> super-steps from the input of the turn, fewer than the recursion limit,
  and stands at \<open>chat_node\<close>, where the call of the model streams some chunks and
  raises. The run ends there. The caller gets the fragments of the \<open>k\<close> steps, the
  chunks of the failed call and then the one error fragment of the \<open>except\<close> clause.
  No assistant message is added for the failed call: the checkpoint is the state the
  model was called on, and the database is as the \<open>k\<close> steps left it. That checkpoint
  is not the one from before the turn. It holds the input of the turn, the system prompt
  and the user's message; when the first call fails, it is the state before the turn
  followed by these two.
\<close>

theorem model_failure_one_error_fragment:
  assumes "advance G k ChatNode (load cp (config_key sid) @ input_payload text) s =
             Some (evs, invs, ChatNode, messages, s')"
    and "k < recursion_limit G"
    and "llm G messages = (chunks, Inl e)"
  shows "process_input_stream G text sid cp s =
           \<lparr>fragments = filter truthy (map ev_content evs) @ filter truthy (map Str chunks) @
                        [error_fragment e],
            checkpoints = cp(config_key sid \<mapsto> messages),
            database = s'\<rparr> \<and>
         agent_stream G (input_payload text) (config_key sid) cp s =
           \<lparr>events = evs @ map (\<lambda>c. \<lparr>ev_content = Str c, ev_node = ChatNode\<rparr>) chunks,
            raised = Some e, saved = messages, world = s', supersteps = k, invoked = invs\<rparr> \<and>
         system_message system_prompt \<in> set messages \<and>
         human_message text \<in> set messages \<and>
         (k = 0 \<longrightarrow> messages = load cp (config_key sid) @ input_payload text)"
proof -
  let ?m0 = "load cp (config_key sid) @ input_payload text"
  from assms(2) have "\<exists>n. recursion_limit G = k + Suc n" by presburger
  then obtain n where n: "recursion_limit G = k + Suc n" by blast
  have "agent_stream G (input_payload text) (config_key sid) cp s =
          pregel_loop G (k + Suc n) ChatNode ?m0 s"
    by (simp only: agent_stream_def add_messages_input n)
  also have "\<dots> = after_steps k evs invs (pregel_loop G (Suc n) ChatNode messages s')"
    by (rule loop_advance [OF assms(1)])
  also have "pregel_loop G (Suc n) ChatNode messages s' =
           \<lparr>events = map (\<lambda>c. \<lparr>ev_content = Str c, ev_node = ChatNode\<rparr>) chunks,
            raised = Some e, saved = messages, world = s', supersteps = 0, invoked = []\<rparr>"
    by (rule model_failure_stops [OF assms(3)])
  finally have r: "agent_stream G (input_payload text) (config_key sid) cp s =
           \<lparr>events = evs @ map (\<lambda>c. \<lparr>ev_content = Str c, ev_node = ChatNode\<rparr>) chunks,
            raised = Some e, saved = messages, world = s', supersteps = k, invoked = invs\<rparr>"
    by (simp add: after_steps_def)
  have t: "process_input_stream G text sid cp s =
           \<lparr>fragments = filter truthy (map ev_content evs) @ filter truthy (map Str chunks) @
                        [error_fragment e],
            checkpoints = cp(config_key sid \<mapsto> messages),
            database = s'\<rparr>"
    by (simp add: process_input_stream_def r yielded_def comp_def Let_def)
  have i: "system_message system_prompt \<in> set ?m0" "human_message text \<in> set ?m0"
    by (simp_all add: input_payload_def)
  have 1: "system_message system_prompt \<in> set messages"
    by (rule advance_keeps [OF assms(1) i(1)]) (simp add: system_message_def)
  have 2: "human_message text \<in> set messages"
    by (rule advance_keeps [OF assms(1) i(2)]) (simp add: human_message_def)
  have 3: "k = 0 \<longrightarrow> messages = ?m0"
    using assms(1) by auto
  from t r 1 2 3 show ?thesis by (intro conjI)
qed

theorem model_failure_one_error_fragment_witness:
  "advance G_late 2 ChatNode
     (load cp0 (config_key ''u1'') @ input_payload ''I spent 200 rupees on groceries'') db0 =
     Some ([\<lparr>ev_content = Str [], ev_node = ChatNode\<rparr>,
            \<lparr>ev_content = Dumps expense_added, ev_node = Tools\<rparr>],
           [(''add_expense_tool'', call_args expense_call)], ChatNode,
           input_payload ''I spent 200 rupees on groceries'' @
             [ai_message asks_expense, expense_added_message],
           \<lparr>expenses = [stored (expense_document env_up ''u2'' (Finite 200) ''groceries'' None)
                          \<lparr>acknowledged = True, inserted_id = ''id1''\<rparr>],
            goals = []\<rparr>) \<and>
   2 < recursion_limit G_late \<and>
   llm G_late (input_payload ''I spent 200 rupees on groceries'' @
                 [ai_message asks_expense, expense_added_message]) =
     ([''I have''], Inl timeout_error) \<and>
   process_input_stream G_late ''I spent 200 rupees on groceries'' ''u1'' cp0 db0 =
     \<lparr>fragments = [Dumps expense_added, Str ''I have'',
                   Str ''Error during streaming: Request timed out.''],
      checkpoints = cp0(config_key ''u1'' \<mapsto>
        input_payload ''I spent 200 rupees on groceries'' @
          [ai_message asks_expense, expense_added_message]),
      database =
        \<lparr>expenses = [stored (expense_document env_up ''u2'' (Finite 200) ''groceries'' None)
                       \<lparr>acknowledged = True, inserted_id = ''id1''\<rparr>],
         goals = []\<rparr>\<rparr>"
proof -
  let ?m = "input_payload ''I spent 200 rupees on groceries'' @
              [ai_message asks_expense, expense_added_message]"
  let ?s = "\<lparr>expenses = [stored (expense_document env_up ''u2'' (Finite 200) ''groceries'' None)
                          \<lparr>acknowledged = True, inserted_id = ''id1''\<rparr>],
            goals = []\<rparr>"
  have a: "advance G_late 2 ChatNode
     (load cp0 (config_key ''u1'') @ input_payload ''I spent 200 rupees on groceries'') db0 =
     Some ([\<lparr>ev_content = Str [], ev_node = ChatNode\<rparr>,
            \<lparr>ev_content = Dumps expense_added, ev_node = Tools\<rparr>],
           [(''add_expense_tool'', call_args expense_call)], ChatNode, ?m, ?s)"
    by code_simp
  have b: "2 < recursion_limit G_late"
    by (simp add: recursion_limit_def G_late_def)
  have c: "llm G_late ?m = ([''I have''], Inl timeout_error)"
    by (simp add: G_late_def expense_added_message_def tool_message_def)
  have e: "error_fragment timeout_error = Str ''Error during streaming: Request timed out.''"
    by (simp add: error_fragment_def timeout_error_def)
  show ?thesis
    using a b c model_failure_one_error_fragment [OF a b c]
    by (simp add: e)
qed

text \<open>
  C7, as stated, fails in its last clause: after a turn whose first call of the model
  timed out, the checkpoint of the session is no longer the one from before the turn (it
  was empty) but holds the input of the failed turn, and the retry of the same turn, with
  a model that answers, persists that input twice.
\<close>

theorem failed_turn_moves_checkpoint:
  "llm G_fail (load cp0 (config_key ''u1'') @ input_payload ''hello'') =
     ([], Inl timeout_error) \<and>
   load cp0 (config_key ''u1'') = [] \<and>
   load (checkpoints (process_input_stream G_fail ''hello'' ''u1'' cp0 db0))
     (config_key ''u1'') =
     [system_message system_prompt, human_message ''hello''] \<and>
   load (checkpoints
           (process_input_stream G_plain ''hello'' ''u1''
              (checkpoints (process_input_stream G_fail ''hello'' ''u1'' cp0 db0)) db0))
     (config_key ''u1'') =
     [system_message system_prompt, human_message ''hello'',
      system_message system_prompt, human_message ''hello'', ai_message greeting]"
  by code_simp

section \<open>The bound on the super-steps\<close>

lemma stops_out_of_steps:
  "pregel_loop G 0 nd messages s =
     \<lparr>events = [], raised = Some (graph_recursion_error G), saved = messages, world = s,
      supersteps = 0, invoked = []\<rparr>"
  by (simp add: stopped_def)

lemma stops_raised:
  "superstep G nd messages s = (evs, Inl e, s', invs) \<Longrightarrow>
   pregel_loop G (Suc n) nd messages s =
     \<lparr>events = evs, raised = Some e, saved = messages, world = s', supersteps = 0,
      invoked = invs\<rparr>"
  by (simp add: stopped_def)

lemma stops_at_end:
  "superstep G nd messages s = (evs, Inr (messages', None), s', invs) \<Longrightarrow>
   pregel_loop G (Suc n) nd messages s =
     \<lparr>events = evs,
      raised = (if n = 0 then Some (graph_recursion_error G) else None),
      saved = messages', world = s', supersteps = 1, invoked = invs\<rparr>"
  by (simp add: stopped_def after_step_def)

text \<open>
  C5. A turn runs the graph from \<open>chat_node\<close> on the state before the turn with the
  input of the turn. It gets through some number \<open>k\<close> of super-steps that each name a
  next node, at most as many as the recursion limit \<open>L\<close> of the run: \<open>chat_node\<close> and
  the tools in turn (after \<open>j\<close> steps the graph stands at \<open>chat_node\<close> when \<open>j\<close> is
  even and at the tools when it is odd), so \<open>k\<close> steps are the calls of the model and
  the tool steps of \<open>k div 2\<close> round trips, and one more call of the model if \<open>k\<close> is
  odd. Then one of three things ends the run, and there is no other way for it to end or
  to go on. Either \<open>k = L\<close>: the run raises GraphRecursionError, the caller gets the
  fragments of the \<open>L\<close> steps and then the error fragment, and the checkpoint is the
  state after these steps. Or the next super-step raises: the checkpoint is the state
  after the \<open>k\<close> steps. Or the next super-step ends the graph: its state is the
  checkpoint, and the run ends without error unless that step was the last that the
  limit allows. So a run makes at most \<open>L\<close> super-steps, and one that makes \<open>L\<close>
  ends in GraphRecursionError, which the caller gets as the last fragment. The limit is
  the one of the configuration of LangGraph; \<open>chatbot.py\<close> sets none itself. Each
  call of the model and of a tool is taken to return or raise.
\<close>

theorem turn_is_bounded:
  "(\<exists>k evs invs nd messages s'.
      k \<le> recursion_limit G \<and>
      advance G k ChatNode (load cp (config_key sid) @ input_payload text) s =
        Some (evs, invs, nd, messages, s') \<and>
      nd = (if even k then ChatNode else Tools) \<and>
      (\<forall>j \<le> k. \<exists>evs1 invs1 messages1 s1.
         advance G j ChatNode (load cp (config_key sid) @ input_payload text) s =
           Some (evs1, invs1, if even j then ChatNode else Tools, messages1, s1)) \<and>
      (k = recursion_limit G \<and>
       agent_stream G (input_payload text) (config_key sid) cp s =
         \<lparr>events = evs, raised = Some (graph_recursion_error G), saved = messages,
          world = s', supersteps = k, invoked = invs\<rparr> \<or>
       k < recursion_limit G \<and>
       (\<exists>evs' e s'' invs'.
          superstep G nd messages s' = (evs', Inl e, s'', invs') \<and>
          agent_stream G (input_payload text) (config_key sid) cp s =
            \<lparr>events = evs @ evs', raised = Some e, saved = messages, world = s'',
             supersteps = k, invoked = invs @ invs'\<rparr>) \<or>
       k < recursion_limit G \<and>
       (\<exists>evs' messages' s'' invs'.
          superstep G nd messages s' = (evs', Inr (messages', None), s'', invs') \<and>
          agent_stream G (input_payload text) (config_key sid) cp s =
            \<lparr>events = evs @ evs',
             raised = (if Suc k = recursion_limit G then Some (graph_recursion_error G)
                       else None),
             saved = messages', world = s'', supersteps = Suc k,
             invoked = invs @ invs'\<rparr>))) \<and>
   supersteps (agent_stream G (input_payload text) (config_key sid) cp s) \<le> recursion_limit G \<and>
   (supersteps (agent_stream G (input_payload text) (config_key sid) cp s) = recursion_limit G
      \<longrightarrow>
      raised (agent_stream G (input_payload text) (config_key sid) cp s) =
        Some (graph_recursion_error G) \<and>
      fragments (process_input_stream G text sid cp s) =
        filter truthy
          (map ev_content (events (agent_stream G (input_payload text) (config_key sid) cp s))) @
        [error_fragment (graph_recursion_error G)]) \<and>
   checkpoints (process_input_stream G text sid cp s) (config_key sid) =
     Some (saved (agent_stream G (input_payload text) (config_key sid) cp s))"
proof -
  let ?L = "recursion_limit G"
  let ?m0 = "load cp (config_key sid) @ input_payload text"
  let ?r = "agent_stream G (input_payload text) (config_key sid) cp s"
  have r: "?r = pregel_loop G ?L ChatNode ?m0 s"
    by (simp only: agent_stream_def add_messages_input)
  from loop_last [of ?L G ChatNode ?m0 s] obtain k evs invs nd messages s' where
    k: "k \<le> ?L" and
    adv: "advance G k ChatNode ?m0 s = Some (evs, invs, nd, messages, s')" and
    last: "k = ?L \<or>
      (\<exists>evs' e s'' invs'. superstep G nd messages s' = (evs', Inl e, s'', invs')) \<or>
      (\<exists>evs' messages'' s'' invs'.
         superstep G nd messages s' = (evs', Inr (messages'', None), s'', invs'))"
    by blast
  have nd: "nd = (if even k then ChatNode else Tools)"
    using advance_node [OF adv] by simp
  have alt: "\<forall>j \<le> k. \<exists>evs1 invs1 messages1 s1.
         advance G j ChatNode ?m0 s =
           Some (evs1, invs1, if even j then ChatNode else Tools, messages1, s1)"
    using advance_alternates [OF adv] by blast
  have split: "pregel_loop G (k + n) ChatNode ?m0 s =
                 after_steps k evs invs (pregel_loop G n nd messages s')" for n
    by (rule loop_advance [OF adv])
  have ends: "(k = ?L \<and>
       ?r = \<lparr>events = evs, raised = Some (graph_recursion_error G), saved = messages,
            world = s', supersteps = k, invoked = invs\<rparr>) \<or>
      (k < ?L \<and>
       (\<exists>evs' e s'' invs'.
          superstep G nd messages s' = (evs', Inl e, s'', invs') \<and>
          ?r = \<lparr>events = evs @ evs', raised = Some e, saved = messages, world = s'',
               supersteps = k, invoked = invs @ invs'\<rparr>)) \<or>
      (k < ?L \<and>
       (\<exists>evs' messages' s'' invs'.
          superstep G nd messages s' = (evs', Inr (messages', None), s'', invs') \<and>
          ?r = \<lparr>events = evs @ evs',
               raised = (if Suc k = ?L then Some (graph_recursion_error G) else None),
               saved = messages', world = s'', supersteps = Suc k,
               invoked = invs @ invs'\<rparr>))"
  proof (cases "k = ?L")
    case True
    have "?r = pregel_loop G (k + 0) ChatNode ?m0 s" using r True by simp
    also have "\<dots> = after_steps k evs invs (pregel_loop G 0 nd messages s')"
      by (rule split)
    finally have out: "?r = \<lparr>events = evs, raised = Some (graph_recursion_error G),
        saved = messages, world = s', supersteps = k, invoked = invs\<rparr>"
      by (simp add: stopped_def after_steps_def)
    with True show ?thesis by blast
  next
    case False
    with k have lt: "k < ?L" by simp
    then have "\<exists>n. ?L = k + Suc n" by presburger
    then obtain n where n: "?L = k + Suc n" by blast
    have rn: "?r = after_steps k evs invs (pregel_loop G (Suc n) nd messages s')"
      using r split [of "Suc n"] by (simp only: n)
    have n0: "(n = 0) = (Suc k = ?L)" using n by auto
    from last False consider
      (raised) evs' e s'' invs' where "superstep G nd messages s' = (evs', Inl e, s'', invs')"
    | (ended) evs' messages'' s'' invs' where
        "superstep G nd messages s' = (evs', Inr (messages'', None), s'', invs')"
      by blast
    then show ?thesis
    proof cases
      case raised
      have "?r = \<lparr>events = evs @ evs', raised = Some e, saved = messages, world = s'',
               supersteps = k, invoked = invs @ invs'\<rparr>"
        by (simp only: rn stops_raised [OF raised]) (simp add: after_steps_def)
      with lt raised show ?thesis by blast
    next
      case ended
      have "?r = \<lparr>events = evs @ evs',
               raised = (if Suc k = ?L then Some (graph_recursion_error G) else None),
               saved = messages'', world = s'', supersteps = Suc k,
               invoked = invs @ invs'\<rparr>"
        by (simp only: rn stops_at_end [OF ended] n0) (simp add: after_steps_def)
      with lt ended show ?thesis by blast
    qed
  qed
  have bound: "supersteps ?r \<le> ?L"
    using ends k by auto
  have used: "raised ?r = Some (graph_recursion_error G)" if "supersteps ?r = ?L"
    using ends that by auto
  have frag: "supersteps ?r = ?L \<longrightarrow>
      raised ?r = Some (graph_recursion_error G) \<and>
      fragments (process_input_stream G text sid cp s) =
        filter truthy (map ev_content (events ?r)) @
        [error_fragment (graph_recursion_error G)]"
    using used by (simp add: process_input_stream_def yielded_def Let_def)
  have saved: "checkpoints (process_input_stream G text sid cp s) (config_key sid) =
                 Some (saved ?r)"
    by (simp add: process_input_stream_def Let_def)
  from k adv nd alt ends have
    "\<exists>k evs invs nd messages s'.
      k \<le> ?L \<and> advance G k ChatNode ?m0 s = Some (evs, invs, nd, messages, s') \<and>
      nd = (if even k then ChatNode else Tools) \<and>
      (\<forall>j \<le> k. \<exists>evs1 invs1 messages1 s1.
         advance G j ChatNode ?m0 s =
           Some (evs1, invs1, if even j then ChatNode else Tools, messages1, s1)) \<and>
      (k = ?L \<and>
       ?r = \<lparr>events = evs, raised = Some (graph_recursion_error G), saved = messages,
            world = s', supersteps = k, invoked = invs\<rparr> \<or>
       k < ?L \<and>
       (\<exists>evs' e s'' invs'.
          superstep G nd messages s' = (evs', Inl e, s'', invs') \<and>
          ?r = \<lparr>events = evs @ evs', raised = Some e, saved = messages, world = s'',
               supersteps = k, invoked = invs @ invs'\<rparr>) \<or>
       k < ?L \<and>
       (\<exists>evs' messages' s'' invs'.
          superstep G nd messages s' = (evs', Inr (messages', None), s'', invs') \<and>
          ?r = \<lparr>events = evs @ evs',
               raised = (if Suc k = ?L then Some (graph_recursion_error G) else None),
               saved = messages', world = s'', supersteps = Suc k,
               invoked = invs @ invs'\<rparr>))"
    by blast
  with bound frag saved show ?thesis by (intro conjI)
qed

theorem turn_is_bounded_witness:
  "recursion_limit G_loop = 25 \<and>
   supersteps (agent_stream G_loop (input_payload ''price of AAPL'') (config_key ''u1'') cp0 db0)
     = 25 \<and>
   raised (agent_stream G_loop (input_payload ''price of AAPL'') (config_key ''u1'') cp0 db0) =
     Some (graph_recursion_error G_loop) \<and>
   length (invoked
     (agent_stream G_loop (input_payload ''price of AAPL'') (config_key ''u1'') cp0 db0)) = 12 \<and>
   length (saved
     (agent_stream G_loop (input_payload ''price of AAPL'') (config_key ''u1'') cp0 db0)) = 27 \<and>
   fragments (process_input_stream G_loop ''price of AAPL'' ''u1'' cp0 db0) =
     replicate 12 (Dumps (PDict [(''Global Quote'', PDict [])])) @
     [Str (''Error during streaming: '' @
           ''Recursion limit of 25 reached without hitting a stop condition.'')] \<and>
   fragments (process_input_stream G_loop ''price of AAPL'' ''u1'' cp0 db0) =
     filter truthy
       (map ev_content
          (events (agent_stream G_loop (input_payload ''price of AAPL'') (config_key ''u1'')
                     cp0 db0))) @
     [error_fragment (graph_recursion_error G_loop)] \<and>
   (\<exists>evs invs messages s'.
      advance G_loop 25 ChatNode
        (load cp0 (config_key ''u1'') @ input_payload ''price of AAPL'') db0 =
        Some (evs, invs, Tools, messages, s') \<and>
      checkpoints (process_input_stream G_loop ''price of AAPL'' ''u1'' cp0 db0)
        (config_key ''u1'') = Some messages)"
proof -
  let ?r = "agent_stream G_loop (input_payload ''price of AAPL'') (config_key ''u1'') cp0 db0"
  let ?t = "process_input_stream G_loop ''price of AAPL'' ''u1'' cp0 db0"
  let ?m0 = "load cp0 (config_key ''u1'') @ input_payload ''price of AAPL''"
  have l: "recursion_limit G_loop = 25"
    by (simp add: recursion_limit_def G_loop_def)
  have a: "supersteps ?r = 25" by code_simp
  have c: "length (invoked ?r) = 12" by code_simp
  have d: "length (saved ?r) = 27" by code_simp
  have f: "fragments ?t =
     replicate 12 (Dumps (PDict [(''Global Quote'', PDict [])])) @
     [Str (''Error during streaming: '' @
           ''Recursion limit of 25 reached without hitting a stop condition.'')]"
    by code_simp
  note inst = turn_is_bounded [of G_loop cp0 "''u1''" "''price of AAPL''" db0]
  from inst a l have b: "raised ?r = Some (graph_recursion_error G_loop)"
    and g: "fragments ?t =
              filter truthy (map ev_content (events ?r)) @
              [error_fragment (graph_recursion_error G_loop)]"
    by simp_all
  from inst obtain k evs invs nd messages s' where
    adv: "advance G_loop k ChatNode ?m0 db0 = Some (evs, invs, nd, messages, s')" and
    nd: "nd = (if even k then ChatNode else Tools)" and
    ends: "k = recursion_limit G_loop \<and>
       ?r = \<lparr>events = evs, raised = Some (graph_recursion_error G_loop), saved = messages,
            world = s', supersteps = k, invoked = invs\<rparr> \<or>
       k < recursion_limit G_loop \<and>
       (\<exists>evs' e s'' invs'.
          superstep G_loop nd messages s' = (evs', Inl e, s'', invs') \<and>
          ?r = \<lparr>events = evs @ evs', raised = Some e, saved = messages, world = s'',
               supersteps = k, invoked = invs @ invs'\<rparr>) \<or>
       k < recursion_limit G_loop \<and>
       (\<exists>evs' messages' s'' invs'.
          superstep G_loop nd messages s' = (evs', Inr (messages', None), s'', invs') \<and>
          ?r = \<lparr>events = evs @ evs',
               raised = (if Suc k = recursion_limit G_loop
                         then Some (graph_recursion_error G_loop) else None),
               saved = messages', world = s'', supersteps = Suc k,
               invoked = invs @ invs'\<rparr>)"
    by blast
  have chat: "\<exists>evs' messages' nxt. superstep G_loop ChatNode ms st =
                (evs', Inr (messages', Some nxt), st, [])" for ms st
  proof -
    have "llm G_loop ms = ([[]], Inr asks_stock)" by (simp add: G_loop_def)
    moreover have "fresh_id (resp_id asks_stock) ms"
      by (simp add: fresh_id_def asks_stock_def)
    moreover have "resp_tool_calls asks_stock \<noteq> []" by (simp add: asks_stock_def)
    ultimately show ?thesis
      using superstep_chat_answer [of G_loop ms "[[]]" asks_stock st] by simp
  qed
  from ends have "k = 25 \<and> saved ?r = messages"
  proof (elim disjE conjE exE)
    assume "k = recursion_limit G_loop"
      and "?r = \<lparr>events = evs, raised = Some (graph_recursion_error G_loop), saved = messages,
            world = s', supersteps = k, invoked = invs\<rparr>"
    with l show ?thesis by simp
  next
    fix evs' e s'' invs'
    assume "k < recursion_limit G_loop"
      and "?r = \<lparr>events = evs @ evs', raised = Some e, saved = messages, world = s'',
               supersteps = k, invoked = invs @ invs'\<rparr>"
    with a l show ?thesis by simp
  next
    fix evs' messages' s'' invs'
    assume st: "superstep G_loop nd messages s' = (evs', Inr (messages', None), s'', invs')"
      and rr: "?r = \<lparr>events = evs @ evs',
               raised = (if Suc k = recursion_limit G_loop
                         then Some (graph_recursion_error G_loop) else None),
               saved = messages', world = s'', supersteps = Suc k,
               invoked = invs @ invs'\<rparr>"
    from rr a have "Suc k = 25" by simp
    then have "even k" by presburger
    with nd have "nd = ChatNode" by simp
    with st chat [of messages s'] show ?thesis by simp
  qed
  then have k: "k = 25" and sv: "saved ?r = messages" by simp_all
  from inst sv have t: "checkpoints ?t (config_key ''u1'') = Some messages" by simp
  from nd k have "nd = Tools" by simp
  with adv k t have
    "\<exists>evs invs messages s'.
      advance G_loop 25 ChatNode ?m0 db0 = Some (evs, invs, Tools, messages, s') \<and>
      checkpoints ?t (config_key ''u1'') = Some messages"
    by blast
  with l a b c d f g show ?thesis by (intro conjI)
qed

section \<open>The results of the tool calls\<close>










section \<open>The arguments of the tool invocations\<close>

lemma add_expense_effect:
  assumes "add_expense_tool E u a c d s = (r, s')"
  shows "s' = s \<or>
         (\<exists>doc. s' = s\<lparr>expenses := expenses s @ [doc]\<rparr> \<and>
                map_of doc ''user_id'' = Some (PStr u))"
proof -
  have "map_of (stored (expense_document E u a c d) res) ''user_id'' = Some (PStr u)" for res
    by (simp add: stored_def expense_document_def)
  with assms show ?thesis
    by (auto simp: add_expense_tool_def add_expense_body_def try_except_def Let_def
        split: if_splits sum.splits)
qed

lemma find_registered:
  "call_name c = ''add_expense_tool'' \<Longrightarrow>
     find (\<lambda>t. tool_name t = call_name c) tools = Some add_expense_tool_st"
  "call_name c = ''query_expenses_tool'' \<Longrightarrow>
     find (\<lambda>t. tool_name t = call_name c) tools = Some query_expenses_tool_st"
  "call_name c = ''expense_summary_tool'' \<Longrightarrow>
     find (\<lambda>t. tool_name t = call_name c) tools = Some expense_summary_tool_st"
  by (simp_all add: tools_def add_expense_tool_st_def query_expenses_tool_st_def
      expense_summary_tool_st_def)

lemma run_one_returned:
  "find (\<lambda>t. tool_name t = call_name c) ts = Some t \<Longrightarrow>
   run_tool E t (call_args c) s = (Inr v, s') \<Longrightarrow>
   run_one E ts c s =
     (Inr (tool_message (stringify v) c ''success''), s', [(tool_name t, call_args c)])"
  by (simp add: run_one_def)

text \<open>
  C1. No step of a turn puts the session id into the arguments of a tool. After an
  answer of the model with tool calls, the tool node invokes the registered tools that
  the calls name on the arguments of the calls, as the model wrote them. The functions
  \<open>add_expense_tool\<close>, \<open>query_expenses_tool\<close> and \<open>expense_summary_tool\<close> are then
  called with the \<open>user_id\<close> of the call: the expense that \<open>add_expense_tool\<close> may
  store is stored for that user, and the other two read the expenses of that user. The
  session id is the key of the checkpoint and nothing else: two sessions with the same
  history get the same fragments, the same effect on the database and the same persisted
  state from the same turn.
\<close>

theorem tools_receive_model_user_id:
  "(llm G messages = (chunks, Inr resp) \<and> resp_tool_calls resp \<noteq> [] \<and>
    fresh_id (resp_id resp) messages \<longrightarrow>
      (\<exists>res s' invs.
         superstep G ChatNode messages s =
           (chat_events chunks resp, Inr (messages @ [ai_message resp], Some Tools), s, []) \<and>
         tool_node G (messages @ [ai_message resp]) s = (res, s', invs) \<and>
         mset invs =
           mset (map (\<lambda>c. (call_name c, call_args c))
                  (filter (\<lambda>c. call_name c \<in> tool_name ` set tools)
                     (resp_tool_calls resp))))) \<and>
   (call_name c1 = ''add_expense_tool'' \<and>
    validate E AddExpenseInput (call_args c1) = Inr kw1 \<longrightarrow>
      (\<exists>u a cat v s'.
         map_of (call_args c1) ''user_id'' = Some (PStr u) \<and>
         add_expense_tool E u a cat (arg_opt_str kw1 ''description'') s = (Inr v, s') \<and>
         run_one E tools c1 s =
           (Inr (tool_message (stringify v) c1 ''success''), s',
            [(''add_expense_tool'', call_args c1)]) \<and>
         (s' = s \<or>
          (\<exists>doc. s' = s\<lparr>expenses := expenses s @ [doc]\<rparr> \<and>
                 map_of doc ''user_id'' = Some (PStr u))))) \<and>
   (call_name c2 = ''query_expenses_tool'' \<and>
    validate E QueryExpenseInput (call_args c2) = Inr kw2 \<longrightarrow>
      (\<exists>u v.
         map_of (call_args c2) ''user_id'' = Some (PStr u) \<and>
         query_expenses_tool E u (arg_opt_str kw2 ''category'')
           (arg_int_default kw2 ''period_days'' 30) s = (Inr v, s) \<and>
         run_one E tools c2 s =
           (Inr (tool_message (stringify v) c2 ''success''), s,
            [(''query_expenses_tool'', call_args c2)]))) \<and>
   (call_name c3 = ''expense_summary_tool'' \<and>
    validate E ExpenseSummaryInput (call_args c3) = Inr kw3 \<longrightarrow>
      (\<exists>u v.
         map_of (call_args c3) ''user_id'' = Some (PStr u) \<and>
         expense_summary_tool E u (arg_int_default kw3 ''period_days'' 30) s = (Inr v, s) \<and>
         run_one E tools c3 s =
           (Inr (tool_message (stringify v) c3 ''success''), s,
            [(''expense_summary_tool'', call_args c3)]))) \<and>
   (load cp (config_key sid) = load cp (config_key sid') \<longrightarrow>
      fragments (process_input_stream G user_text sid cp s) =
        fragments (process_input_stream G user_text sid' cp s) \<and>
      database (process_input_stream G user_text sid cp s) =
        database (process_input_stream G user_text sid' cp s) \<and>
      load (checkpoints (process_input_stream G user_text sid cp s)) (config_key sid) =
        load (checkpoints (process_input_stream G user_text sid' cp s)) (config_key sid'))"
proof -
  have 1: "llm G messages = (chunks, Inr resp) \<and> resp_tool_calls resp \<noteq> [] \<and>
    fresh_id (resp_id resp) messages \<longrightarrow>
      (\<exists>res s' invs.
         superstep G ChatNode messages s =
           (chat_events chunks resp, Inr (messages @ [ai_message resp], Some Tools), s, []) \<and>
         tool_node G (messages @ [ai_message resp]) s = (res, s', invs) \<and>
         mset invs =
           mset (map (\<lambda>c. (call_name c, call_args c))
                  (filter (\<lambda>c. call_name c \<in> tool_name ` set tools)
                     (resp_tool_calls resp))))"
  proof
    assume h: "llm G messages = (chunks, Inr resp) \<and> resp_tool_calls resp \<noteq> [] \<and>
      fresh_id (resp_id resp) messages"
    let ?ai = "ai_message resp"
    have st1: "superstep G ChatNode messages s =
               (chat_events chunks resp, Inr (messages @ [?ai], Some Tools), s, [])"
      using superstep_chat_answer [of G messages chunks resp s] h by simp
    have m: "messages @ [?ai] \<noteq> []" "role (last (messages @ [?ai])) = AIMessage"
      by (simp_all add: ai_message_def)
    have calls: "tool_calls (last (messages @ [?ai])) = resp_tool_calls resp"
      by (simp add: ai_message_def)
    from tool_node_reads [OF m, of G s] obtain rs s' invs where
      "tool_node G (messages @ [?ai]) s = (collect rs, s', invs)"
      "mset invs =
         mset (map (\<lambda>c. (call_name c, call_args c))
                (filter (\<lambda>c. call_name c \<in> tool_name ` set tools)
                   (resp_tool_calls resp)))"
      unfolding calls by blast
    with st1 show "\<exists>res s' invs.
         superstep G ChatNode messages s =
           (chat_events chunks resp, Inr (messages @ [ai_message resp], Some Tools), s, []) \<and>
         tool_node G (messages @ [ai_message resp]) s = (res, s', invs) \<and>
         mset invs =
           mset (map (\<lambda>c. (call_name c, call_args c))
                  (filter (\<lambda>c. call_name c \<in> tool_name ` set tools)
                     (resp_tool_calls resp)))"
      by blast
  qed
  have 2: "call_name c1 = ''add_expense_tool'' \<and>
    validate E AddExpenseInput (call_args c1) = Inr kw1 \<longrightarrow>
      (\<exists>u a cat v s'.
         map_of (call_args c1) ''user_id'' = Some (PStr u) \<and>
         add_expense_tool E u a cat (arg_opt_str kw1 ''description'') s = (Inr v, s') \<and>
         run_one E tools c1 s =
           (Inr (tool_message (stringify v) c1 ''success''), s',
            [(''add_expense_tool'', call_args c1)]) \<and>
         (s' = s \<or>
          (\<exists>doc. s' = s\<lparr>expenses := expenses s @ [doc]\<rparr> \<and>
                 map_of doc ''user_id'' = Some (PStr u))))"
  proof
    assume h: "call_name c1 = ''add_expense_tool'' \<and>
      validate E AddExpenseInput (call_args c1) = Inr kw1"
    then have n: "call_name c1 = ''add_expense_tool''"
      and v: "validate E AddExpenseInput (call_args c1) = Inr kw1" by simp_all
    let ?d = "arg_opt_str kw1 ''description''"
    from add_expense_receives [OF v, of s] obtain u a cat where
      u: "map_of (call_args c1) ''user_id'' = Some (PStr u)" and
      rt: "run_tool E add_expense_tool_st (call_args c1) s = add_expense_tool E u a cat ?d s"
      by blast
    from add_expense_envelope [of E u a cat ?d s] obtain v' s' where
      ret: "add_expense_tool E u a cat ?d s = (Inr v', s')" by blast
    have one: "run_one E tools c1 s =
           (Inr (tool_message (stringify v') c1 ''success''), s',
            [(''add_expense_tool'', call_args c1)])"
      using run_one_returned [OF find_registered(1) [OF n], of E s v' s'] rt ret
      by (simp add: add_expense_tool_st_def)
    from u ret one add_expense_effect [OF ret]
    show "\<exists>u a cat v s'.
         map_of (call_args c1) ''user_id'' = Some (PStr u) \<and>
         add_expense_tool E u a cat (arg_opt_str kw1 ''description'') s = (Inr v, s') \<and>
         run_one E tools c1 s =
           (Inr (tool_message (stringify v) c1 ''success''), s',
            [(''add_expense_tool'', call_args c1)]) \<and>
         (s' = s \<or>
          (\<exists>doc. s' = s\<lparr>expenses := expenses s @ [doc]\<rparr> \<and>
                 map_of doc ''user_id'' = Some (PStr u)))"
      by blast
  qed
  have 3: "call_name c2 = ''query_expenses_tool'' \<and>
    validate E QueryExpenseInput (call_args c2) = Inr kw2 \<longrightarrow>
      (\<exists>u v.
         map_of (call_args c2) ''user_id'' = Some (PStr u) \<and>
         query_expenses_tool E u (arg_opt_str kw2 ''category'')
           (arg_int_default kw2 ''period_days'' 30) s = (Inr v, s) \<and>
         run_one E tools c2 s =
           (Inr (tool_message (stringify v) c2 ''success''), s,
            [(''query_expenses_tool'', call_args c2)]))"
  proof
    assume h: "call_name c2 = ''query_expenses_tool'' \<and>
      validate E QueryExpenseInput (call_args c2) = Inr kw2"
    then have n: "call_name c2 = ''query_expenses_tool''"
      and v: "validate E QueryExpenseInput (call_args c2) = Inr kw2" by simp_all
    from query_expenses_receives [OF v, of s] obtain u where
      u: "map_of (call_args c2) ''user_id'' = Some (PStr u)" and
      rt: "run_tool E query_expenses_tool_st (call_args c2) s =
             query_expenses_tool E u (arg_opt_str kw2 ''category'')
               (arg_int_default kw2 ''period_days'' 30) s"
      by blast
    from query_expenses_envelope [of E u "arg_opt_str kw2 ''category''"
        "arg_int_default kw2 ''period_days'' 30" s] obtain v' where
      ret: "query_expenses_tool E u (arg_opt_str kw2 ''category'')
              (arg_int_default kw2 ''period_days'' 30) s = (Inr v', s)" by blast
    have one: "run_one E tools c2 s =
           (Inr (tool_message (stringify v') c2 ''success''), s,
            [(''query_expenses_tool'', call_args c2)])"
      using run_one_returned [OF find_registered(2) [OF n], of E s v' s] rt ret
      by (simp add: query_expenses_tool_st_def)
    from u ret one show "\<exists>u v.
         map_of (call_args c2) ''user_id'' = Some (PStr u) \<and>
         query_expenses_tool E u (arg_opt_str kw2 ''category'')
           (arg_int_default kw2 ''period_days'' 30) s = (Inr v, s) \<and>
         run_one E tools c2 s =
           (Inr (tool_message (stringify v) c2 ''success''), s,
            [(''query_expenses_tool'', call_args c2)])"
      by blast
  qed
  have 4: "call_name c3 = ''expense_summary_tool'' \<and>
    validate E ExpenseSummaryInput (call_args c3) = Inr kw3 \<longrightarrow>
      (\<exists>u v.
         map_of (call_args c3) ''user_id'' = Some (PStr u) \<and>
         expense_summary_tool E u (arg_int_default kw3 ''period_days'' 30) s = (Inr v, s) \<and>
         run_one E tools c3 s =
           (Inr (tool_message (stringify v) c3 ''success''), s,
            [(''expense_summary_tool'', call_args c3)]))"
  proof
    assume h: "call_name c3 = ''expense_summary_tool'' \<and>
      validate E ExpenseSummaryInput (call_args c3) = Inr kw3"
    then have n: "call_name c3 = ''expense_summary_tool''"
      and v: "validate E ExpenseSummaryInput (call_args c3) = Inr kw3" by simp_all
    from expense_summary_receives [OF v, of s] obtain u where
      u: "map_of (call_args c3) ''user_id'' = Some (PStr u)" and
      rt: "run_tool E expense_summary_tool_st (call_args c3) s =
             expense_summary_tool E u (arg_int_default kw3 ''period_days'' 30) s"
      by blast
    from expense_summary_envelope [of E u "arg_int_default kw3 ''period_days'' 30" s]
    obtain v' where
      ret: "expense_summary_tool E u (arg_int_default kw3 ''period_days'' 30) s = (Inr v', s)"
      by blast
    have one: "run_one E tools c3 s =
           (Inr (tool_message (stringify v') c3 ''success''), s,
            [(''expense_summary_tool'', call_args c3)])"
      using run_one_returned [OF find_registered(3) [OF n], of E s v' s] rt ret
      by (simp add: expense_summary_tool_st_def)
    from u ret one show "\<exists>u v.
         map_of (call_args c3) ''user_id'' = Some (PStr u) \<and>
         expense_summary_tool E u (arg_int_default kw3 ''period_days'' 30) s = (Inr v, s) \<and>
         run_one E tools c3 s =
           (Inr (tool_message (stringify v) c3 ''success''), s,
            [(''expense_summary_tool'', call_args c3)])"
      by blast
  qed
  have 5: "load cp (config_key sid) = load cp (config_key sid') \<longrightarrow>
      fragments (process_input_stream G user_text sid cp s) =
        fragments (process_input_stream G user_text sid' cp s) \<and>
      database (process_input_stream G user_text sid cp s) =
        database (process_input_stream G user_text sid' cp s) \<and>
      load (checkpoints (process_input_stream G user_text sid cp s)) (config_key sid) =
        load (checkpoints (process_input_stream G user_text sid' cp s)) (config_key sid')"
    by (simp add: process_input_stream_def agent_stream_def load_update Let_def)
  from 1 2 3 4 5 show ?thesis by (intro conjI)
qed

theorem tools_receive_model_user_id_witness:
  "llm G_cross (input_payload ''I spent 200 rupees on groceries'') = ([[]], Inr asks_expense) \<and>
   resp_tool_calls asks_expense \<noteq> [] \<and>
   fresh_id (resp_id asks_expense) (input_payload ''I spent 200 rupees on groceries'') \<and>
   (\<exists>res s' invs.
      superstep G_cross ChatNode (input_payload ''I spent 200 rupees on groceries'') db0 =
        (chat_events [[]] asks_expense,
         Inr (input_payload ''I spent 200 rupees on groceries'' @ [ai_message asks_expense],
              Some Tools), db0, []) \<and>
      tool_node G_cross
        (input_payload ''I spent 200 rupees on groceries'' @ [ai_message asks_expense]) db0 =
        (res, s', invs) \<and>
      mset invs =
        mset (map (\<lambda>c. (call_name c, call_args c))
               (filter (\<lambda>c. call_name c \<in> tool_name ` set tools)
                  (resp_tool_calls asks_expense)))) \<and>
   call_name expense_call = ''add_expense_tool'' \<and>
   validate env_up AddExpenseInput (call_args expense_call) =
     Inr [(''user_id'', PStr ''u2''), (''amount'', PFloat (Finite 200)),
          (''category'', PStr ''groceries'')] \<and>
   map_of (call_args expense_call) ''user_id'' = Some (PStr ''u2'') \<and>
   (\<exists>u a cat v s'.
      map_of (call_args expense_call) ''user_id'' = Some (PStr u) \<and>
      add_expense_tool env_up u a cat
        (arg_opt_str [(''user_id'', PStr ''u2''), (''amount'', PFloat (Finite 200)),
                      (''category'', PStr ''groceries'')] ''description'') db0 = (Inr v, s') \<and>
      run_one env_up tools expense_call db0 =
        (Inr (tool_message (stringify v) expense_call ''success''), s',
         [(''add_expense_tool'', call_args expense_call)]) \<and>
      (s' = db0 \<or>
       (\<exists>doc. s' = db0\<lparr>expenses := expenses db0 @ [doc]\<rparr> \<and>
              map_of doc ''user_id'' = Some (PStr u)))) \<and>
   validate env_up QueryExpenseInput [(''user_id'', PStr ''u2'')] =
     Inr [(''user_id'', PStr ''u2'')] \<and>
   (\<exists>u v.
      map_of [(''user_id'', PStr ''u2'')] ''user_id'' = Some (PStr u) \<and>
      query_expenses_tool env_up u (arg_opt_str [(''user_id'', PStr ''u2'')] ''category'')
        (arg_int_default [(''user_id'', PStr ''u2'')] ''period_days'' 30) db0 = (Inr v, db0) \<and>
      run_one env_up tools
        \<lparr>call_name = ''query_expenses_tool'', call_args = [(''user_id'', PStr ''u2'')],
         call_id = ''call_3''\<rparr> db0 =
        (Inr (tool_message (stringify v)
                \<lparr>call_name = ''query_expenses_tool'', call_args = [(''user_id'', PStr ''u2'')],
                 call_id = ''call_3''\<rparr> ''success''), db0,
         [(''query_expenses_tool'', [(''user_id'', PStr ''u2'')])])) \<and>
   validate env_up ExpenseSummaryInput [(''user_id'', PStr ''u2'')] =
     Inr [(''user_id'', PStr ''u2'')] \<and>
   (\<exists>u v.
      map_of [(''user_id'', PStr ''u2'')] ''user_id'' = Some (PStr u) \<and>
      expense_summary_tool env_up u
        (arg_int_default [(''user_id'', PStr ''u2'')] ''period_days'' 30) db0 = (Inr v, db0) \<and>
      run_one env_up tools
        \<lparr>call_name = ''expense_summary_tool'', call_args = [(''user_id'', PStr ''u2'')],
         call_id = ''call_4''\<rparr> db0 =
        (Inr (tool_message (stringify v)
                \<lparr>call_name = ''expense_summary_tool'', call_args = [(''user_id'', PStr ''u2'')],
                 call_id = ''call_4''\<rparr> ''success''), db0,
         [(''expense_summary_tool'', [(''user_id'', PStr ''u2'')])])) \<and>
   load cp0 (config_key ''u1'') = load cp0 (config_key ''u3'') \<and>
   fragments (process_input_stream G_cross ''I spent 200 rupees on groceries'' ''u1'' cp0 db0) =
     fragments (process_input_stream G_cross ''I spent 200 rupees on groceries'' ''u3'' cp0 db0) \<and>
   database (process_input_stream G_cross ''I spent 200 rupees on groceries'' ''u1'' cp0 db0) =
     database (process_input_stream G_cross ''I spent 200 rupees on groceries'' ''u3'' cp0 db0)"
proof -
  let ?m = "input_payload ''I spent 200 rupees on groceries''"
  let ?kw = "[(''user_id'', PStr ''u2''), (''amount'', PFloat (Finite 200)),
              (''category'', PStr ''groceries'')]"
  let ?qa = "[(''user_id'', PStr ''u2'')]"
  let ?qc = "\<lparr>call_name = ''query_expenses_tool'', call_args = ?qa, call_id = ''call_3''\<rparr>"
  let ?sc = "\<lparr>call_name = ''expense_summary_tool'', call_args = ?qa, call_id = ''call_4''\<rparr>"
  have a: "llm G_cross ?m = ([[]], Inr asks_expense)"
    by (simp add: G_cross_def input_payload_def human_message_def)
  have b: "resp_tool_calls asks_expense \<noteq> []" by (simp add: asks_expense_def)
  have c: "fresh_id (resp_id asks_expense) ?m"
    by (simp add: fresh_id_def asks_expense_def)
  have n1: "call_name expense_call = ''add_expense_tool''" by (simp add: expense_call_def)
  have v1: "validate env_up AddExpenseInput (call_args expense_call) = Inr ?kw"
    by (simp add: AddExpenseInput_def expense_call_def bind_def)
  have u1: "map_of (call_args expense_call) ''user_id'' = Some (PStr ''u2'')"
    by (simp add: expense_call_def)
  have n2: "call_name ?qc = ''query_expenses_tool''" "call_args ?qc = ?qa" by simp_all
  have v2: "validate env_up QueryExpenseInput ?qa = Inr ?qa"
    by (simp add: QueryExpenseInput_def bind_def)
  have n3: "call_name ?sc = ''expense_summary_tool''" "call_args ?sc = ?qa" by simp_all
  have v3: "validate env_up ExpenseSummaryInput ?qa = Inr ?qa"
    by (simp add: ExpenseSummaryInput_def bind_def)
  have f: "load cp0 (config_key ''u1'') = load cp0 (config_key ''u3'')"
    by (simp add: load_def cp0_def)
  note inst = tools_receive_model_user_id [where G = G_cross and messages = ?m
      and chunks = "[[]]" and resp = asks_expense and s = db0 and E = env_up
      and ?c1.0 = expense_call and ?kw1.0 = ?kw and ?c2.0 = ?qc and ?kw2.0 = ?qa
      and ?c3.0 = ?sc and ?kw3.0 = ?qa and cp = cp0 and sid = "''u1''" and sid' = "''u3''"
      and user_text = "''I spent 200 rupees on groceries''"]
  from inst a b c have 1: "\<exists>res s' invs.
      superstep G_cross ChatNode ?m db0 =
        (chat_events [[]] asks_expense, Inr (?m @ [ai_message asks_expense], Some Tools),
         db0, []) \<and>
      tool_node G_cross (?m @ [ai_message asks_expense]) db0 = (res, s', invs) \<and>
      mset invs =
        mset (map (\<lambda>c. (call_name c, call_args c))
               (filter (\<lambda>c. call_name c \<in> tool_name ` set tools)
                  (resp_tool_calls asks_expense)))"
    by blast
  from inst n1 v1 have 2: "\<exists>u a cat v s'.
      map_of (call_args expense_call) ''user_id'' = Some (PStr u) \<and>
      add_expense_tool env_up u a cat (arg_opt_str ?kw ''description'') db0 = (Inr v, s') \<and>
      run_one env_up tools expense_call db0 =
        (Inr (tool_message (stringify v) expense_call ''success''), s',
         [(''add_expense_tool'', call_args expense_call)]) \<and>
      (s' = db0 \<or>
       (\<exists>doc. s' = db0\<lparr>expenses := expenses db0 @ [doc]\<rparr> \<and>
              map_of doc ''user_id'' = Some (PStr u)))"
    by blast
  from inst n2 v2 have 3: "\<exists>u v.
      map_of ?qa ''user_id'' = Some (PStr u) \<and>
      query_expenses_tool env_up u (arg_opt_str ?qa ''category'')
        (arg_int_default ?qa ''period_days'' 30) db0 = (Inr v, db0) \<and>
      run_one env_up tools ?qc db0 =
        (Inr (tool_message (stringify v) ?qc ''success''), db0,
         [(''query_expenses_tool'', ?qa)])"
    by (simp only: n2 simp_thms)
  from inst n3 v3 have 4: "\<exists>u v.
      map_of ?qa ''user_id'' = Some (PStr u) \<and>
      expense_summary_tool env_up u (arg_int_default ?qa ''period_days'' 30) db0 =
        (Inr v, db0) \<and>
      run_one env_up tools ?sc db0 =
        (Inr (tool_message (stringify v) ?sc ''success''), db0,
         [(''expense_summary_tool'', ?qa)])"
    by (simp only: n3 simp_thms)
  from inst f have 5:
    "fragments (process_input_stream G_cross ''I spent 200 rupees on groceries'' ''u1'' cp0 db0) =
       fragments (process_input_stream G_cross ''I spent 200 rupees on groceries'' ''u3'' cp0 db0)"
    "database (process_input_stream G_cross ''I spent 200 rupees on groceries'' ''u1'' cp0 db0) =
       database (process_input_stream G_cross ''I spent 200 rupees on groceries'' ''u3'' cp0 db0)"
    by blast+
  from a b c 1 n1 v1 u1 2 v2 3 v3 4 f 5 show ?thesis by (intro conjI)
qed

text \<open>
  C1, as stated, fails: in a turn of session \<open>u1\<close> the model asks for
  \<open>add_expense_tool\<close> with the user id \<open>u2\<close>; the tool is invoked with \<open>u2\<close>, and the
  expense is stored for the user \<open>u2\<close>.
\<close>

theorem session_id_not_substituted:
  "invoked (agent_stream G_cross (input_payload ''I spent 200 rupees on groceries'')
              (config_key ''u1'') cp0 db0) =
     [(''add_expense_tool'',
       [(''user_id'', PStr ''u2''), (''amount'', PInt 200), (''category'', PStr ''groceries'')])] \<and>
   map (\<lambda>d. map_of d ''user_id'')
     (expenses (database
        (process_input_stream G_cross ''I spent 200 rupees on groceries'' ''u1'' cp0 db0))) =
     [Some (PStr ''u2'')] \<and>
   ''u2'' \<noteq> ''u1''"
  by code_simp

section \<open>Where the fragments come from\<close>

lemma loop_keeps:
  "m \<in> set messages \<Longrightarrow> msg_id m = None \<Longrightarrow> m \<in> set (saved (pregel_loop G n nd messages s))"
proof (induction n arbitrary: nd messages s)
  case 0
  then show ?case by (simp add: stopped_def)
next
  case (Suc n)
  show ?case
  proof (cases rule: pregel_loop_Suc_cases [of G nd messages s n])
    case (fail evs e s' invs)
    from Suc.prems show ?thesis unfolding fail(2) by (simp add: stopped_def)
  next
    case (stop evs messages' nxt s' invs e)
    from Suc.prems step_ok(2) [OF stop(1)] show ?thesis
      unfolding stop(2) by (simp add: stopped_def after_step_def)
  next
    case (continue evs messages' nd' s' invs)
    from Suc.prems step_ok(2) [OF continue(1)] have "m \<in> set messages'" by simp
    from Suc.IH [OF this Suc.prems(2), of nd' s'] show ?thesis
      unfolding continue(2) by (simp add: after_step_def)
  qed
qed

lemma origin_ok_mono:
  "origin_ok G ms ev \<Longrightarrow> (\<And>m. m \<in> set ms \<Longrightarrow> msg_id m = None \<Longrightarrow> m \<in> set ms') \<Longrightarrow>
   origin_ok G ms' ev"
  unfolding origin_ok_def by blast

lemma loop_origin:
  "ev \<in> set (events (pregel_loop G n nd messages s)) \<Longrightarrow>
   origin_ok G (saved (pregel_loop G n nd messages s)) ev"
proof (induction n arbitrary: nd messages s)
  case 0
  then show ?case by (simp add: stopped_def)
next
  case (Suc n)
  show ?case
  proof (cases rule: pregel_loop_Suc_cases [of G nd messages s n])
    case (fail evs e s' invs)
    from Suc.prems have "ev \<in> set evs" unfolding fail(2) by (simp add: stopped_def)
    with step_fail [OF fail(1)] show ?thesis by (simp add: origin_ok_def)
  next
    case (stop evs messages' nxt s' invs e)
    from Suc.prems have "ev \<in> set evs"
      unfolding stop(2) by (simp add: stopped_def after_step_def)
    with step_ok(1) [OF stop(1)] show ?thesis
      unfolding stop(2) by (simp add: stopped_def after_step_def)
  next
    case (continue evs messages' nd' s' invs)
    let ?r = "pregel_loop G n nd' messages' s'"
    have sv: "saved (pregel_loop G (Suc n) nd messages s) = saved ?r"
      unfolding continue(2) by (simp add: after_step_def)
    from Suc.prems have "ev \<in> set evs \<or> ev \<in> set (events ?r)"
      unfolding continue(2) by (simp add: after_step_def)
    then show ?thesis
    proof
      assume "ev \<in> set evs"
      with step_ok(1) [OF continue(1)] have "origin_ok G messages' ev" by simp
      then have "origin_ok G (saved ?r) ev"
        by (rule origin_ok_mono) (rule loop_keeps)
      then show ?thesis by (simp only: sv)
    next
      assume "ev \<in> set (events ?r)"
      from Suc.IH [OF this] show ?thesis by (simp only: sv)
    qed
  qed
qed

lemma loop_saved:
  "m \<in> set (saved (pregel_loop G n nd messages s)) \<Longrightarrow>
   m \<in> set messages \<or> role m = AIMessage \<or>
   \<lparr>ev_content = content m, ev_node = Tools\<rparr> \<in> set (events (pregel_loop G n nd messages s))"
proof (induction n arbitrary: nd messages s)
  case 0
  then show ?case by (simp add: stopped_def)
next
  case (Suc n)
  show ?case
  proof (cases rule: pregel_loop_Suc_cases [of G nd messages s n])
    case (fail evs e s' invs)
    from Suc.prems show ?thesis unfolding fail(2) by (simp add: stopped_def)
  next
    case (stop evs messages' nxt s' invs e)
    from Suc.prems have "m \<in> set messages'"
      unfolding stop(2) by (simp add: stopped_def after_step_def)
    with step_ok(3) [OF stop(1)] show ?thesis
      unfolding stop(2) by (auto simp: stopped_def after_step_def)
  next
    case (continue evs messages' nd' s' invs)
    let ?r = "pregel_loop G n nd' messages' s'"
    from Suc.prems have "m \<in> set (saved ?r)"
      unfolding continue(2) by (simp add: after_step_def)
    from Suc.IH [OF this] have
      "m \<in> set messages' \<or> role m = AIMessage \<or>
       \<lparr>ev_content = content m, ev_node = Tools\<rparr> \<in> set (events ?r)" .
    with step_ok(3) [OF continue(1)] show ?thesis
      unfolding continue(2) by (auto simp: after_step_def)
  qed
qed

text \<open>
  C3. The fragments of a turn are the contents, where not empty, of the messages that
  the run emits, in their order, followed by the error fragment if the run raised. An
  emitted message comes from \<open>chat_node\<close>, and is then a chunk or an answer of the
  model, or from \<open>tools\<close>, and is then the content of a tool message of the persisted
  state. \<open>process_input_stream\<close> does not look at the node: the content of every tool
  message that the turn adds to the state is emitted, and is a fragment unless empty.
\<close>

theorem fragments_from_model_and_tools:
  "fragments (process_input_stream G text sid cp s) =
     filter truthy
       (map ev_content (events (agent_stream G (input_payload text) (config_key sid) cp s))) @
     (case raised (agent_stream G (input_payload text) (config_key sid) cp s) of
        None \<Rightarrow> [] | Some e \<Rightarrow> [error_fragment e]) \<and>
   (\<forall>ev \<in> set (events (agent_stream G (input_payload text) (config_key sid) cp s)).
      origin_ok G (saved (agent_stream G (input_payload text) (config_key sid) cp s)) ev) \<and>
   (\<forall>m \<in> set (saved (agent_stream G (input_payload text) (config_key sid) cp s)).
      m \<in> set (load cp (config_key sid)) \<or> m \<in> set (input_payload text) \<or>
      role m = AIMessage \<or>
      (\<lparr>ev_content = content m, ev_node = Tools\<rparr> \<in>
         set (events (agent_stream G (input_payload text) (config_key sid) cp s)) \<and>
       (truthy (content m) \<longrightarrow>
          content m \<in> set (fragments (process_input_stream G text sid cp s)))))"
proof -
  let ?r = "agent_stream G (input_payload text) (config_key sid) cp s"
  let ?m0 = "load cp (config_key sid) @ input_payload text"
  have r: "?r = pregel_loop G (recursion_limit G) ChatNode ?m0 s"
    by (simp only: agent_stream_def add_messages_input)
  have f: "fragments (process_input_stream G text sid cp s) =
     filter truthy (map ev_content (events ?r)) @
     (case raised ?r of None \<Rightarrow> [] | Some e \<Rightarrow> [error_fragment e])"
    by (simp add: process_input_stream_def yielded_def Let_def)
  have 2: "\<forall>ev \<in> set (events ?r). origin_ok G (saved ?r) ev"
    unfolding r using loop_origin by blast
  have 3: "m \<in> set (load cp (config_key sid)) \<or> m \<in> set (input_payload text) \<or>
      role m = AIMessage \<or>
      (\<lparr>ev_content = content m, ev_node = Tools\<rparr> \<in> set (events ?r) \<and>
       (truthy (content m) \<longrightarrow>
          content m \<in> set (fragments (process_input_stream G text sid cp s))))"
    if m: "m \<in> set (saved ?r)" for m
  proof -
    from m have "m \<in> set (saved (pregel_loop G (recursion_limit G) ChatNode ?m0 s))"
      by (simp only: r)
    from loop_saved [OF this] have
      c: "m \<in> set ?m0 \<or> role m = AIMessage \<or>
          \<lparr>ev_content = content m, ev_node = Tools\<rparr> \<in> set (events ?r)"
      by (simp only: r)
    have "content m \<in> set (fragments (process_input_stream G text sid cp s))"
      if "\<lparr>ev_content = content m, ev_node = Tools\<rparr> \<in> set (events ?r)" "truthy (content m)"
    proof -
      from that(1) have "ev_content \<lparr>ev_content = content m, ev_node = Tools\<rparr> \<in>
                         ev_content ` set (events ?r)"
        by (rule imageI)
      then have "content m \<in> set (map ev_content (events ?r))" by simp
      with that(2) show ?thesis by (simp only: f) simp
    qed
    with c show ?thesis by auto
  qed
  from f 2 3 show ?thesis by blast
qed


theorem fragments_from_model_and_tools_witness:
  "\<lparr>ev_content = Dumps expense_added, ev_node = Tools\<rparr> \<in>
     set (events (agent_stream G_cross (input_payload ''I spent 200 rupees on groceries'')
                    (config_key ''u1'') cp0 db0)) \<and>
   origin_ok G_cross
     (saved (agent_stream G_cross (input_payload ''I spent 200 rupees on groceries'')
               (config_key ''u1'') cp0 db0))
     \<lparr>ev_content = Dumps expense_added, ev_node = Tools\<rparr> \<and>
   expense_added_message \<in>
     set (saved (agent_stream G_cross (input_payload ''I spent 200 rupees on groceries'')
                   (config_key ''u1'') cp0 db0)) \<and>
   expense_added_message \<notin> set (load cp0 (config_key ''u1'')) \<and>
   expense_added_message \<notin> set (input_payload ''I spent 200 rupees on groceries'') \<and>
   role expense_added_message \<noteq> AIMessage \<and>
   truthy (content expense_added_message) \<and>
   content expense_added_message \<in>
     set (fragments
            (process_input_stream G_cross ''I spent 200 rupees on groceries'' ''u1'' cp0 db0))"
proof -
  let ?r = "agent_stream G_cross (input_payload ''I spent 200 rupees on groceries'')
              (config_key ''u1'') cp0 db0"
  have a: "\<lparr>ev_content = Dumps expense_added, ev_node = Tools\<rparr> \<in> set (events ?r)"
    by code_simp
  have b: "expense_added_message \<in> set (saved ?r)"
    by code_simp
  have c: "expense_added_message \<notin> set (load cp0 (config_key ''u1''))"
    by (simp add: load_def cp0_def)
  have d: "expense_added_message \<notin> set (input_payload ''I spent 200 rupees on groceries'')"
    by (simp add: input_payload_def expense_added_message_def tool_message_def
        system_message_def human_message_def)
  have e: "role expense_added_message \<noteq> AIMessage"
    by (simp add: expense_added_message_def tool_message_def)
  have f: "truthy (content expense_added_message)"
    by (simp add: expense_added_message_def tool_message_def)
  show ?thesis
    using a b c d e f
      fragments_from_model_and_tools [of G_cross "''I spent 200 rupees on groceries''"
        "''u1''" cp0 db0]
    by blast
qed

text \<open>
  C3, as stated, fails: in the turn that records an expense, the first fragment the
  caller gets is the serialised result of \<open>add_expense_tool\<close>, emitted by the node
  \<open>tools\<close>; the model's confirmation follows.
\<close>

theorem tool_output_is_streamed:
  "fragments (process_input_stream G_cross ''I spent 200 rupees on groceries'' ''u1'' cp0 db0) =
     [Dumps expense_added, Str ''I have added your expense.''] \<and>
   events (agent_stream G_cross (input_payload ''I spent 200 rupees on groceries'')
             (config_key ''u1'') cp0 db0) =
     [\<lparr>ev_content = Str [], ev_node = ChatNode\<rparr>,
      \<lparr>ev_content = Dumps expense_added, ev_node = Tools\<rparr>,
      \<lparr>ev_content = Str ''I have added your expense.'', ev_node = ChatNode\<rparr>]"
  by code_simp

end
